theory Spec2Isabelle
  imports Main "HOL-Library.Sublist"
begin

section \<open>Strings\<close>

text \<open>
  The scaffolder is a Node script. A string of the script is modelled by the bytes of
  its UTF-8 encoding, and the content of a file is its bytes; the helpers below are the
  few string methods of JavaScript that the script calls.
\<close>

text \<open>
  \<^verbatim>\<open>String.prototype.toUpperCase\<close>. The ASCII letters are mapped to their capitals, and so
  is every other character whose upper case in Unicode contains an ASCII letter: the
  sharp s, the dotless i, the long s, the Latin ligatures, and five letters that
  decompose into a capital and a mark (\<open>special_casing\<close>, keyed by the UTF-8 bytes of the
  character). Any other character is kept as it is. JavaScript maps some of those to
  another character outside ASCII, so the result is JavaScript's wherever an ASCII
  character is concerned; in particular it equals a given ASCII string exactly when
  JavaScript's result does.
\<close>

definition upper_char :: "char \<Rightarrow> char" where
  "upper_char c =
     (case map_of (zip ''abcdefghijklmnopqrstuvwxyz'' ''ABCDEFGHIJKLMNOPQRSTUVWXYZ'') c of
        Some u \<Rightarrow> u
      | None \<Rightarrow> c)"

definition special_casing :: "(string \<times> string) list" where
  "special_casing =
     [([CHR 0xC3, CHR 0x9F], ''SS''),
      ([CHR 0xC4, CHR 0xB1], ''I''),
      ([CHR 0xC5, CHR 0x89], [CHR 0xCA, CHR 0xBC, CHR ''N'']),
      ([CHR 0xC5, CHR 0xBF], ''S''),
      ([CHR 0xC7, CHR 0xB0], [CHR ''J'', CHR 0xCC, CHR 0x8C]),
      ([CHR 0xE1, CHR 0xBA, CHR 0x96], [CHR ''H'', CHR 0xCC, CHR 0xB1]),
      ([CHR 0xE1, CHR 0xBA, CHR 0x97], [CHR ''T'', CHR 0xCC, CHR 0x88]),
      ([CHR 0xE1, CHR 0xBA, CHR 0x98], [CHR ''W'', CHR 0xCC, CHR 0x8A]),
      ([CHR 0xE1, CHR 0xBA, CHR 0x99], [CHR ''Y'', CHR 0xCC, CHR 0x8A]),
      ([CHR 0xE1, CHR 0xBA, CHR 0x9A], [CHR ''A'', CHR 0xCA, CHR 0xBE]),
      ([CHR 0xEF, CHR 0xAC, CHR 0x80], ''FF''),
      ([CHR 0xEF, CHR 0xAC, CHR 0x81], ''FI''),
      ([CHR 0xEF, CHR 0xAC, CHR 0x82], ''FL''),
      ([CHR 0xEF, CHR 0xAC, CHR 0x83], ''FFI''),
      ([CHR 0xEF, CHR 0xAC, CHR 0x84], ''FFL''),
      ([CHR 0xEF, CHR 0xAC, CHR 0x85], ''ST''),
      ([CHR 0xEF, CHR 0xAC, CHR 0x86], ''ST'')]"

function toUpperCase :: "string \<Rightarrow> string" where
  "toUpperCase [] = []"
| "toUpperCase (c # cs) =
     (case find (\<lambda>(k, u). k \<noteq> [] \<and> prefix k (c # cs)) special_casing of
        Some (k, u) \<Rightarrow> u @ toUpperCase (drop (length k) (c # cs))
      | None \<Rightarrow> upper_char c # toUpperCase cs)"
  by pat_completeness auto
termination
  by (relation "measure length") (auto simp: find_Some_iff)

text \<open>
  \<^verbatim>\<open>buffer.toString("utf8")\<close>, which is how \<^verbatim>\<open>fs.readFileSync(path, "utf8")\<close> turns the bytes
  of a file into a string: well-formed UTF-8 is taken as it is, and every ill-formed
  part becomes the replacement character U+FFFD (bytes EF BF BD). The decoder is the
  one of the Encoding Standard: a lead byte announces how many continuation bytes are
  needed (\<open>need\<close>) and narrows the range of the first of them (\<open>lo\<close> to \<open>hi\<close>, which
  excludes overlong forms, surrogates and code points above U+10FFFF); \<open>seq\<close> holds the
  bytes of the sequence under way. A byte that cannot continue the sequence ends it with
  one replacement character and is then looked at afresh.
\<close>

definition REPLACEMENT :: string where
  "REPLACEMENT = [CHR 0xEF, CHR 0xBF, CHR 0xBD]"

function utf8_scan :: "nat \<Rightarrow> nat \<Rightarrow> nat \<Rightarrow> string \<Rightarrow> string \<Rightarrow> string" where
  "utf8_scan need lo hi seq [] = (if need = 0 then [] else REPLACEMENT)"
| "utf8_scan need lo hi seq (b # bs) =
     (let n = (of_char b :: nat) in
      if need = 0 then
        (if n < 0x80 then b # utf8_scan 0 0x80 0xBF [] bs
         else if 0xC2 \<le> n \<and> n \<le> 0xDF then utf8_scan 1 0x80 0xBF [b] bs
         else if 0xE0 \<le> n \<and> n \<le> 0xEF
           then utf8_scan 2 (if n = 0xE0 then 0xA0 else 0x80) (if n = 0xED then 0x9F else 0xBF) [b] bs
         else if 0xF0 \<le> n \<and> n \<le> 0xF4
           then utf8_scan 3 (if n = 0xF0 then 0x90 else 0x80) (if n = 0xF4 then 0x8F else 0xBF) [b] bs
         else REPLACEMENT @ utf8_scan 0 0x80 0xBF [] bs)
      else if n < lo \<or> hi < n then REPLACEMENT @ utf8_scan 0 0x80 0xBF [] (b # bs)
      else if need = 1 then seq @ b # utf8_scan 0 0x80 0xBF [] bs
      else utf8_scan (need - 1) 0x80 0xBF (seq @ [b]) bs)"
  by pat_completeness auto
termination
  by (relation "measure (\<lambda>(need, lo, hi, seq, bs). 2 * length bs + (if need = 0 then 0 else 1))") auto

definition toString_utf8 :: "string \<Rightarrow> string" where
  "toString_utf8 bytes = utf8_scan 0 0x80 0xBF [] bytes"

text \<open>\<^verbatim>\<open>file.endsWith(".md")\<close>.\<close>

definition endsWith :: "string \<Rightarrow> string \<Rightarrow> bool" where
  "endsWith s suf = prefix (rev suf) (rev s)"

text \<open>
  \<^verbatim>\<open>s.replace(pat, rep)\<close> with a string pattern: only the first occurrence is replaced.
\<close>

fun replace_first :: "string \<Rightarrow> string \<Rightarrow> string \<Rightarrow> string" where
  "replace_first pat rep [] = (if pat = [] then rep else [])"
| "replace_first pat rep (c # cs) =
     (if prefix pat (c # cs) then rep @ drop (length pat) (c # cs)
      else c # replace_first pat rep cs)"

text \<open>
  \<^verbatim>\<open>s.replace(/pat/g, rep)\<close> for a literal, non-empty pattern: the matches are found
  from left to right and do not overlap. The replacement is inserted literally, which is
  what JavaScript does for a replacement string without a dollar sign.
\<close>

function replace_global :: "string \<Rightarrow> string \<Rightarrow> string \<Rightarrow> string" where
  "replace_global pat rep [] = []"
| "replace_global pat rep (c # cs) =
     (if pat \<noteq> [] \<and> prefix pat (c # cs)
      then rep @ replace_global pat rep (drop (length pat) (c # cs))
      else c # replace_global pat rep cs)"
  by pat_completeness auto
termination
  by (relation "measure (\<lambda>(pat, rep, s). length s)") auto

definition PLACEHOLDER :: string where
  "PLACEHOLDER = ''{{LLM_AGENT}}''"

definition SUPPORTED_LLMS :: "string list" where
  "SUPPORTED_LLMS = [''GEMINI'', ''CLAUDE'']"

definition REQUIRED_FILES :: "string list" where
  "REQUIRED_FILES = [''INITIAL_EXAMPLE.md'', ''INITIAL.md'', ''README.md'']"

text \<open>
  Vocabulary for stating the substitution property: the text between the matches
  (\<open>split_on\<close>, as \<^verbatim>\<open>s.split(pat)\<close>), gluing pieces with a separator (\<open>join\<close>), and
  the number of positions at which a pattern occurs (\<open>count_occ\<close>).
\<close>

function split_on :: "string \<Rightarrow> string \<Rightarrow> string list" where
  "split_on pat [] = [[]]"
| "split_on pat (c # cs) =
     (if pat \<noteq> [] \<and> prefix pat (c # cs)
      then [] # split_on pat (drop (length pat) (c # cs))
      else (case split_on pat cs of [] \<Rightarrow> [[c]] | g # gs \<Rightarrow> (c # g) # gs))"
  by pat_completeness auto
termination
  by (relation "measure (\<lambda>(pat, s). length s)") auto

fun join :: "string \<Rightarrow> string list \<Rightarrow> string" where
  "join sep [] = []"
| "join sep [g] = g"
| "join sep (g # h # gs) = g @ sep @ join sep (h # gs)"

primrec count_occ :: "string \<Rightarrow> string \<Rightarrow> nat" where
  "count_occ pat [] = 0"
| "count_occ pat (c # cs) = (if prefix pat (c # cs) then 1 else 0) + count_occ pat cs"

section \<open>Paths\<close>

text \<open>
  A path is the list of its components below the root, already normalised (POSIX).
  \<open>path_join\<close> and \<open>path_resolve\<close> are \<^verbatim>\<open>path.join\<close> and \<^verbatim>\<open>path.resolve\<close> for an
  absolute first argument: segments are split at slashes, empty and \<^verbatim>\<open>.\<close> components
  are dropped and \<^verbatim>\<open>..\<close> steps to the parent.
\<close>

type_synonym path = "string list"

fun split_slash :: "string \<Rightarrow> string list" where
  "split_slash [] = [[]]"
| "split_slash (c # cs) =
     (if c = CHR ''/'' then [] # split_slash cs
      else (case split_slash cs of [] \<Rightarrow> [[c]] | g # gs \<Rightarrow> (c # g) # gs))"

fun normalize_onto :: "path \<Rightarrow> string list \<Rightarrow> path" where
  "normalize_onto base [] = base"
| "normalize_onto base (c # cs) =
     (if c = [] \<or> c = ''.'' then normalize_onto base cs
      else if c = ''..'' then normalize_onto (butlast base) cs
      else normalize_onto (base @ [c]) cs)"

definition path_join :: "path \<Rightarrow> string list \<Rightarrow> path" where
  "path_join base segs = normalize_onto base (concat (map split_slash segs))"

definition path_resolve :: "path \<Rightarrow> string \<Rightarrow> path" where
  "path_resolve cwd s =
     (if prefix ''/'' s then normalize_onto [] (split_slash s)
      else normalize_onto cwd (split_slash s))"

definition path_str :: "path \<Rightarrow> string" where
  "path_str p = (if p = [] then ''/'' else concat (map (\<lambda>c. CHR ''/'' # c) p))"

definition simple_name :: "string \<Rightarrow> bool" where
  "simple_name s \<longleftrightarrow> s \<noteq> [] \<and> s \<noteq> ''.'' \<and> s \<noteq> ''..'' \<and> CHR ''/'' \<notin> set s"

section \<open>The file system\<close>

text \<open>
  The file system is an association list from paths to nodes; the first binding of a
  path is the live one, so a write puts its binding in front. The root always exists.
\<close>

datatype node = File string | Dir

type_synonym fs = "(path \<times> node) list"

definition stat :: "fs \<Rightarrow> path \<Rightarrow> node option" where
  "stat fs p = (if p = [] then Some Dir else map_of fs p)"

definition is_file :: "node \<Rightarrow> bool" where
  "is_file n = (case n of File c \<Rightarrow> True | Dir \<Rightarrow> False)"

definition children :: "fs \<Rightarrow> path \<Rightarrow> string list" where
  "children fs d = remdups (map (\<lambda>(p, n). last p) (filter (\<lambda>(p, n). p \<noteq> [] \<and> butlast p = d) fs))"

definition remove_tree :: "fs \<Rightarrow> path \<Rightarrow> fs" where
  "remove_tree fs p = filter (\<lambda>(q, n). \<not> prefix p q) fs"

text \<open>\<^verbatim>\<open>mkdir -p\<close>: walk down from \<open>base\<close>, creating what is missing.\<close>

fun mkdirs :: "path \<Rightarrow> string list \<Rightarrow> fs \<Rightarrow> string + fs" where
  "mkdirs base [] fs = Inr fs"
| "mkdirs base (c # cs) fs =
     (case stat fs (base @ [c]) of
        Some (File x) \<Rightarrow> Inl (if cs = [] then ''EEXIST: file already exists'' else ''ENOTDIR: not a directory'')
      | Some Dir \<Rightarrow> mkdirs (base @ [c]) cs fs
      | None \<Rightarrow> mkdirs (base @ [c]) cs ((base @ [c], Dir) # fs))"

text \<open>The bindings below \<open>src\<close>, re-rooted at \<open>dst\<close>.\<close>

definition copy_entries :: "fs \<Rightarrow> path \<Rightarrow> path \<Rightarrow> fs" where
  "copy_entries fs src dst =
     map (\<lambda>(q, n). (dst @ drop (length src) q, n))
       (filter (\<lambda>(q, n). prefix src q \<and> q \<noteq> src) fs)"

definition copy_conflict :: "fs \<Rightarrow> fs \<Rightarrow> bool" where
  "copy_conflict fs es =
     list_ex (\<lambda>(t, n). case stat fs t of None \<Rightarrow> False | Some m \<Rightarrow> is_file m \<noteq> is_file n) es"

section \<open>Processes: results, output, exit\<close>

text \<open>
  A computation returns a value, throws an \<^verbatim>\<open>Error\<close> with a message, or ends the process
  with \<^verbatim>\<open>process.exit\<close>. The world is the file system, the two output streams and the
  external commands that were run (with their working directory).
\<close>

datatype 'a outcome = Return 'a | Throw string | Exit nat

record world =
  fsys :: fs
  stdout :: "string list"
  stderr :: "string list"
  cmds :: "(string \<times> path) list"

type_synonym 'a io = "world \<Rightarrow> 'a outcome \<times> world"

definition ret :: "'a \<Rightarrow> 'a io" where
  "ret a w = (Return a, w)"

definition throw :: "string \<Rightarrow> 'a io" where
  "throw e w = (Throw e, w)"

definition process_exit :: "nat \<Rightarrow> 'a io" where
  "process_exit n w = (Exit n, w)"

definition andThen :: "'a io \<Rightarrow> ('a \<Rightarrow> 'b io) \<Rightarrow> 'b io" where
  "andThen m f w =
     (case m w of
        (Return a, w') \<Rightarrow> f a w'
      | (Throw e, w') \<Rightarrow> (Throw e, w')
      | (Exit n, w') \<Rightarrow> (Exit n, w'))"

text \<open>
  \<^verbatim>\<open>try { body } catch (error) { handler }\<close>: only a thrown error reaches the handler; a
  process that has exited runs nothing more.
\<close>

definition try_catch :: "'a io \<Rightarrow> (string \<Rightarrow> 'a io) \<Rightarrow> 'a io" where
  "try_catch body handler w =
     (case body w of
        (Return a, w') \<Rightarrow> (Return a, w')
      | (Throw e, w') \<Rightarrow> handler e w'
      | (Exit n, w') \<Rightarrow> (Exit n, w'))"

text \<open>
  \<^verbatim>\<open>try { body } finally { fin }\<close>: the \<^verbatim>\<open>finally\<close> block runs after a return and after a
  throw (which is then rethrown), but \<^verbatim>\<open>process.exit\<close> ends the process on the spot and
  the block is not run.
\<close>

definition try_finally :: "'a io \<Rightarrow> unit io \<Rightarrow> 'a io" where
  "try_finally body fin w =
     (case body w of
        (Return a, w') \<Rightarrow> andThen fin (\<lambda>_. ret a) w'
      | (Throw e, w') \<Rightarrow> andThen fin (\<lambda>_. throw e) w'
      | (Exit n, w') \<Rightarrow> (Exit n, w'))"

fun forEach :: "'a list \<Rightarrow> ('a \<Rightarrow> unit io) \<Rightarrow> unit io" where
  "forEach [] f = ret ()"
| "forEach (x # xs) f = andThen (f x) (\<lambda>_. forEach xs f)"

definition console_log :: "string \<Rightarrow> unit io" where
  "console_log msg w = (Return (), w\<lparr>stdout := stdout w @ [msg]\<rparr>)"

definition console_warn :: "string \<Rightarrow> unit io" where
  "console_warn msg w = (Return (), w\<lparr>stderr := stderr w @ [msg]\<rparr>)"

definition console_error :: "string \<Rightarrow> unit io" where
  "console_error msg w = (Return (), w\<lparr>stderr := stderr w @ [msg]\<rparr>)"

subsection \<open>The calls into \<^verbatim>\<open>fs-extra\<close>\<close>

definition existsSync :: "path \<Rightarrow> bool io" where
  "existsSync p w = (Return (stat (fsys w) p \<noteq> None), w)"

definition mkdirSync :: "path \<Rightarrow> unit io" where
  "mkdirSync p w =
     (if stat (fsys w) p \<noteq> None then (Throw ''EEXIST: file already exists'', w)
      else if stat (fsys w) (butlast p) \<noteq> Some Dir then (Throw ''ENOENT: no such file or directory'', w)
      else (Return (), w\<lparr>fsys := (p, Dir) # fsys w\<rparr>))"

definition mkdirSync_recursive :: "path \<Rightarrow> unit io" where
  "mkdirSync_recursive p w =
     (case mkdirs [] p (fsys w) of
        Inl e \<Rightarrow> (Throw e, w)
      | Inr fs' \<Rightarrow> (Return (), w\<lparr>fsys := fs'\<rparr>))"

text \<open>
  \<^verbatim>\<open>fs.readFileSync(p, "utf8")\<close>, the only way the scripts read a file: the text that the
  bytes decode to. \<^verbatim>\<open>fs.writeFileSync(p, c)\<close> encodes its string in UTF-8, which for a
  string held as its UTF-8 bytes is to write those bytes.
\<close>

definition readFileSync :: "path \<Rightarrow> string io" where
  "readFileSync p w =
     (case stat (fsys w) p of
        None \<Rightarrow> (Throw ''ENOENT: no such file or directory'', w)
      | Some Dir \<Rightarrow> (Throw ''EISDIR: illegal operation on a directory'', w)
      | Some (File c) \<Rightarrow> (Return (toString_utf8 c), w))"

definition writeFileSync :: "path \<Rightarrow> string \<Rightarrow> unit io" where
  "writeFileSync p c w =
     (if stat (fsys w) p = Some Dir then (Throw ''EISDIR: illegal operation on a directory'', w)
      else if stat (fsys w) (butlast p) \<noteq> Some Dir then (Throw ''ENOENT: no such file or directory'', w)
      else (Return (), w\<lparr>fsys := (p, File c) # fsys w\<rparr>))"

definition readdirSync :: "path \<Rightarrow> string list io" where
  "readdirSync p w =
     (case stat (fsys w) p of
        None \<Rightarrow> (Throw ''ENOENT: no such file or directory'', w)
      | Some (File c) \<Rightarrow> (Throw ''ENOTDIR: not a directory'', w)
      | Some Dir \<Rightarrow> (Return (children (fsys w) p), w))"

definition removeSync :: "path \<Rightarrow> unit io" where
  "removeSync p w = (Return (), w\<lparr>fsys := remove_tree (fsys w) p\<rparr>)"

text \<open>
  \<^verbatim>\<open>fs.copySync(src, dst)\<close> copies a file or a whole subtree, creates the parent of the
  destination and overwrites files that exist. It refuses a missing source, a copy onto
  itself or into its own subtree, and a file where a directory is (or the reverse); the
  check for such a clash is made here before anything is written.
\<close>

definition copySync :: "path \<Rightarrow> path \<Rightarrow> unit io" where
  "copySync src dst w =
     (case stat (fsys w) src of
        None \<Rightarrow> (Throw ''ENOENT: no such file or directory'', w)
      | Some n \<Rightarrow>
          if src = dst then (Throw ''Source and destination must not be the same.'', w)
          else if n = Dir \<and> prefix src dst then (Throw ''Cannot copy to a subdirectory of itself'', w)
          else if copy_conflict (fsys w) ((dst, n) # copy_entries (fsys w) src dst)
            then (Throw ''Cannot overwrite directory with non-directory'', w)
          else (case mkdirs [] (butlast dst) (fsys w) of
                  Inl e \<Rightarrow> (Throw e, w)
                | Inr fs' \<Rightarrow> (Return (), w\<lparr>fsys := (dst, n) # copy_entries (fsys w) src dst @ fs'\<rparr>)))"

definition renameSync :: "path \<Rightarrow> path \<Rightarrow> unit io" where
  "renameSync src dst w =
     (case stat (fsys w) src of
        None \<Rightarrow> (Throw ''ENOENT: no such file or directory'', w)
      | Some n \<Rightarrow>
          if src = dst then (Return (), w)
          else if prefix src dst then (Throw ''EINVAL: invalid argument'', w)
          else if stat (fsys w) (butlast dst) \<noteq> Some Dir then (Throw ''ENOENT: no such file or directory'', w)
          else (case stat (fsys w) dst of
                  Some m \<Rightarrow>
                    if is_file m \<noteq> is_file n then (Throw ''ENOTDIR: not a directory'', w)
                    else if m = Dir \<and> children (fsys w) dst \<noteq> [] then (Throw ''ENOTEMPTY: directory not empty'', w)
                    else (Return (), w\<lparr>fsys := (dst, n) # copy_entries (fsys w) src dst
                                                  @ remove_tree (remove_tree (fsys w) dst) src\<rparr>)
                | None \<Rightarrow>
                    (Return (), w\<lparr>fsys := (dst, n) # copy_entries (fsys w) src dst
                                              @ remove_tree (fsys w) src\<rparr>)))"

subsection \<open>The calls to git\<close>

text \<open>
  What the two git commands do is outside the script. \<open>git_clone\<close> gets the working tree
  of the remote (\<open>None\<close>: the clone fails, for instance without network) and refuses a
  destination that is a file or is not empty; \<open>git_init\<close> gets whether git works and
  needs its working directory to exist.
\<close>

definition git_clone :: "fs option \<Rightarrow> path \<Rightarrow> unit io" where
  "git_clone remote dir w =
     (case remote of
        None \<Rightarrow> (Throw ''Command failed: git clone'', w)
      | Some tree \<Rightarrow>
          if (case stat (fsys w) dir of Some (File c) \<Rightarrow> True | _ \<Rightarrow> False)
             \<or> list_ex (\<lambda>(q, n). prefix dir q \<and> q \<noteq> dir) (fsys w)
          then (Throw ''Command failed: git clone'', w)
          else (case mkdirs [] dir (fsys w) of
                  Inl e \<Rightarrow> (Throw ''Command failed: git clone'', w)
                | Inr fs' \<Rightarrow>
                    (Return (), w\<lparr>fsys := map (\<lambda>(q, n). (dir @ q, n)) (filter (\<lambda>(q, n). q \<noteq> []) tree)
                                            @ (dir @ [''.git''], Dir) # fs',
                                   cmds := cmds w @ [(''git clone'', dir)]\<rparr>)))"

definition git_init :: "bool \<Rightarrow> path \<Rightarrow> unit io" where
  "git_init git_ok dir w =
     (if stat (fsys w) dir \<noteq> Some Dir then (Throw ''spawnSync /bin/sh ENOENT'', w)
      else if \<not> git_ok then (Throw ''Command failed: git init'', w)
      else (Return (), w\<lparr>fsys := (if stat (fsys w) (dir @ [''.git'']) = None
                                   then (dir @ [''.git''], Dir) # fsys w else fsys w),
                         cmds := cmds w @ [(''git init'', dir)]\<rparr>))"

section \<open>The command line\<close>

text \<open>
  The command line as the option parser sees it: the raw values of the three options
  (\<open>None\<close>: the option is missing; each is given at most once), whether help or the
  version is asked for (\<^verbatim>\<open>--help\<close> and \<^verbatim>\<open>--version\<close>, which \<^verbatim>\<open>yargs\<close> provides unless they
  are switched off, and in the refactored script also \<^verbatim>\<open>-h\<close> and \<^verbatim>\<open>-v\<close>), and whether it
  holds an option or an argument that the script does not declare.

  \<open>yargs_parse\<close> is what the option table asks of \<^verbatim>\<open>yargs\<close>. A request for help, and
  failing that one for the version, is served first: the text is printed on standard
  output and the process ends with status 0, whatever else the command line holds.
  Otherwise the command line is validated: each option is demanded, in strict mode
  nothing undeclared is accepted, \<^verbatim>\<open>llm\<close> is coerced before it is checked, and an option
  with \<^verbatim>\<open>choices\<close> has to be one of them. A rejected command line is reported on the error
  stream and ends the process with status 1. The texts that \<^verbatim>\<open>yargs\<close> prints are
  abridged to their first words.
\<close>

record raw_args =
  raw_name :: "string option"
  raw_lang :: "string option"
  raw_llm :: "string option"
  raw_help :: bool
  raw_version :: bool
  raw_unknown :: bool

record args =
  name :: string
  lang :: string
  llm :: string

definition yargs_parse :: "bool \<Rightarrow> string list \<Rightarrow> string list \<Rightarrow> raw_args \<Rightarrow> args io" where
  "yargs_parse strict lang_choices llm_choices a =
     (if raw_help a then andThen (console_log ''Options:'') (\<lambda>_. process_exit 0)
      else if raw_version a then andThen (console_log ''version'') (\<lambda>_. process_exit 0)
      else
        (case (raw_name a, raw_lang a, raw_llm a) of
           (Some n, Some l, Some m) \<Rightarrow>
             (let m' = toUpperCase m in
              if strict \<and> raw_unknown a
              then andThen (console_error ''Unknown argument'') (\<lambda>_. process_exit 1)
              else if l \<in> set lang_choices \<and> m' \<in> set llm_choices
              then ret \<lparr>name = n, lang = l, llm = m'\<rparr>
              else andThen (console_error ''Invalid values'') (\<lambda>_. process_exit 1))
         | _ \<Rightarrow> andThen (console_error ''Missing required argument'') (\<lambda>_. process_exit 1)))"

text \<open>
  What a run depends on besides the file system: the working directory, the temporary
  directory name that was drawn, the remote's working tree, whether \<^verbatim>\<open>git init\<close> works,
  and the command line.
\<close>

record env =
  cwd :: path
  tempDir :: path
  remote :: "fs option"
  git_ok :: bool
  argv :: raw_args

section \<open>The refactored scaffolder (\<^verbatim>\<open>create-context-engineering-app/index.js\<close>)\<close>

definition cloneRepository :: "fs option \<Rightarrow> path \<Rightarrow> unit io" where
  "cloneRepository rem tmp =
     try_catch
       (andThen (console_log ''Cloning repository...'') (\<lambda>_. git_clone rem tmp))
       (\<lambda>e. throw (''Failed to clone repository: '' @ e))"

definition getAvailableLanguages :: "path \<Rightarrow> string list io" where
  "getAvailableLanguages tmp =
     (let rulesDir = path_join tmp [''Rules''] in
      andThen (existsSync rulesDir) (\<lambda>ex.
        if \<not> ex then throw ''Rules directory not found in the cloned repository''
        else andThen (readdirSync rulesDir) (\<lambda>files.
          let languages = map (\<lambda>file. replace_first ''.md'' [] file)
                            (filter (\<lambda>file. endsWith file ''.md'') files)
          in if length languages = 0 then throw ''No language files found in Rules directory''
             else ret languages)))"

text \<open>
  The refactored script names help and version, gives them the short forms \<^verbatim>\<open>-h\<close> and
  \<^verbatim>\<open>-v\<close>, and asks for strict mode.
\<close>

definition parseArguments :: "string list \<Rightarrow> raw_args \<Rightarrow> args io" where
  "parseArguments availableLanguages a = yargs_parse True availableLanguages SUPPORTED_LLMS a"

definition validateProjectDirectory :: "path \<Rightarrow> unit io" where
  "validateProjectDirectory projectDir =
     andThen (existsSync projectDir) (\<lambda>ex.
       if ex then throw (''Directory '' @ path_str projectDir @ '' already exists'')
       else ret ())"

definition createProjectDirectory :: "path \<Rightarrow> unit io" where
  "createProjectDirectory projectDir =
     try_catch
       (andThen (mkdirSync_recursive projectDir) (\<lambda>_.
          console_log (''Created project directory: '' @ path_str projectDir)))
       (\<lambda>e. throw (''Failed to create project directory: '' @ e))"

definition copyCoreDiretories :: "path \<Rightarrow> path \<Rightarrow> unit io" where
  "copyCoreDiretories templateDir projectDir =
     forEach [''.context'', ''examples''] (\<lambda>dir.
       let srcPath = path_join templateDir [dir];
           destPath = path_join projectDir [dir]
       in andThen (existsSync srcPath) (\<lambda>ex.
            if ex then andThen (copySync srcPath destPath) (\<lambda>_.
                         console_log (''Copied '' @ dir @ '' directory''))
            else ret ()))"

definition copyRequiredFiles :: "path \<Rightarrow> path \<Rightarrow> unit io" where
  "copyRequiredFiles templateDir projectDir =
     forEach REQUIRED_FILES (\<lambda>file.
       let srcPath = path_join templateDir [file];
           destPath = path_join projectDir [file]
       in andThen (existsSync srcPath) (\<lambda>ex.
            if ex then andThen (copySync srcPath destPath) (\<lambda>_.
                         console_log (''Copied '' @ file))
            else ret ()))"

definition copyLLMFile :: "path \<Rightarrow> path \<Rightarrow> string \<Rightarrow> unit io" where
  "copyLLMFile templateDir projectDir m =
     (let llmFile = m @ ''.md'';
          srcPath = path_join templateDir [llmFile];
          destPath = path_join projectDir [llmFile]
      in andThen (existsSync srcPath) (\<lambda>ex.
           if ex then andThen (copySync srcPath destPath) (\<lambda>_.
                        console_log (''Copied '' @ llmFile))
           else ret ()))"

definition configurePRPTemplate :: "path \<Rightarrow> string \<Rightarrow> string \<Rightarrow> unit io" where
  "configurePRPTemplate projectDir language m =
     (let prpTemplatePath = path_join projectDir [''.context'', ''templates'', ''prp_template.md''];
          langTemplatePath = path_join projectDir
                               [''.context'', ''templates'', ''prp_template_'' @ language @ ''.md'']
      in andThen (existsSync langTemplatePath) (\<lambda>ex.
           if ex then
             andThen (readFileSync langTemplatePath) (\<lambda>prpContent.
             andThen (writeFileSync prpTemplatePath (replace_global PLACEHOLDER m prpContent)) (\<lambda>_.
               console_log (''Configured PRP template for '' @ language @ '' and '' @ m)))
           else ret ()))"

definition applyLanguageRules :: "path \<Rightarrow> path \<Rightarrow> string \<Rightarrow> string \<Rightarrow> unit io" where
  "applyLanguageRules templateDir projectDir language m =
     (let langRulesPath = path_join templateDir [''Rules'', language @ ''.md'']
      in andThen (existsSync langRulesPath) (\<lambda>ex.
           if \<not> ex then console_warn (''Warning: No language rules found for '' @ language)
           else
             andThen (readFileSync langRulesPath) (\<lambda>langRulesContent.
             let targetRulesPath = path_join projectDir [m @ ''.md''] in
             andThen (writeFileSync targetRulesPath langRulesContent) (\<lambda>_.
               console_log (''Applied '' @ language @ '' rules to '' @ m @ ''.md'')))))"

definition initializeProjectStructure :: "bool \<Rightarrow> path \<Rightarrow> string \<Rightarrow> unit io" where
  "initializeProjectStructure gitok projectDir projectName =
     (let srcDir = path_join projectDir [projectName] in
      andThen (mkdirSync_recursive srcDir) (\<lambda>_.
      andThen (console_log (''Created source directory: '' @ path_str srcDir)) (\<lambda>_.
        try_catch
          (andThen (git_init gitok srcDir) (\<lambda>_. console_log ''Initialized git repository''))
          (\<lambda>e. console_warn (''Warning: Failed to initialize git repository: '' @ e)))))"

definition cleanupTemplateFiles :: "path \<Rightarrow> unit io" where
  "cleanupTemplateFiles projectDir =
     (let templatesDir = path_join projectDir [''.context'', ''templates''] in
      andThen (existsSync templatesDir) (\<lambda>ex.
        if \<not> ex then ret ()
        else
          andThen (readdirSync templatesDir) (\<lambda>files.
          andThen (forEach files (\<lambda>file.
                     if file \<noteq> ''prp_template.md''
                     then removeSync (path_join templatesDir [file])
                     else ret ())) (\<lambda>_.
            console_log ''Cleaned up template files''))))"

definition cleanupTempDirectory :: "path \<Rightarrow> unit io" where
  "cleanupTempDirectory tmp =
     try_catch
       (andThen (removeSync tmp) (\<lambda>_. console_log ''Cleaned up temporary files''))
       (\<lambda>e. console_warn (''Warning: Failed to cleanup temporary directory: '' @ e))"

text \<open>
  The body of the \<^verbatim>\<open>try\<close> block of \<^verbatim>\<open>main\<close>, phase by phase as its comments divide it.
  Messages are given without their quotation marks and pictographs.
\<close>

definition create_and_configure :: "env \<Rightarrow> args \<Rightarrow> path \<Rightarrow> unit io" where
  "create_and_configure e a projectDir =
     andThen (console_log (''Creating project '' @ name a @ '' with '' @ lang a
                             @ '' language rules for '' @ llm a @ ''...'')) (\<lambda>_.
     andThen (createProjectDirectory projectDir) (\<lambda>_.
     andThen (copyCoreDiretories (tempDir e) projectDir) (\<lambda>_.
     andThen (copyRequiredFiles (tempDir e) projectDir) (\<lambda>_.
     andThen (copyLLMFile (tempDir e) projectDir (llm a)) (\<lambda>_.
     andThen (configurePRPTemplate projectDir (lang a) (llm a)) (\<lambda>_.
     andThen (applyLanguageRules (tempDir e) projectDir (lang a) (llm a)) (\<lambda>_.
       initializeProjectStructure (git_ok e) projectDir (name a))))))))"

definition report_success :: "args \<Rightarrow> path \<Rightarrow> unit io" where
  "report_success a projectDir =
     andThen (console_log (''Project '' @ name a @ '' created successfully!'')) (\<lambda>_.
     andThen (console_log (''Location: '' @ path_str projectDir)) (\<lambda>_.
     andThen (console_log (''Language: '' @ lang a)) (\<lambda>_.
       console_log (''LLM: '' @ llm a))))"

definition setup_phase :: "env \<Rightarrow> args io" where
  "setup_phase e =
     andThen (cloneRepository (remote e) (tempDir e)) (\<lambda>_.
     andThen (getAvailableLanguages (tempDir e)) (\<lambda>availableLanguages.
       parseArguments availableLanguages (argv e)))"

definition main_try :: "env \<Rightarrow> unit io" where
  "main_try e =
     andThen (setup_phase e) (\<lambda>a.
     let projectDir = path_resolve (cwd e) (name a) in
     andThen (validateProjectDirectory projectDir) (\<lambda>_.
     andThen (create_and_configure e a projectDir) (\<lambda>_.
     andThen (cleanupTemplateFiles projectDir) (\<lambda>_.
       report_success a projectDir))))"

definition main :: "env \<Rightarrow> unit io" where
  "main e =
     try_finally
       (try_catch (main_try e)
          (\<lambda>msg. andThen (console_error (''Error: '' @ msg)) (\<lambda>_. process_exit 1)))
       (cleanupTempDirectory (tempDir e))"

text \<open>
  The exit status of the process: 0 when the script runs to its end, the argument of
  \<^verbatim>\<open>process.exit\<close> when that is called, and 1 for an error nobody caught.
\<close>

definition run :: "unit io \<Rightarrow> world \<Rightarrow> nat \<times> world" where
  "run script w =
     (case script w of
        (Return u, w') \<Rightarrow> (0, w')
      | (Throw e, w') \<Rightarrow> (1, w'\<lparr>stderr := stderr w' @ [''Uncaught '' @ e]\<rparr>)
      | (Exit n, w') \<Rightarrow> (n, w'))"

section \<open>The original cloning script (\<^verbatim>\<open>create-context-engineering-app/index.js\<close>, first version)\<close>

text \<open>
  The first version is a plain top-level script: it has no \<^verbatim>\<open>try\<close> anywhere, so an error
  thrown by any call ends the process there.
\<close>

definition original_discover :: "env \<Rightarrow> string list io" where
  "original_discover e =
     andThen (git_clone (remote e) (tempDir e)) (\<lambda>_.
     andThen (readdirSync (path_join (tempDir e) [''Rules''])) (\<lambda>files.
       ret (map (\<lambda>file. replace_first ''.md'' [] file)
              (filter (\<lambda>file. endsWith file ''.md'') files))))"

definition original_copy :: "path \<Rightarrow> path \<Rightarrow> string \<Rightarrow> unit io" where
  "original_copy templateDir projectDir m =
     andThen (copySync (path_join templateDir [''.context'']) (path_join projectDir [''.context''])) (\<lambda>_.
     andThen (copySync (path_join templateDir [''examples'']) (path_join projectDir [''examples''])) (\<lambda>_.
     andThen (if m = ''CLAUDE''
              then copySync (path_join templateDir [''CLAUDE.md'']) (path_join projectDir [''CLAUDE.md''])
              else copySync (path_join templateDir [''GEMINI.md'']) (path_join projectDir [''GEMINI.md''])) (\<lambda>_.
     andThen (copySync (path_join templateDir [''INITIAL_EXAMPLE.md''])
                (path_join projectDir [''INITIAL_EXAMPLE.md''])) (\<lambda>_.
     andThen (copySync (path_join templateDir [''INITIAL.md'']) (path_join projectDir [''INITIAL.md''])) (\<lambda>_.
       copySync (path_join templateDir [''README.md'']) (path_join projectDir [''README.md'']))))))"

definition original_prp :: "path \<Rightarrow> string \<Rightarrow> string \<Rightarrow> unit io" where
  "original_prp projectDir language m =
     (let prpTemplatePath = path_join projectDir [''.context'', ''templates'', ''prp_template.md''];
          langTemplatePath = path_join projectDir
                               [''.context'', ''templates'', ''prp_template_'' @ language @ ''.md'']
      in andThen (existsSync langTemplatePath) (\<lambda>ex.
           if ex then
             andThen (readFileSync langTemplatePath) (\<lambda>prpContent.
               writeFileSync prpTemplatePath (replace_global PLACEHOLDER m prpContent))
           else ret ()))"

definition original_rules :: "path \<Rightarrow> path \<Rightarrow> string \<Rightarrow> string \<Rightarrow> unit io" where
  "original_rules templateDir projectDir language m =
     (let geminiRulesPath = path_join projectDir [''GEMINI.md''];
          claudeRulesPath = path_join projectDir [''CLAUDE.md''];
          langRulesPath = path_join templateDir [''Rules'', language @ ''.md'']
      in andThen (existsSync langRulesPath) (\<lambda>ex.
           if ex then
             andThen (readFileSync langRulesPath) (\<lambda>langRulesContent.
               if m = ''GEMINI''
               then writeFileSync langRulesPath (path_str geminiRulesPath)
               else writeFileSync langRulesPath (path_str claudeRulesPath))
           else ret ()))"

definition original_build :: "env \<Rightarrow> args \<Rightarrow> unit io" where
  "original_build e a =
     (let projectName = name a;
          projectDir = path_resolve (cwd e) projectName;
          templateDir = tempDir e
      in andThen (mkdirSync projectDir) (\<lambda>_.
         andThen (original_copy templateDir projectDir (llm a)) (\<lambda>_.
         andThen (original_prp projectDir (lang a) (llm a)) (\<lambda>_.
         andThen (original_rules templateDir projectDir (lang a) (llm a)) (\<lambda>_.
         andThen (mkdirSync (path_join projectDir [projectName])) (\<lambda>_.
         andThen (git_init (git_ok e) (path_join projectDir [projectName])) (\<lambda>_.
         andThen (removeSync (tempDir e)) (\<lambda>_.
           console_log (''Project '' @ projectName @ '' created successfully!'')))))))))"

definition original_setup :: "env \<Rightarrow> args io" where
  "original_setup e =
     andThen (original_discover e) (\<lambda>availableLangs.
       yargs_parse False availableLangs [''GEMINI'', ''CLAUDE''] (argv e))"

definition original_script :: "env \<Rightarrow> unit io" where
  "original_script e = andThen (original_setup e) (\<lambda>a. original_build e a)"

section \<open>The local-template script (the unnamed source file)\<close>

text \<open>
  This version copies from the directory above the script (\<open>templateDir\<close>) instead of
  a clone.
\<close>

definition local_copy :: "path \<Rightarrow> path \<Rightarrow> unit io" where
  "local_copy templateDir projectDir =
     forEach [''.gemini'', ''examples'', ''Rules'', ''src'', ''tests'', ''.gitattributes'', ''.gitignore'',
              ''CLAUDE.md'', ''GEMINI.md'', ''INITIAL_EXAMPLE.md'', ''INITIAL.md'', ''README.md'']
       (\<lambda>item. copySync (path_join templateDir [item]) (path_join projectDir [item]))"

definition local_prp :: "path \<Rightarrow> string \<Rightarrow> string \<Rightarrow> unit io" where
  "local_prp projectDir language m =
     (let prpTemplatePath = path_join projectDir [''.gemini'', ''templates'', ''prp_template.md''];
          langTemplatePath = path_join projectDir
                               [''.gemini'', ''templates'', ''prp_template_'' @ language @ ''.md'']
      in andThen (existsSync langTemplatePath) (\<lambda>ex.
           if ex then
             andThen (readFileSync langTemplatePath) (\<lambda>prpContent.
               writeFileSync prpTemplatePath (replace_global PLACEHOLDER m prpContent))
           else ret ()))"

definition local_rules :: "path \<Rightarrow> string \<Rightarrow> unit io" where
  "local_rules projectDir language =
     (let geminiRulesPath = path_join projectDir [''GEMINI.md''];
          claudeRulesPath = path_join projectDir [''CLAUDE.md''];
          langRulesPath = path_join projectDir [''Rules'', language @ ''.md'']
      in andThen (existsSync langRulesPath) (\<lambda>ex.
           if ex then
             andThen (readFileSync langRulesPath) (\<lambda>langRulesContent.
             andThen (writeFileSync geminiRulesPath langRulesContent) (\<lambda>_.
               writeFileSync claudeRulesPath langRulesContent))
           else ret ()))"

definition local_build :: "path \<Rightarrow> env \<Rightarrow> args \<Rightarrow> unit io" where
  "local_build templateDir e a =
     (let projectName = name a;
          projectDir = path_resolve (cwd e) projectName
      in andThen (mkdirSync projectDir) (\<lambda>_.
         andThen (local_copy templateDir projectDir) (\<lambda>_.
         andThen (local_prp projectDir (lang a) (llm a)) (\<lambda>_.
         andThen (local_rules projectDir (lang a)) (\<lambda>_.
         andThen (renameSync (path_join projectDir [''src'']) (path_join projectDir [projectName])) (\<lambda>_.
         andThen (git_init (git_ok e) projectDir) (\<lambda>_.
           console_log (''Project '' @ projectName @ '' created successfully!''))))))))"

definition local_arguments :: "path \<Rightarrow> env \<Rightarrow> args io" where
  "local_arguments templateDir e =
     andThen (readdirSync (path_join templateDir [''Rules''])) (\<lambda>files.
     let availableLangs = map (\<lambda>file. replace_first ''.md'' [] file)
                            (filter (\<lambda>file. endsWith file ''.md'') files)
     in yargs_parse False availableLangs [''GEMINI'', ''CLAUDE''] (argv e))"

definition local_script :: "path \<Rightarrow> env \<Rightarrow> unit io" where
  "local_script templateDir e = andThen (local_arguments templateDir e) (\<lambda>a. local_build templateDir e a)"

section \<open>Vocabulary of the properties\<close>

text \<open>
  \<open>same_outside P fs fs'\<close>: the two file systems agree at every path that \<open>P\<close> does not
  hold of. \<open>grows_only fs fs'\<close>: whatever exists in \<open>fs\<close> is the same in \<open>fs'\<close>.
  \<open>near d q\<close>: \<open>q\<close> is \<open>d\<close>, lies below \<open>d\<close> or is a directory above \<open>d\<close>.
  \<open>adds_only A xs ys\<close>: the list \<open>ys\<close> holds what \<open>xs\<close> holds and, beyond that, only
  elements of \<open>A\<close>.
  \<open>names_ok\<close>: every component of every path is a file name (not empty, not a dot
  name, without a slash). \<open>parents_ok\<close>: whatever exists lies in a directory that exists.
\<close>

definition same_outside :: "(path \<Rightarrow> bool) \<Rightarrow> fs \<Rightarrow> fs \<Rightarrow> bool" where
  "same_outside P fs fs' \<longleftrightarrow> (\<forall>q. \<not> P q \<longrightarrow> stat fs' q = stat fs q)"

definition grows_only :: "fs \<Rightarrow> fs \<Rightarrow> bool" where
  "grows_only fs fs' \<longleftrightarrow> (\<forall>q. stat fs q \<noteq> None \<longrightarrow> stat fs' q = stat fs q)"

definition near :: "path \<Rightarrow> path \<Rightarrow> bool" where
  "near d q \<longleftrightarrow> prefix d q \<or> prefix q d"

definition adds_only :: "'a set \<Rightarrow> 'a list \<Rightarrow> 'a list \<Rightarrow> bool" where
  "adds_only A xs ys \<longleftrightarrow> set xs \<subseteq> set ys \<and> set ys \<subseteq> set xs \<union> A"

definition path_ok :: "path \<Rightarrow> bool" where
  "path_ok p = list_all simple_name p"

definition names_ok :: "fs \<Rightarrow> bool" where
  "names_ok fs = list_all (\<lambda>(p, n). path_ok p) fs"

definition parents_ok :: "fs \<Rightarrow> bool" where
  "parents_ok fs = list_all (\<lambda>(p, n). p \<noteq> [] \<and> stat fs (butlast p) = Some Dir) fs"

text \<open>
  \<open>dirs_to fs p\<close>: \<open>p\<close> and every directory above it exist as directories.
  \<open>staged fs1 tmp proj X S fs\<close>: \<open>fs\<close> is \<open>fs1\<close> with the destination \<open>proj\<close> created
  and, of the entries of the clone's root, those named in \<open>S\<close> copied into it; nothing is
  said about the destination's entries named in \<open>X\<close>.
\<close>

definition dirs_to :: "fs \<Rightarrow> path \<Rightarrow> bool" where
  "dirs_to fs p \<longleftrightarrow> (\<forall>r. prefix r p \<longrightarrow> stat fs r = Some Dir)"

definition staged :: "fs \<Rightarrow> path \<Rightarrow> path \<Rightarrow> string set \<Rightarrow> string set \<Rightarrow> fs \<Rightarrow> bool" where
  "staged fs1 tmp proj X S fs \<longleftrightarrow>
     dirs_to fs proj
     \<and> (\<forall>q. \<not> prefix proj q \<longrightarrow> stat fs q = stat fs1 q)
     \<and> (\<forall>c rel. c \<notin> X \<longrightarrow> stat fs (proj @ c # rel) = (if c \<in> S then stat fs1 (tmp @ c # rel) else None))"

text \<open>
  \<open>destination_footprint proj m n\<close>: the paths a cloning script may write for LLM \<open>m\<close> and
  project name \<open>n\<close> in the destination \<open>proj\<close>: the destination itself and
  directories above it, the root entries it copies with what is below them, and the inner
  directory with what is below it.
\<close>

definition destination_footprint :: "path \<Rightarrow> string \<Rightarrow> string \<Rightarrow> path \<Rightarrow> bool" where
  "destination_footprint proj m n q \<longleftrightarrow>
     prefix q proj
     \<or> list_ex (\<lambda>c. near (path_join proj [c]) q) ([''.context'', ''examples''] @ REQUIRED_FILES @ [m @ ''.md''])
     \<or> near (path_join proj [n]) q"

text \<open>
  \<open>asks_usage r\<close>: the command line asks for the help text or for the version.
\<close>

definition asks_usage :: "raw_args \<Rightarrow> bool" where
  "asks_usage r \<longleftrightarrow> raw_help r \<or> raw_version r"

definition init_world :: "fs \<Rightarrow> world" where
  "init_world fs = \<lparr>fsys = fs, stdout = [], stderr = [], cmds = []\<rparr>"

text \<open>
  \<open>rejected script tmp fs\<close>: run from \<open>fs\<close>, the script exits with status 1, leaves
  whatever existed as it was, and creates nothing except at, below or above \<open>tmp\<close>.
  \<open>only_prp_template fs td\<close>: if \<open>td\<close> is a directory it has no entry but
  \<^verbatim>\<open>prp_template.md\<close>.
  \<open>cloned e fs\<close>: the file system after the clone (\<open>None\<close>: the clone fails).
  \<open>discovered e fs\<close>: the languages the refactored script finds after cloning (\<open>None\<close>:
  the clone or the listing fails).
\<close>

definition rejected :: "unit io \<Rightarrow> path \<Rightarrow> fs \<Rightarrow> bool" where
  "rejected script tmp fs \<longleftrightarrow>
     fst (run script (init_world fs)) = 1
     \<and> grows_only fs (fsys (snd (run script (init_world fs))))
     \<and> same_outside (near tmp) fs (fsys (snd (run script (init_world fs))))"

definition only_prp_template :: "fs \<Rightarrow> path \<Rightarrow> bool" where
  "only_prp_template fs td \<longleftrightarrow>
     (stat fs td = Some Dir \<longrightarrow> set (children fs td) \<subseteq> {''prp_template.md''})"

definition cloned :: "env \<Rightarrow> fs \<Rightarrow> fs option" where
  "cloned e fs =
     (case git_clone (remote e) (tempDir e) (init_world fs) of
        (Return u, w) \<Rightarrow> Some (fsys w)
      | (Throw x, w) \<Rightarrow> None
      | (Exit n, w) \<Rightarrow> None)"

definition discovered :: "env \<Rightarrow> fs \<Rightarrow> string list option" where
  "discovered e fs =
     (case andThen (cloneRepository (remote e) (tempDir e)) (\<lambda>_. getAvailableLanguages (tempDir e))
             (init_world fs) of
        (Return langs, w) \<Rightarrow> Some langs
      | (Throw x, w) \<Rightarrow> None
      | (Exit n, w) \<Rightarrow> None)"

text \<open>
  \<open>keeps proj R m\<close>: every run of \<open>m\<close>, however it ends, relates the projections of the
  world before and after by \<open>R\<close>. \<open>yields Q m\<close>: every value \<open>m\<close> returns satisfies \<open>Q\<close>.
  \<open>ensures Q m\<close>: the world in which \<open>m\<close> returns satisfies \<open>Q\<close>.
  \<open>exits P m\<close>: every status with which \<open>m\<close> ends the process satisfies \<open>P\<close>.
\<close>

definition keeps :: "(world \<Rightarrow> 'x) \<Rightarrow> ('x \<Rightarrow> 'x \<Rightarrow> bool) \<Rightarrow> 'a io \<Rightarrow> bool" where
  "keeps proj R m \<longleftrightarrow> (\<forall>w r w'. m w = (r, w') \<longrightarrow> R (proj w) (proj w'))"

definition yields :: "('a \<Rightarrow> bool) \<Rightarrow> 'a io \<Rightarrow> bool" where
  "yields Q m \<longleftrightarrow> (\<forall>w a w'. m w = (Return a, w') \<longrightarrow> Q a)"

definition ensures :: "(world \<Rightarrow> bool) \<Rightarrow> 'a io \<Rightarrow> bool" where
  "ensures Q m \<longleftrightarrow> (\<forall>w a w'. m w = (Return a, w') \<longrightarrow> Q w')"

definition exits :: "(nat \<Rightarrow> bool) \<Rightarrow> 'a io \<Rightarrow> bool" where
  "exits P m \<longleftrightarrow> (\<forall>w n w'. m w = (Exit n, w') \<longrightarrow> P n)"

definition inv_rel :: "('x \<Rightarrow> bool) \<Rightarrow> 'x \<Rightarrow> 'x \<Rightarrow> bool" where
  "inv_rel I x y \<longleftrightarrow> (I x \<longrightarrow> I y)"

section \<open>A sample run\<close>

text \<open>
  A small template repository, a machine with a temporary directory and a working
  directory, and a command line; used to run the scripts on concrete inputs.
\<close>

definition demo_remote :: fs where
  "demo_remote =
     [([''Rules''], Dir),
      ([''Rules'', ''py.md''], File ''python rules''),
      ([''.context''], Dir),
      ([''.context'', ''templates''], Dir),
      ([''.context'', ''templates'', ''prp_template_py.md''], File ''ask {{LLM_AGENT}}, then {{LLM_AGENT}}.''),
      ([''.context'', ''templates'', ''prp_template_js.md''], File ''js {{LLM_AGENT}}''),
      ([''examples''], Dir),
      ([''CLAUDE.md''], File ''claude branding''),
      ([''GEMINI.md''], File ''gemini branding''),
      ([''INITIAL_EXAMPLE.md''], File ''example''),
      ([''INITIAL.md''], File ''initial''),
      ([''README.md''], File ''readme'')]"

definition demo_fs :: fs where
  "demo_fs = [([''tmp''], Dir), ([''home''], Dir)]"

definition demo_env :: env where
  "demo_env =
     \<lparr>cwd = [''home''], tempDir = [''tmp'', ''cef-1a2b3c''], remote = Some demo_remote, git_ok = True,
      argv = \<lparr>raw_name = Some ''app'', raw_lang = Some ''py'', raw_llm = Some ''claude'',
               raw_help = False, raw_version = False, raw_unknown = False\<rparr>\<rparr>"

text \<open>The same machine with the destination \<^verbatim>\<open>/home/app\<close> already there.\<close>

definition demo_fs_taken :: fs where
  "demo_fs_taken = ([''home'', ''app''], Dir) # demo_fs"

text \<open>
  A world as the original script has it when it reaches its rules step: the clone in
  place and the branding file copied.
\<close>

definition demo_staged :: world where
  "demo_staged =
     init_world
       [([''home'', ''app'', ''CLAUDE.md''], File ''claude branding''),
        ([''home'', ''app'', ''.context'', ''templates'', ''prp_template_py.md''],
           File ''ask {{LLM_AGENT}}, then {{LLM_AGENT}}.''),
        ([''home'', ''app'', ''.context'', ''templates''], Dir),
        ([''home'', ''app'', ''.context''], Dir),
        ([''home'', ''app''], Dir),
        ([''tmp'', ''cef-1a2b3c'', ''Rules'', ''py.md''], File ''python rules''),
        ([''tmp'', ''cef-1a2b3c'', ''Rules''], Dir),
        ([''tmp'', ''cef-1a2b3c''], Dir),
        ([''tmp''], Dir), ([''home''], Dir)]"

text \<open>Command lines that ask for a language the template does not have, and for an unknown LLM.\<close>

definition demo_env_rust :: env where
  "demo_env_rust = demo_env\<lparr>argv := (argv demo_env)\<lparr>raw_lang := Some ''rust'', raw_llm := Some ''gpt''\<rparr>\<rparr>"

text \<open>A command line that names the LLM \<^verbatim>\<open>gem\<close>, dotless i (U+0131), \<^verbatim>\<open>ni\<close>.\<close>

definition demo_env_dotless :: env where
  "demo_env_dotless = demo_env\<lparr>argv := (argv demo_env)\<lparr>raw_llm := Some (''gem'' @ [CHR 0xC4, CHR 0xB1] @ ''ni'')\<rparr>\<rparr>"

text \<open>A template whose Rules directory holds no \<^verbatim>\<open>.md\<close> file.\<close>

definition demo_env_no_rules :: env where
  "demo_env_no_rules =
     demo_env\<lparr>remote := Some [([''Rules''], Dir), ([''Rules'', ''notes.txt''], File ''to do''),
                             ([''README.md''], File ''readme'')]\<rparr>"

text \<open>The same template, and a command line that asks for help besides.\<close>

definition demo_env_no_rules_help :: env where
  "demo_env_no_rules_help = demo_env_no_rules\<lparr>argv := (argv demo_env_no_rules)\<lparr>raw_help := True\<rparr>\<rparr>"

text \<open>A machine on which \<^verbatim>\<open>git init\<close> fails.\<close>

definition demo_env_git_down :: env where
  "demo_env_git_down = demo_env\<lparr>git_ok := False\<rparr>"

text \<open>A machine with the template installed under \<^verbatim>\<open>/opt/cef\<close>, for the local-template script.\<close>

definition demo_local_fs :: fs where
  "demo_local_fs =
     [([''opt''], Dir), ([''opt'', ''cef''], Dir),
      ([''opt'', ''cef'', ''.gemini''], Dir),
      ([''opt'', ''cef'', ''.gemini'', ''templates''], Dir),
      ([''opt'', ''cef'', ''.gemini'', ''templates'', ''prp_template_py.md''], File ''ask {{LLM_AGENT}}''),
      ([''opt'', ''cef'', ''examples''], Dir),
      ([''opt'', ''cef'', ''Rules''], Dir),
      ([''opt'', ''cef'', ''Rules'', ''py.md''], File ''python rules''),
      ([''opt'', ''cef'', ''src''], Dir),
      ([''opt'', ''cef'', ''tests''], Dir),
      ([''opt'', ''cef'', ''.gitattributes''], File ''auto''),
      ([''opt'', ''cef'', ''.gitignore''], File ''node_modules''),
      ([''opt'', ''cef'', ''CLAUDE.md''], File ''claude branding''),
      ([''opt'', ''cef'', ''GEMINI.md''], File ''gemini branding''),
      ([''opt'', ''cef'', ''INITIAL_EXAMPLE.md''], File ''example''),
      ([''opt'', ''cef'', ''INITIAL.md''], File ''initial''),
      ([''opt'', ''cef'', ''README.md''], File ''readme''),
      ([''home''], Dir)]"

text \<open>
  A template with rules for Go but no PRP template variant for it, and a command line
  that asks for Go.
\<close>

definition demo_env_go :: env where
  "demo_env_go =
     demo_env\<lparr>remote := Some (([''Rules'', ''go.md''], File ''go rules'')
                            # ([''.context'', ''templates'', ''prp_template.md''], File ''generic template'')
                            # demo_remote),
              argv := (argv demo_env)\<lparr>raw_lang := Some ''go'', raw_llm := Some ''gemini''\<rparr>\<rparr>"

text \<open>
  A template whose only rules file is \<^verbatim>\<open>Rules/x.mdy.md\<close> and which has no branding file. The
  language listed for that file is \<^verbatim>\<open>xy.md\<close>, its name with the first \<^verbatim>\<open>.md\<close> removed.
\<close>

definition demo_env_bare :: env where
  "demo_env_bare =
     demo_env\<lparr>remote := Some [([''Rules''], Dir), ([''Rules'', ''x.mdy.md''], File ''rules''),
                             ([''README.md''], File ''readme'')],
              argv := (argv demo_env)\<lparr>raw_lang := Some ''xy.md''\<rparr>\<rparr>"

text \<open>A command line whose project name is the path \<^verbatim>\<open>.context/templates/zz\<close>.\<close>

definition demo_env_nested :: env where
  "demo_env_nested = demo_env\<lparr>argv := (argv demo_env)\<lparr>raw_name := Some ''.context/templates/zz''\<rparr>\<rparr>"

section \<open>Facts about the string helpers\<close>

lemma split_on_match: "pat \<noteq> [] \<Longrightarrow> split_on pat (pat @ r) = [] # split_on pat r"
  by (cases pat) auto

lemma split_on_nonempty: "split_on pat s \<noteq> []"
  by (induction pat s rule: split_on.induct) (auto split: list.splits)

lemma join_Cons_nonempty: "gs \<noteq> [] \<Longrightarrow> join sep (g # gs) = g @ sep @ join sep gs"
  by (cases gs) auto

lemma join_split_on: "join pat (split_on pat s) = s"
proof (induction pat s rule: split_on.induct)
  case (1 pat)
  show ?case by simp
next
  case (2 pat c cs)
  show ?case
  proof (cases "pat \<noteq> [] \<and> prefix pat (c # cs)")
    case True
    then obtain r where r: "c # cs = pat @ r" by (auto simp: prefix_def)
    from True 2 have "join pat (split_on pat (drop (length pat) (c # cs))) = drop (length pat) (c # cs)"
      by simp
    with True r show ?thesis
      by (simp add: join_Cons_nonempty split_on_nonempty split_on_match)
  next
    case False
    with 2 have IH: "join pat (split_on pat cs) = cs" by simp
    obtain g gs where g: "split_on pat cs = g # gs"
      using split_on_nonempty [of pat cs] by (cases "split_on pat cs") auto
    with IH False show ?thesis by (cases gs) auto
  qed
qed

lemma replace_global_join: "replace_global pat rep s = join rep (split_on pat s)"
proof (induction pat s rule: split_on.induct)
  case (1 pat)
  show ?case by simp
next
  case (2 pat c cs)
  show ?case
  proof (cases "pat \<noteq> [] \<and> prefix pat (c # cs)")
    case True
    with 2 show ?thesis
      by (simp add: join_Cons_nonempty split_on_nonempty)
  next
    case False
    with 2 have IH: "replace_global pat rep cs = join rep (split_on pat cs)" by simp
    obtain g gs where g: "split_on pat cs = g # gs"
      using split_on_nonempty [of pat cs] by (cases "split_on pat cs") auto
    with IH False show ?thesis by (cases gs) auto
  qed
qed

text \<open>The placeholder does not overlap itself: after a match the next one starts behind it.\<close>

lemma count_occ_placeholder_skip:
  "count_occ PLACEHOLDER (PLACEHOLDER @ r) = Suc (count_occ PLACEHOLDER r)"
  by (cases r) (simp_all add: PLACEHOLDER_def)

lemma length_split_on_placeholder:
  "length (split_on PLACEHOLDER s) = Suc (count_occ PLACEHOLDER s)"
proof (induction "PLACEHOLDER" s rule: split_on.induct)
  case 1
  show ?case by simp
next
  case (2 c cs)
  show ?case
  proof (cases "prefix PLACEHOLDER (c # cs)")
    case True
    then obtain r where r: "c # cs = PLACEHOLDER @ r" by (auto simp: prefix_def)
    have ne: "PLACEHOLDER \<noteq> []" by (simp add: PLACEHOLDER_def)
    from True ne 2 r have "length (split_on PLACEHOLDER r) = Suc (count_occ PLACEHOLDER r)"
      by simp
    moreover have "split_on PLACEHOLDER (c # cs) = [] # split_on PLACEHOLDER r"
      using ne r by (simp add: split_on_match)
    ultimately show ?thesis
      using count_occ_placeholder_skip [of r] r by simp
  next
    case False
    with 2 have IH: "length (split_on PLACEHOLDER cs) = Suc (count_occ PLACEHOLDER cs)" by simp
    with False show ?thesis by (auto split: list.splits)
  qed
qed

lemma count_occ_skip_other:
  "CHR ''{'' \<notin> set u \<Longrightarrow> count_occ PLACEHOLDER (u @ x) = count_occ PLACEHOLDER x"
  by (induction u) (auto simp: PLACEHOLDER_def)

text \<open>No tail of the placeholder starts an LLM name, so a replacement never completes a match.\<close>

lemma suffix_placeholder_not_llm:
  assumes "suffix u PLACEHOLDER" "u \<noteq> []" "m \<in> set SUPPORTED_LLMS"
  shows "\<not> prefix u (m @ x)"
proof -
  from assms(1) have "u \<in> set (suffixes PLACEHOLDER)" by simp
  with assms(2,3) show ?thesis
    by (auto simp: PLACEHOLDER_def SUPPORTED_LLMS_def)
qed

lemma prefix_replace_global:
  assumes "m \<in> set SUPPORTED_LLMS"
  shows "suffix u PLACEHOLDER \<Longrightarrow> prefix u (replace_global PLACEHOLDER m s) \<Longrightarrow> prefix u s"
proof (induction u arbitrary: s)
  case Nil
  show ?case by simp
next
  case (Cons a u)
  have su: "suffix u PLACEHOLDER" using Cons.prems(1) by (rule suffix_ConsD)
  show ?case
  proof (cases s)
    case Nil
    with Cons.prems show ?thesis by simp
  next
    case (Cons c cs)
    show ?thesis
    proof (cases "prefix PLACEHOLDER (c # cs)")
      case True
      have ne: "PLACEHOLDER \<noteq> []" by (simp add: PLACEHOLDER_def)
      from True ne Cons \<open>prefix (a # u) (replace_global PLACEHOLDER m s)\<close>
      have "prefix (a # u) (m @ replace_global PLACEHOLDER m (drop (length PLACEHOLDER) (c # cs)))"
        by simp
      with suffix_placeholder_not_llm [OF Cons.prems(1) _ assms] show ?thesis by blast
    next
      case False
      with Cons \<open>prefix (a # u) (replace_global PLACEHOLDER m s)\<close>
      have "a = c" "prefix u (replace_global PLACEHOLDER m cs)" by auto
      with Cons.IH [OF su] Cons show ?thesis by simp
    qed
  qed
qed

lemma count_occ_replace_global:
  "m \<in> set SUPPORTED_LLMS \<Longrightarrow> count_occ PLACEHOLDER (replace_global PLACEHOLDER m s) = 0"
proof (induction "PLACEHOLDER" m s rule: replace_global.induct)
  case (1 rep)
  show ?case by simp
next
  case (2 rep c cs)
  have ne: "PLACEHOLDER \<noteq> []" by (simp add: PLACEHOLDER_def)
  have nb: "CHR ''{'' \<notin> set rep"
    using "2.prems" by (auto simp: SUPPORTED_LLMS_def)
  show ?case
  proof (cases "prefix PLACEHOLDER (c # cs)")
    case True
    with 2 ne nb show ?thesis by (simp add: count_occ_skip_other)
  next
    case False
    have "\<not> prefix PLACEHOLDER (replace_global PLACEHOLDER rep (c # cs))"
      using prefix_replace_global [OF "2.prems", of PLACEHOLDER "c # cs"] False by auto
    with False 2 show ?thesis by simp
  qed
qed

section \<open>Facts about the file system and about runs\<close>

subsection \<open>Looking up paths\<close>

lemma stat_root [simp]: "stat fs [] = Some Dir"
  by (simp add: stat_def)

lemma stat_Cons:
  "stat ((p, n) # fs) q = (if q = [] then Some Dir else if q = p then Some n else stat fs q)"
  by (simp add: stat_def)

lemma map_of_filter_key:
  "map_of (filter (\<lambda>(q, n). P q) fs) k = (if P k then map_of fs k else None)"
  by (induction fs) auto

lemma stat_remove_tree:
  "stat (remove_tree fs p) q = (if q = [] then Some Dir else if prefix p q then None else stat fs q)"
  by (simp add: stat_def remove_tree_def map_of_filter_key)

lemma stat_append:
  "stat (es @ fs) q = (if q = [] then Some Dir else case map_of es q of Some n \<Rightarrow> Some n | None \<Rightarrow> stat fs q)"
  by (simp add: stat_def map_add_def split: option.splits)

lemma map_of_copy_entries_outside:
  "\<not> prefix dst q \<Longrightarrow> map_of (copy_entries fs src dst) q = None"
  by (auto simp: copy_entries_def map_of_eq_None_iff)

lemma map_of_clone_outside:
  "\<not> prefix dir q \<Longrightarrow> map_of (map (\<lambda>(q, n). (dir @ q, n)) tree) q = None"
  by (auto simp: map_of_eq_None_iff)

lemma mkdirs_effect:
  "mkdirs base cs fs = Inr fs' \<Longrightarrow>
     stat fs' q = stat fs q \<or> (stat fs q = None \<and> stat fs' q = Some Dir \<and> prefix q (base @ cs) \<and> strict_prefix base q)"
proof (induction cs arbitrary: base fs)
  case Nil
  then show ?case by simp
next
  case (Cons c cs)
  show ?case
  proof (cases "stat fs (base @ [c])")
    case None
    with Cons.prems have m: "mkdirs (base @ [c]) cs ((base @ [c], Dir) # fs) = Inr fs'" by simp
    from Cons.IH [OF m] show ?thesis
      using None by (auto simp: stat_Cons strict_prefix_def split: if_splits dest: append_prefixD)
  next
    case (Some n)
    show ?thesis
    proof (cases n)
      case (File x)
      with Some Cons.prems show ?thesis by simp
    next
      case Dir
      with Some Cons.prems have m: "mkdirs (base @ [c]) cs fs = Inr fs'" by simp
      from Cons.IH [OF m] show ?thesis
        by (auto simp: strict_prefix_def dest: append_prefixD)
    qed
  qed
qed

lemma mkdirs_is_dir:
  "mkdirs base cs fs = Inr fs' \<Longrightarrow> stat fs base = Some Dir \<Longrightarrow> stat fs' (base @ cs) = Some Dir"
proof (induction cs arbitrary: base fs)
  case Nil
  then show ?case by simp
next
  case (Cons c cs)
  show ?case
  proof (cases "stat fs (base @ [c])")
    case None
    with Cons.prems have m: "mkdirs (base @ [c]) cs ((base @ [c], Dir) # fs) = Inr fs'" by simp
    from Cons.IH [OF m] show ?thesis by (simp add: stat_Cons)
  next
    case (Some n)
    show ?thesis
    proof (cases n)
      case (File x)
      with Some Cons.prems show ?thesis by simp
    next
      case Dir
      with Some Cons.prems have m: "mkdirs (base @ [c]) cs fs = Inr fs'" by simp
      from Cons.IH [OF m] Some Dir show ?thesis by simp
    qed
  qed
qed

lemma mkdirs_same_outside:
  "mkdirs [] p fs = Inr fs' \<Longrightarrow> \<not> prefix q p \<Longrightarrow> stat fs' q = stat fs q"
  using mkdirs_effect [of "[]" p fs fs' q] by auto

lemma mkdirs_grows: "mkdirs [] p fs = Inr fs' \<Longrightarrow> stat fs q \<noteq> None \<Longrightarrow> stat fs' q = stat fs q"
  using mkdirs_effect [of "[]" p fs fs' q] by auto

subsection \<open>Relations that every run keeps\<close>

lemma keepsI: "(\<And>w r w'. m w = (r, w') \<Longrightarrow> R (proj w) (proj w')) \<Longrightarrow> keeps proj R m"
  by (simp add: keeps_def)

lemma keepsD: "keeps proj R m \<Longrightarrow> m w = (r, w') \<Longrightarrow> R (proj w) (proj w')"
  by (simp add: keeps_def)

lemma keeps_ret: "reflp R \<Longrightarrow> keeps proj R (ret a)"
  by (auto simp: keeps_def ret_def reflp_def)

lemma keeps_throw: "reflp R \<Longrightarrow> keeps proj R (throw e)"
  by (auto simp: keeps_def throw_def reflp_def)

lemma keeps_process_exit: "reflp R \<Longrightarrow> keeps proj R (process_exit n)"
  by (auto simp: keeps_def process_exit_def reflp_def)

lemma keeps_andThen_post:
  assumes "transp R" "keeps proj R m" "yields Q m" "\<And>a. Q a \<Longrightarrow> keeps proj R (f a)"
  shows "keeps proj R (andThen m f)"
proof (rule keepsI)
  fix w r w'
  assume run: "andThen m f w = (r, w')"
  obtain r1 w1 where m: "m w = (r1, w1)" by (cases "m w")
  from keepsD [OF assms(2) m] have R1: "R (proj w) (proj w1)" .
  show "R (proj w) (proj w')"
  proof (cases r1)
    case (Return a)
    with m assms(3) have "Q a" by (auto simp: yields_def)
    from Return m run have "f a w1 = (r, w')" by (simp add: andThen_def)
    from keepsD [OF assms(4) [OF \<open>Q a\<close>] this] R1 assms(1) show ?thesis
      by (auto dest: transpD)
  next
    case (Throw e)
    with m run R1 show ?thesis by (simp add: andThen_def)
  next
    case (Exit n)
    with m run R1 show ?thesis by (simp add: andThen_def)
  qed
qed

lemma yields_True: "yields (\<lambda>a. True) m"
  by (simp add: yields_def)

lemma keeps_andThen:
  assumes "transp R" "keeps proj R m" "\<And>a. keeps proj R (f a)"
  shows "keeps proj R (andThen m f)"
  using keeps_andThen_post [OF assms(1,2) yields_True] assms(3) by blast

lemma keeps_try_catch:
  assumes "transp R" "keeps proj R m" "\<And>e. keeps proj R (h e)"
  shows "keeps proj R (try_catch m h)"
proof (rule keepsI)
  fix w r w'
  assume run: "try_catch m h w = (r, w')"
  obtain r1 w1 where m: "m w = (r1, w1)" by (cases "m w")
  from keepsD [OF assms(2) m] have R1: "R (proj w) (proj w1)" .
  show "R (proj w) (proj w')"
  proof (cases r1)
    case (Return a)
    with m run R1 show ?thesis by (simp add: try_catch_def)
  next
    case (Throw e)
    with m run have "h e w1 = (r, w')" by (simp add: try_catch_def)
    from keepsD [OF assms(3) this] R1 assms(1) show ?thesis
      by (auto dest: transpD)
  next
    case (Exit n)
    with m run R1 show ?thesis by (simp add: try_catch_def)
  qed
qed

lemma keeps_try_finally:
  assumes "transp R" "keeps proj R m" "keeps proj R fin"
  shows "keeps proj R (try_finally m fin)"
proof (rule keepsI)
  fix w r w'
  assume run: "try_finally m fin w = (r, w')"
  obtain r1 w1 where m: "m w = (r1, w1)" by (cases "m w")
  from keepsD [OF assms(2) m] have R1: "R (proj w) (proj w1)" .
  obtain r2 w2 where f: "fin w1 = (r2, w2)" by (cases "fin w1")
  from keepsD [OF assms(3) f] have R2: "R (proj w1) (proj w2)" .
  from R1 R2 assms(1) have R12: "R (proj w) (proj w2)" by (auto dest: transpD)
  show "R (proj w) (proj w')"
  proof (cases r1)
    case (Return a)
    with m f run R12 show ?thesis
      by (cases r2) (auto simp: try_finally_def andThen_def ret_def)
  next
    case (Throw e)
    with m f run R12 show ?thesis
      by (cases r2) (auto simp: try_finally_def andThen_def throw_def)
  next
    case (Exit n)
    with m run R1 show ?thesis by (simp add: try_finally_def)
  qed
qed

lemma keeps_forEach:
  assumes "reflp R" "transp R" "\<And>x. x \<in> set xs \<Longrightarrow> keeps proj R (f x)"
  shows "keeps proj R (forEach xs f)"
  using assms(3)
proof (induction xs)
  case Nil
  show ?case by (simp add: keeps_ret assms(1))
next
  case (Cons x xs)
  show ?case
    by (simp, rule keeps_andThen [OF assms(2)]) (use Cons in auto)
qed

lemma keeps_if:
  "(b \<Longrightarrow> keeps proj R m) \<Longrightarrow> (\<not> b \<Longrightarrow> keeps proj R m') \<Longrightarrow> keeps proj R (if b then m else m')"
  by simp

lemma keeps_eq_weaken: "reflp R \<Longrightarrow> keeps proj (=) m \<Longrightarrow> keeps proj R m"
  by (auto simp: keeps_def reflp_def)

lemma transp_eq: "transp ((=) :: 'a \<Rightarrow> 'a \<Rightarrow> bool)" and reflp_eq: "reflp ((=) :: 'a \<Rightarrow> 'a \<Rightarrow> bool)"
  by (auto simp: transp_def reflp_def)

lemma reflp_same_outside: "reflp (same_outside F)" and transp_same_outside: "transp (same_outside F)"
  by (auto simp: reflp_def transp_def same_outside_def)

lemma reflp_grows_only: "reflp grows_only" and transp_grows_only: "transp grows_only"
  by (auto simp: reflp_def transp_def grows_only_def)

lemma reflp_inv_rel: "reflp (inv_rel I)" and transp_inv_rel: "transp (inv_rel I)"
  by (auto simp: reflp_def transp_def inv_rel_def)

subsection \<open>What the primitive calls keep\<close>

lemma quiet_console:
  "keeps fsys (=) (console_log s)" "keeps fsys (=) (console_warn s)" "keeps fsys (=) (console_error s)"
  "keeps cmds (=) (console_log s)" "keeps cmds (=) (console_warn s)" "keeps cmds (=) (console_error s)"
  by (auto simp: keeps_def console_log_def console_warn_def console_error_def)

lemma quiet_reads:
  "keeps proj (=) (existsSync p)" "keeps proj (=) (readFileSync p)" "keeps proj (=) (readdirSync p)"
  by (auto simp: keeps_def existsSync_def readFileSync_def readdirSync_def split: option.splits node.splits)

lemma quiet_cmds_fs:
  "keeps cmds (=) (mkdirSync p)" "keeps cmds (=) (mkdirSync_recursive p)" "keeps cmds (=) (writeFileSync p c)"
  "keeps cmds (=) (removeSync p)"
  by (auto simp: keeps_def mkdirSync_def mkdirSync_recursive_def writeFileSync_def removeSync_def
        split: option.splits sum.splits if_splits)

lemma quiet_yargs_parse: "keeps fsys (=) (yargs_parse st ls ms a)" "keeps cmds (=) (yargs_parse st ls ms a)"
  by (auto simp: keeps_def yargs_parse_def Let_def ret_def andThen_def console_error_def console_log_def
        process_exit_def
        split: option.splits if_splits)

lemma frame_writeFileSync: "F p \<Longrightarrow> keeps fsys (same_outside F) (writeFileSync p c)"
  by (auto simp: keeps_def writeFileSync_def same_outside_def stat_Cons split: if_splits)

lemma frame_mkdirSync: "F p \<Longrightarrow> keeps fsys (same_outside F) (mkdirSync p)"
  by (auto simp: keeps_def mkdirSync_def same_outside_def stat_Cons split: if_splits)

lemma frame_mkdirSync_recursive:
  "(\<And>q. prefix q p \<Longrightarrow> F q) \<Longrightarrow> keeps fsys (same_outside F) (mkdirSync_recursive p)"
  by (auto simp: keeps_def mkdirSync_recursive_def same_outside_def split: sum.splits
        dest: mkdirs_same_outside)

lemma frame_removeSync:
  "(\<And>q. prefix p q \<Longrightarrow> F q) \<Longrightarrow> keeps fsys (same_outside F) (removeSync p)"
  by (auto simp: keeps_def removeSync_def same_outside_def stat_remove_tree)

lemma copySync_cases:
  assumes "copySync src dst w = (r, w')"
  shows "(w' = w \<and> (\<exists>e. r = Throw e))
       \<or> (\<exists>n fs'. r = Return () \<and> stat (fsys w) src = Some n \<and> src \<noteq> dst
             \<and> \<not> (n = Dir \<and> prefix src dst)
             \<and> \<not> copy_conflict (fsys w) ((dst, n) # copy_entries (fsys w) src dst)
             \<and> mkdirs [] (butlast dst) (fsys w) = Inr fs'
             \<and> w' = w\<lparr>fsys := (dst, n) # copy_entries (fsys w) src dst @ fs'\<rparr>)"
proof (cases "stat (fsys w) src")
  case None
  with assms show ?thesis by (auto simp: copySync_def)
next
  case (Some n)
  show ?thesis
  proof (cases "src = dst")
    case True
    with Some assms show ?thesis by (auto simp: copySync_def)
  next
    case ne: False
    show ?thesis
    proof (cases "n = Dir \<and> prefix src dst")
      case True
      with ne Some assms show ?thesis by (auto simp: copySync_def)
    next
      case nsub: False
      show ?thesis
      proof (cases "copy_conflict (fsys w) ((dst, n) # copy_entries (fsys w) src dst)")
        case True
        have "copySync src dst w = (Throw ''Cannot overwrite directory with non-directory'', w)"
          unfolding copySync_def Some option.case if_not_P [OF ne] if_not_P [OF nsub] if_P [OF True]
          by simp
        with assms show ?thesis by auto
      next
        case ncf: False
        show ?thesis
        proof (cases "mkdirs [] (butlast dst) (fsys w)")
          case (Inl e)
          have "copySync src dst w = (Throw e, w)"
            unfolding copySync_def Some option.case if_not_P [OF ne] if_not_P [OF nsub] if_not_P [OF ncf] Inl
            by simp
          with assms show ?thesis by auto
        next
          case (Inr fs')
          have "copySync src dst w = (Return (), w\<lparr>fsys := (dst, n) # copy_entries (fsys w) src dst @ fs'\<rparr>)"
            unfolding copySync_def Some option.case if_not_P [OF ne] if_not_P [OF nsub] if_not_P [OF ncf] Inr
            by simp
          with assms Some ne nsub ncf Inr show ?thesis by auto
        qed
      qed
    qed
  qed
qed

lemma git_clone_cases:
  assumes "git_clone rem dir w = (r, w')"
  shows "(w' = w \<and> (\<exists>e. r = Throw e))
       \<or> (\<exists>tree fs'. r = Return () \<and> rem = Some tree
             \<and> (\<forall>c. stat (fsys w) dir \<noteq> Some (File c))
             \<and> \<not> list_ex (\<lambda>(q, n). prefix dir q \<and> q \<noteq> dir) (fsys w)
             \<and> mkdirs [] dir (fsys w) = Inr fs'
             \<and> w' = w\<lparr>fsys := map (\<lambda>(q, n). (dir @ q, n)) (filter (\<lambda>(q, n). q \<noteq> []) tree)
                                 @ (dir @ [''.git''], Dir) # fs',
                        cmds := cmds w @ [(''git clone'', dir)]\<rparr>)"
proof (cases rem)
  case None
  with assms show ?thesis by (auto simp: git_clone_def)
next
  case (Some tree)
  show ?thesis
  proof (cases "(case stat (fsys w) dir of Some (File c) \<Rightarrow> True | _ \<Rightarrow> False)
                 \<or> list_ex (\<lambda>(q, n). prefix dir q \<and> q \<noteq> dir) (fsys w)")
    case True
    with Some assms show ?thesis by (auto simp: git_clone_def)
  next
    case False
    then have nf: "\<forall>c. stat (fsys w) dir \<noteq> Some (File c)"
      by (auto split: option.splits node.splits)
    show ?thesis
    proof (cases "mkdirs [] dir (fsys w)")
      case (Inl e)
      with False Some assms show ?thesis by (auto simp: git_clone_def)
    next
      case (Inr fs')
      with False Some assms nf show ?thesis by (simp add: git_clone_def)
    qed
  qed
qed

lemma frame_copySync:
  assumes "\<And>q. prefix dst q \<or> prefix q dst \<Longrightarrow> F q"
  shows "keeps fsys (same_outside F) (copySync src dst)"
proof (rule keepsI)
  fix w r w'
  assume run: "copySync src dst w = (r, w')"
  from copySync_cases [OF run] show "same_outside F (fsys w) (fsys w')"
  proof
    assume "w' = w \<and> (\<exists>e. r = Throw e)"
    then show ?thesis by (simp add: same_outside_def)
  next
    assume "\<exists>n fs'. r = Return () \<and> stat (fsys w) src = Some n \<and> src \<noteq> dst
             \<and> \<not> (n = Dir \<and> prefix src dst)
             \<and> \<not> copy_conflict (fsys w) ((dst, n) # copy_entries (fsys w) src dst)
             \<and> mkdirs [] (butlast dst) (fsys w) = Inr fs'
             \<and> w' = w\<lparr>fsys := (dst, n) # copy_entries (fsys w) src dst @ fs'\<rparr>"
    then obtain n fs' where mk: "mkdirs [] (butlast dst) (fsys w) = Inr fs'"
      and w': "fsys w' = (dst, n) # copy_entries (fsys w) src dst @ fs'"
      by auto
    show ?thesis
      unfolding same_outside_def
    proof (intro allI impI)
      fix q
      assume nF: "\<not> F q"
      with assms have a: "\<not> prefix dst q" and b: "\<not> prefix q dst" by auto
      from b have "\<not> prefix q (butlast dst)"
        by (metis prefix_order.trans prefixeq_butlast)
      with mk have "stat fs' q = stat (fsys w) q" by (rule mkdirs_same_outside)
      with a w' show "stat (fsys w') q = stat (fsys w) q"
        by (auto simp: stat_Cons stat_append map_of_copy_entries_outside)
    qed
  qed
qed

lemma frame_git_clone:
  assumes "\<And>q. prefix dir q \<or> prefix q dir \<Longrightarrow> F q"
  shows "keeps fsys (same_outside F) (git_clone rem dir)"
proof (rule keepsI)
  fix w r w'
  assume run: "git_clone rem dir w = (r, w')"
  from git_clone_cases [OF run] show "same_outside F (fsys w) (fsys w')"
  proof
    assume "w' = w \<and> (\<exists>e. r = Throw e)"
    then show ?thesis by (simp add: same_outside_def)
  next
    assume "\<exists>tree fs'. r = Return () \<and> rem = Some tree
             \<and> (\<forall>c. stat (fsys w) dir \<noteq> Some (File c))
             \<and> \<not> list_ex (\<lambda>(q, n). prefix dir q \<and> q \<noteq> dir) (fsys w)
             \<and> mkdirs [] dir (fsys w) = Inr fs'
             \<and> w' = w\<lparr>fsys := map (\<lambda>(q, n). (dir @ q, n)) (filter (\<lambda>(q, n). q \<noteq> []) tree)
                                 @ (dir @ [''.git''], Dir) # fs',
                        cmds := cmds w @ [(''git clone'', dir)]\<rparr>"
    then obtain tree fs' where mk: "mkdirs [] dir (fsys w) = Inr fs'"
      and w': "fsys w' = map (\<lambda>(q, n). (dir @ q, n)) (filter (\<lambda>(q, n). q \<noteq> []) tree)
                    @ (dir @ [''.git''], Dir) # fs'"
      by auto
    show ?thesis
      unfolding same_outside_def
    proof (intro allI impI)
      fix q
      assume nF: "\<not> F q"
      with assms have a: "\<not> prefix dir q" and b: "\<not> prefix q dir" by auto
      from mk b have "stat fs' q = stat (fsys w) q" by (rule mkdirs_same_outside)
      with a w' show "stat (fsys w') q = stat (fsys w) q"
        by (auto simp: stat_Cons stat_append map_of_clone_outside dest: append_prefixD)
    qed
  qed
qed

lemma frame_git_init: "F (dir @ [''.git'']) \<Longrightarrow> keeps fsys (same_outside F) (git_init ok dir)"
  by (auto simp: keeps_def git_init_def same_outside_def stat_Cons split: if_splits)

subsection \<open>Values returned and exit statuses\<close>

lemma yieldsD: "yields Q m \<Longrightarrow> m w = (Return a, w') \<Longrightarrow> Q a"
  by (auto simp: yields_def)

lemma yields_andThen: "(\<And>a. yields Q (f a)) \<Longrightarrow> yields Q (andThen m f)"
  by (auto simp: yields_def andThen_def split: prod.splits outcome.splits)

lemma yields_yargs_parse:
  "yields (\<lambda>a. raw_name r = Some (name a) \<and> raw_lang r = Some (lang a) \<and> lang a \<in> set ls
             \<and> (\<exists>m. raw_llm r = Some m \<and> llm a = toUpperCase m) \<and> llm a \<in> set ms
             \<and> \<not> asks_usage r \<and> \<not> (st \<and> raw_unknown r))
     (yargs_parse st ls ms r)"
  by (auto simp: yields_def yargs_parse_def asks_usage_def Let_def ret_def andThen_def console_error_def
        console_log_def process_exit_def split: option.splits if_splits)

lemma exitsD: "exits P m \<Longrightarrow> m w = (Exit n, w') \<Longrightarrow> P n"
  by (auto simp: exits_def)

lemma exits_andThen: "exits P m \<Longrightarrow> (\<And>a. exits P (f a)) \<Longrightarrow> exits P (andThen m f)"
  by (auto simp: exits_def andThen_def split: prod.splits outcome.splits)

lemma exits_try_catch: "exits P m \<Longrightarrow> (\<And>e. exits P (h e)) \<Longrightarrow> exits P (try_catch m h)"
  by (auto simp: exits_def try_catch_def split: prod.splits outcome.splits)

lemma exits_if: "(b \<Longrightarrow> exits P m) \<Longrightarrow> (\<not> b \<Longrightarrow> exits P m') \<Longrightarrow> exits P (if b then m else m')"
  by simp

lemma exits_never:
  "exits P (ret a)" "exits P (throw e)" "exits P (console_log s)" "exits P (console_warn s)"
  "exits P (console_error s)" "exits P (existsSync p)" "exits P (readFileSync p)" "exits P (readdirSync p)"
  "exits P (mkdirSync p)" "exits P (mkdirSync_recursive p)" "exits P (writeFileSync p c)"
  "exits P (removeSync p)" "exits P (git_init ok p)"
  by (auto simp: exits_def ret_def throw_def console_log_def console_warn_def console_error_def
        existsSync_def readFileSync_def readdirSync_def mkdirSync_def mkdirSync_recursive_def
        writeFileSync_def removeSync_def git_init_def
        split: option.splits node.splits sum.splits if_splits)

lemma exits_copySync: "exits P (copySync src dst)"
  using copySync_cases by (fastforce simp: exits_def)

lemma exits_git_clone: "exits P (git_clone rem dir)"
  using git_clone_cases by (fastforce simp: exits_def)

lemma exits_process_exit: "P n \<Longrightarrow> exits P (process_exit n)"
  by (simp add: exits_def process_exit_def)

lemma exits_yargs_parse: "\<not> asks_usage r \<Longrightarrow> exits (\<lambda>n. n = 1) (yargs_parse st ls ms r)"
  by (auto simp: exits_def yargs_parse_def asks_usage_def Let_def ret_def andThen_def console_error_def
        process_exit_def split: option.splits if_splits)

lemma yargs_parse_usage:
  assumes "asks_usage r"
  shows "\<exists>w'. yargs_parse st ls ms r w = (Exit 0, w') \<and> fsys w' = fsys w \<and> cmds w' = cmds w
           \<and> stderr w' = stderr w"
  using assms
  by (auto simp: yargs_parse_def asks_usage_def andThen_def console_log_def process_exit_def)

subsection \<open>The setup phase\<close>

lemma map_of_clone_entries:
  "map_of (map (\<lambda>(q, n). (dir @ q, n)) (filter (\<lambda>(q, n). q \<noteq> []) tree)) k \<noteq> None
     \<Longrightarrow> prefix dir k \<and> k \<noteq> dir"
  by (auto simp: map_of_eq_None_iff)

lemma list_ex_under:
  "\<not> list_ex (\<lambda>(q, n). prefix dir q \<and> q \<noteq> dir) fs \<Longrightarrow> prefix dir k \<Longrightarrow> k \<noteq> dir \<Longrightarrow> map_of fs k = None"
  by (auto simp: list_ex_iff map_of_eq_None_iff)

lemma grows_git_clone: "keeps fsys grows_only (git_clone rem dir)"
proof (rule keepsI)
  fix w r w'
  assume run: "git_clone rem dir w = (r, w')"
  from git_clone_cases [OF run] show "grows_only (fsys w) (fsys w')"
  proof
    assume "w' = w \<and> (\<exists>e. r = Throw e)"
    then show ?thesis by (simp add: grows_only_def)
  next
    assume "\<exists>tree fs'. r = Return () \<and> rem = Some tree
             \<and> (\<forall>c. stat (fsys w) dir \<noteq> Some (File c))
             \<and> \<not> list_ex (\<lambda>(q, n). prefix dir q \<and> q \<noteq> dir) (fsys w)
             \<and> mkdirs [] dir (fsys w) = Inr fs'
             \<and> w' = w\<lparr>fsys := map (\<lambda>(q, n). (dir @ q, n)) (filter (\<lambda>(q, n). q \<noteq> []) tree)
                                 @ (dir @ [''.git''], Dir) # fs',
                        cmds := cmds w @ [(''git clone'', dir)]\<rparr>"
    then obtain tree fs' where mk: "mkdirs [] dir (fsys w) = Inr fs'"
      and fresh: "\<not> list_ex (\<lambda>(q, n). prefix dir q \<and> q \<noteq> dir) (fsys w)"
      and w': "fsys w' = map (\<lambda>(q, n). (dir @ q, n)) (filter (\<lambda>(q, n). q \<noteq> []) tree)
                    @ (dir @ [''.git''], Dir) # fs'"
      by auto
    show ?thesis
      unfolding grows_only_def
    proof (intro allI impI)
      fix q
      assume ex: "stat (fsys w) q \<noteq> None"
      show "stat (fsys w') q = stat (fsys w) q"
      proof (cases "q = []")
        case True
        then show ?thesis by simp
      next
        case False
        with ex have "map_of (fsys w) q \<noteq> None" by (simp add: stat_def)
        with list_ex_under [OF fresh, of q] have nu: "\<not> (prefix dir q \<and> q \<noteq> dir)"
          by auto
        then have a: "map_of (map (\<lambda>(q, n). (dir @ q, n)) (filter (\<lambda>(q, n). q \<noteq> []) tree)) q = None"
          using map_of_clone_entries by blast
        from nu have b: "q \<noteq> dir @ [''.git'']" by auto
        from mk ex have "stat fs' q = stat (fsys w) q" by (rule mkdirs_grows)
        with a b False w' show ?thesis
          by (simp add: stat_append stat_Cons)
      qed
    qed
  qed
qed

lemmas grows_quiet =
  keeps_eq_weaken [OF reflp_grows_only quiet_console(1)]
  keeps_eq_weaken [OF reflp_grows_only quiet_console(2)]
  keeps_eq_weaken [OF reflp_grows_only quiet_console(3)]
  keeps_eq_weaken [OF reflp_grows_only quiet_reads(1)]
  keeps_eq_weaken [OF reflp_grows_only quiet_reads(2)]
  keeps_eq_weaken [OF reflp_grows_only quiet_reads(3)]
  keeps_eq_weaken [OF reflp_grows_only quiet_yargs_parse(1)]
  keeps_ret [OF reflp_grows_only] keeps_throw [OF reflp_grows_only]

lemma setup_phase_grows: "keeps fsys grows_only (setup_phase e)"
  unfolding setup_phase_def cloneRepository_def getAvailableLanguages_def parseArguments_def Let_def
  by (intro keeps_andThen keeps_try_catch keeps_if transp_grows_only grows_quiet grows_git_clone)

lemma original_setup_grows: "keeps fsys grows_only (original_setup e)"
  unfolding original_setup_def original_discover_def Let_def
  by (intro keeps_andThen keeps_try_catch keeps_if transp_grows_only grows_quiet grows_git_clone)

lemmas frame_quiet =
  keeps_eq_weaken [OF reflp_same_outside quiet_console(1)]
  keeps_eq_weaken [OF reflp_same_outside quiet_console(2)]
  keeps_eq_weaken [OF reflp_same_outside quiet_console(3)]
  keeps_eq_weaken [OF reflp_same_outside quiet_reads(1)]
  keeps_eq_weaken [OF reflp_same_outside quiet_reads(2)]
  keeps_eq_weaken [OF reflp_same_outside quiet_reads(3)]
  keeps_eq_weaken [OF reflp_same_outside quiet_yargs_parse(1)]
  keeps_ret [OF reflp_same_outside] keeps_throw [OF reflp_same_outside]
  keeps_process_exit [OF reflp_same_outside]

lemma setup_phase_frame: "keeps fsys (same_outside (near (tempDir e))) (setup_phase e)"
  unfolding setup_phase_def cloneRepository_def getAvailableLanguages_def parseArguments_def Let_def
  by (intro keeps_andThen keeps_try_catch keeps_if transp_same_outside frame_quiet frame_git_clone)
     (simp add: near_def)

lemma original_setup_frame: "keeps fsys (same_outside (near (tempDir e))) (original_setup e)"
  unfolding original_setup_def original_discover_def Let_def
  by (intro keeps_andThen keeps_try_catch keeps_if transp_same_outside frame_quiet frame_git_clone)
     (simp add: near_def)

lemma setup_phase_yields:
  "yields (\<lambda>a. raw_name (argv e) = Some (name a) \<and> raw_lang (argv e) = Some (lang a)
             \<and> (\<exists>m. raw_llm (argv e) = Some m \<and> llm a = toUpperCase m) \<and> llm a \<in> set SUPPORTED_LLMS
             \<and> \<not> asks_usage (argv e))
     (setup_phase e)"
  unfolding setup_phase_def parseArguments_def
  by (intro yields_andThen) (use yields_yargs_parse in \<open>fastforce simp: yields_def\<close>)

lemma original_setup_yields:
  "yields (\<lambda>a. raw_name (argv e) = Some (name a) \<and> raw_lang (argv e) = Some (lang a)
             \<and> (\<exists>m. raw_llm (argv e) = Some m \<and> llm a = toUpperCase m) \<and> llm a \<in> set SUPPORTED_LLMS
             \<and> \<not> asks_usage (argv e))
     (original_setup e)"
  unfolding original_setup_def
  by (intro yields_andThen) (use yields_yargs_parse in \<open>fastforce simp: yields_def SUPPORTED_LLMS_def\<close>)

lemma setup_phase_exits: "\<not> asks_usage (argv e) \<Longrightarrow> exits (\<lambda>n. n = 1) (setup_phase e)"
  unfolding setup_phase_def cloneRepository_def getAvailableLanguages_def parseArguments_def Let_def
  by (intro exits_andThen exits_try_catch exits_if exits_never exits_git_clone exits_yargs_parse)

lemma original_setup_exits: "\<not> asks_usage (argv e) \<Longrightarrow> exits (\<lambda>n. n = 1) (original_setup e)"
  unfolding original_setup_def original_discover_def Let_def
  by (intro exits_andThen exits_try_catch exits_if exits_never exits_git_clone exits_yargs_parse)

subsection \<open>Runs that stop early\<close>

lemma andThen_Return:
  "andThen m f w = (Return b, w') \<Longrightarrow> \<exists>a w1. m w = (Return a, w1) \<and> f a w1 = (Return b, w')"
  by (auto simp: andThen_def split: prod.splits outcome.splits)

lemma andThen_stops:
  "m w = (Throw x, w1) \<Longrightarrow> andThen m f w = (Throw x, w1)"
  "m w = (Exit n, w1) \<Longrightarrow> andThen m f w = (Exit n, w1)"
  by (simp_all add: andThen_def)

lemma andThen_goes: "m w = (Return a, w1) \<Longrightarrow> andThen m f w = f a w1"
  by (simp add: andThen_def)

lemma validate_throws:
  "stat (fsys w) p \<noteq> None \<Longrightarrow> \<exists>msg. validateProjectDirectory p w = (Throw msg, w)"
  by (simp add: validateProjectDirectory_def andThen_def existsSync_def throw_def)

lemma main_of_thrown:
  assumes "main_try e w = (Throw x, w1)"
  shows "run (main e) w = (1, w1\<lparr>stderr := stderr w1 @ [''Error: '' @ x]\<rparr>)"
  using assms
  by (simp add: run_def main_def try_finally_def try_catch_def andThen_def console_error_def process_exit_def)

lemma main_of_exited:
  assumes "main_try e w = (Exit n, w1)"
  shows "run (main e) w = (n, w1)"
  using assms
  by (simp add: run_def main_def try_finally_def try_catch_def)

lemma rejected_main_when:
  assumes "\<And>a w1. setup_phase e (init_world fs) = (Return a, w1)
             \<Longrightarrow> stat (fsys w1) (path_resolve (cwd e) (name a)) \<noteq> None"
    and u: "\<And>n w1. setup_phase e (init_world fs) = (Exit n, w1) \<Longrightarrow> n = 1"
  shows "rejected (main e) (tempDir e) fs"
proof -
  obtain r w1 where s: "setup_phase e (init_world fs) = (r, w1)"
    by (cases "setup_phase e (init_world fs)")
  from keepsD [OF setup_phase_grows s] have g: "grows_only fs (fsys w1)"
    by (simp add: init_world_def)
  from keepsD [OF setup_phase_frame s] have f: "same_outside (near (tempDir e)) fs (fsys w1)"
    by (simp add: init_world_def)
  have "\<exists>w'. run (main e) (init_world fs) = (1, w') \<and> fsys w' = fsys w1"
  proof (cases r)
    case (Return a)
    with s assms(1) have "stat (fsys w1) (path_resolve (cwd e) (name a)) \<noteq> None" by blast
    from validate_throws [OF this] obtain msg
      where "validateProjectDirectory (path_resolve (cwd e) (name a)) w1 = (Throw msg, w1)" ..
    with s Return have "main_try e (init_world fs) = (Throw msg, w1)"
      by (simp add: main_try_def andThen_goes Let_def andThen_stops)
    from main_of_thrown [OF this] show ?thesis by simp
  next
    case (Throw x)
    with s have "main_try e (init_world fs) = (Throw x, w1)"
      by (simp add: main_try_def andThen_stops)
    from main_of_thrown [OF this] show ?thesis by simp
  next
    case (Exit n)
    with s u have n: "n = 1" by blast
    from Exit s have "main_try e (init_world fs) = (Exit n, w1)"
      by (simp add: main_try_def andThen_stops)
    from main_of_exited [OF this] n show ?thesis by simp
  qed
  with g f show ?thesis by (auto simp: rejected_def)
qed

lemma rejected_main:
  assumes "\<And>a w1. setup_phase e (init_world fs) = (Return a, w1)
             \<Longrightarrow> stat (fsys w1) (path_resolve (cwd e) (name a)) \<noteq> None"
    and u: "\<not> asks_usage (argv e)"
  shows "rejected (main e) (tempDir e) fs"
  using assms(1) exitsD [OF setup_phase_exits [OF u]] by (rule rejected_main_when)

lemma mkdirSync_throws:
  "stat (fsys w) p \<noteq> None \<Longrightarrow> mkdirSync p w = (Throw ''EEXIST: file already exists'', w)"
  by (simp add: mkdirSync_def)

lemma rejected_original_when:
  assumes "\<And>a w1. original_setup e (init_world fs) = (Return a, w1)
             \<Longrightarrow> stat (fsys w1) (path_resolve (cwd e) (name a)) \<noteq> None"
    and u: "\<And>n w1. original_setup e (init_world fs) = (Exit n, w1) \<Longrightarrow> n = 1"
  shows "rejected (original_script e) (tempDir e) fs"
proof -
  obtain r w1 where s: "original_setup e (init_world fs) = (r, w1)"
    by (cases "original_setup e (init_world fs)")
  from keepsD [OF original_setup_grows s] have g: "grows_only fs (fsys w1)"
    by (simp add: init_world_def)
  from keepsD [OF original_setup_frame s] have f: "same_outside (near (tempDir e)) fs (fsys w1)"
    by (simp add: init_world_def)
  have "\<exists>w'. run (original_script e) (init_world fs) = (1, w') \<and> fsys w' = fsys w1"
  proof (cases r)
    case (Return a)
    with s assms(1) have "stat (fsys w1) (path_resolve (cwd e) (name a)) \<noteq> None" by blast
    from mkdirSync_throws [OF this] s Return
    have "original_script e (init_world fs) = (Throw ''EEXIST: file already exists'', w1)"
      by (simp add: original_script_def original_build_def andThen_goes Let_def andThen_stops)
    then show ?thesis by (simp add: run_def)
  next
    case (Throw x)
    with s have "original_script e (init_world fs) = (Throw x, w1)"
      by (simp add: original_script_def andThen_stops)
    then show ?thesis by (simp add: run_def)
  next
    case (Exit n)
    with s u have n: "n = 1" by blast
    from Exit s have "original_script e (init_world fs) = (Exit n, w1)"
      by (simp add: original_script_def andThen_stops)
    with n show ?thesis by (simp add: run_def)
  qed
  with g f show ?thesis by (auto simp: rejected_def)
qed

lemma rejected_original:
  assumes "\<And>a w1. original_setup e (init_world fs) = (Return a, w1)
             \<Longrightarrow> stat (fsys w1) (path_resolve (cwd e) (name a)) \<noteq> None"
    and u: "\<not> asks_usage (argv e)"
  shows "rejected (original_script e) (tempDir e) fs"
  using assms(1) exitsD [OF original_setup_exits [OF u]] by (rule rejected_original_when)

lemma setup_phase_returns:
  assumes "setup_phase e w = (Return a, w1)"
  shows "grows_only (fsys w) (fsys w1)" and "raw_name (argv e) = Some (name a)"
    and "raw_lang (argv e) = Some (lang a)"
    and "\<exists>m. raw_llm (argv e) = Some m \<and> llm a = toUpperCase m" and "llm a \<in> set SUPPORTED_LLMS"
    and "\<not> asks_usage (argv e)"
  using keepsD [OF setup_phase_grows assms] yieldsD [OF setup_phase_yields assms] by auto

lemma original_setup_returns:
  assumes "original_setup e w = (Return a, w1)"
  shows "grows_only (fsys w) (fsys w1)" and "raw_name (argv e) = Some (name a)"
    and "raw_lang (argv e) = Some (lang a)"
    and "\<exists>m. raw_llm (argv e) = Some m \<and> llm a = toUpperCase m" and "llm a \<in> set SUPPORTED_LLMS"
    and "\<not> asks_usage (argv e)"
  using keepsD [OF original_setup_grows assms] yieldsD [OF original_setup_yields assms] by auto

lemma discovered_of_setup:
  assumes "setup_phase e (init_world fs) = (Return a, w1)"
  shows "\<exists>langs. discovered e fs = Some langs \<and> lang a \<in> set langs"
proof -
  from assms obtain u wa where c: "cloneRepository (remote e) (tempDir e) (init_world fs) = (Return u, wa)"
    and r: "andThen (getAvailableLanguages (tempDir e)) (\<lambda>ls. parseArguments ls (argv e)) wa = (Return a, w1)"
    unfolding setup_phase_def by (blast dest: andThen_Return)
  from r obtain langs wb where g: "getAvailableLanguages (tempDir e) wa = (Return langs, wb)"
    and p: "parseArguments langs (argv e) wb = (Return a, w1)"
    by (blast dest: andThen_Return)
  from c g have "discovered e fs = Some langs"
    by (simp add: discovered_def andThen_goes)
  moreover from yieldsD [OF yields_yargs_parse] p have "lang a \<in> set langs"
    unfolding parseArguments_def by blast
  ultimately show ?thesis by blast
qed

lemma discovered_of_original_setup:
  assumes "original_setup e (init_world fs) = (Return a, w1)"
  shows "\<exists>langs w. original_discover e (init_world fs) = (Return langs, w) \<and> lang a \<in> set langs"
proof -
  from assms obtain langs wa where d: "original_discover e (init_world fs) = (Return langs, wa)"
    and p: "yargs_parse False langs [''GEMINI'', ''CLAUDE''] (argv e) wa = (Return a, w1)"
    unfolding original_setup_def by (blast dest: andThen_Return)
  from yieldsD [OF yields_yargs_parse] p have "lang a \<in> set langs" by blast
  with d show ?thesis by blast
qed

subsection \<open>An empty Rules directory\<close>

lemma git_clone_stdout:
  "git_clone rem d (w\<lparr>stdout := s\<rparr>) = (case git_clone rem d w of (r, w') \<Rightarrow> (r, w'\<lparr>stdout := s\<rparr>))"
  by (simp add: git_clone_def split: option.splits sum.splits)

lemma cloneRepository_of_cloned:
  assumes "cloned e fs = Some fs1"
  shows "\<exists>w1. cloneRepository (remote e) (tempDir e) (init_world fs) = (Return (), w1) \<and> fsys w1 = fs1
           \<and> stderr w1 = []"
    and "\<exists>w1. git_clone (remote e) (tempDir e) (init_world fs) = (Return (), w1) \<and> fsys w1 = fs1
           \<and> stderr w1 = []"
proof -
  obtain r w1 where g: "git_clone (remote e) (tempDir e) (init_world fs) = (r, w1)"
    by (cases "git_clone (remote e) (tempDir e) (init_world fs)")
  with assms have r: "r = Return ()" and f: "fsys w1 = fs1"
    by (auto simp: cloned_def split: outcome.splits)
  from git_clone_cases [OF g] r have e: "stderr w1 = []"
    by (auto simp: init_world_def)
  from g r f e show "\<exists>w1. git_clone (remote e) (tempDir e) (init_world fs) = (Return (), w1) \<and> fsys w1 = fs1
           \<and> stderr w1 = []" by simp
  from g r f e show "\<exists>w1. cloneRepository (remote e) (tempDir e) (init_world fs) = (Return (), w1) \<and> fsys w1 = fs1
           \<and> stderr w1 = []"
    by (simp add: cloneRepository_def try_catch_def andThen_def console_log_def git_clone_stdout)
qed

lemma yargs_parse_no_choice:
  "\<not> asks_usage r \<Longrightarrow>
     \<exists>w' msg. yargs_parse st [] ms r w = (Exit 1, w') \<and> fsys w' = fsys w \<and> stdout w' = stdout w
        \<and> stderr w' = stderr w @ [msg]
        \<and> msg \<in> {''Missing required argument'', ''Unknown argument'', ''Invalid values''}"
  by (auto simp: yargs_parse_def asks_usage_def Let_def andThen_def console_error_def process_exit_def
        split: option.splits)

subsection \<open>File names\<close>

lemma split_slash_nonempty: "split_slash s \<noteq> []"
  by (induction s) (auto split: list.splits)

lemma split_slash_noslash: "g \<in> set (split_slash s) \<Longrightarrow> CHR ''/'' \<notin> set g"
proof (induction s arbitrary: g)
  case Nil
  then show ?case by simp
next
  case (Cons c s)
  show ?case
  proof (cases "c = CHR ''/''")
    case True
    with Cons show ?thesis by auto
  next
    case False
    obtain h hs where h: "split_slash s = h # hs"
      using split_slash_nonempty [of s] by (cases "split_slash s") auto
    with False Cons.prems have "g = c # h \<or> g \<in> set hs" by simp
    with False h Cons.IH [of h] Cons.IH [of g] show ?thesis by auto
  qed
qed

lemma path_ok_Nil [simp]: "path_ok []"
  by (simp add: path_ok_def)

lemma path_ok_Cons [simp]: "path_ok (c # p) \<longleftrightarrow> simple_name c \<and> path_ok p"
  by (simp add: path_ok_def)

lemma path_ok_butlast: "path_ok p \<Longrightarrow> path_ok (butlast p)"
  by (auto simp: path_ok_def list_all_iff dest: in_set_butlastD)

lemma path_ok_append [simp]: "path_ok (p @ q) \<longleftrightarrow> path_ok p \<and> path_ok q"
  by (induction p) auto

lemma path_ok_drop: "path_ok p \<Longrightarrow> path_ok (drop k p)"
  by (auto simp: path_ok_def list_all_iff dest: in_set_dropD)

lemma path_ok_prefix: "path_ok p \<Longrightarrow> prefix q p \<Longrightarrow> path_ok q"
  by (auto simp: prefix_def)

lemma normalize_onto_ok:
  "path_ok base \<Longrightarrow> (\<And>g. g \<in> set segs \<Longrightarrow> CHR ''/'' \<notin> set g) \<Longrightarrow> path_ok (normalize_onto base segs)"
proof (induction segs arbitrary: base)
  case Nil
  then show ?case by simp
next
  case (Cons c segs)
  have rest: "\<And>g. g \<in> set segs \<Longrightarrow> CHR ''/'' \<notin> set g"
    using Cons.prems(2) by simp
  show ?case
  proof (cases "c = [] \<or> c = ''.''")
    case True
    with Cons.IH [OF Cons.prems(1) rest] show ?thesis by auto
  next
    case False
    show ?thesis
    proof (cases "c = ''..''")
      case True
      with False Cons.IH [OF path_ok_butlast [OF Cons.prems(1)] rest] show ?thesis by simp
    next
      case nd: False
      from False nd Cons.prems(2) [of c] have "simple_name c"
        by (simp add: simple_name_def)
      with Cons.prems(1) have "path_ok (base @ [c])" by simp
      from Cons.IH [OF this rest] False nd show ?thesis by simp
    qed
  qed
qed

lemma path_join_ok: "path_ok base \<Longrightarrow> path_ok (path_join base segs)"
  unfolding path_join_def
  by (rule normalize_onto_ok) (auto dest: split_slash_noslash)

lemma path_resolve_ok: "path_ok c \<Longrightarrow> path_ok (path_resolve c s)"
  unfolding path_resolve_def
  by (auto intro!: normalize_onto_ok dest: split_slash_noslash)

lemma split_slash_simple: "CHR ''/'' \<notin> set s \<Longrightarrow> split_slash s = [s]"
  by (induction s) auto

lemma path_join_simple: "simple_name s \<Longrightarrow> path_join base [s] = base @ [s]"
  by (simp add: path_join_def simple_name_def split_slash_simple)

subsection \<open>File names stay file names\<close>

lemma names_ok_Cons [simp]: "names_ok ((p, n) # fs) \<longleftrightarrow> path_ok p \<and> names_ok fs"
  by (simp add: names_ok_def)

lemma names_ok_append [simp]: "names_ok (es @ fs) \<longleftrightarrow> names_ok es \<and> names_ok fs"
  by (simp add: names_ok_def)

lemma names_ok_remove_tree: "names_ok fs \<Longrightarrow> names_ok (remove_tree fs p)"
  by (auto simp: names_ok_def remove_tree_def list_all_iff)

lemma names_ok_copy_entries: "names_ok fs \<Longrightarrow> path_ok dst \<Longrightarrow> names_ok (copy_entries fs src dst)"
  by (auto simp: names_ok_def copy_entries_def list_all_iff path_ok_drop)

lemma names_ok_mkdirs:
  "mkdirs base cs fs = Inr fs' \<Longrightarrow> path_ok (base @ cs) \<Longrightarrow> names_ok fs \<Longrightarrow> names_ok fs'"
proof (induction cs arbitrary: base fs)
  case Nil
  then show ?case by simp
next
  case (Cons c cs)
  from Cons.prems(2) have ok: "path_ok ((base @ [c]) @ cs)" "path_ok (base @ [c])" by simp_all
  show ?case
  proof (cases "stat fs (base @ [c])")
    case None
    with Cons.prems have "mkdirs (base @ [c]) cs ((base @ [c], Dir) # fs) = Inr fs'" by simp
    from Cons.IH [OF this ok(1)] ok(2) Cons.prems(3) show ?thesis by simp
  next
    case (Some n)
    show ?thesis
    proof (cases n)
      case (File x)
      with Some Cons.prems show ?thesis by simp
    next
      case Dir
      with Some Cons.prems have "mkdirs (base @ [c]) cs fs = Inr fs'" by simp
      from Cons.IH [OF this ok(1) Cons.prems(3)] show ?thesis .
    qed
  qed
qed

lemma names_writeFileSync: "path_ok p \<Longrightarrow> keeps fsys (inv_rel names_ok) (writeFileSync p c)"
  by (auto simp: keeps_def inv_rel_def writeFileSync_def split: if_splits)

lemma names_mkdirSync: "path_ok p \<Longrightarrow> keeps fsys (inv_rel names_ok) (mkdirSync p)"
  by (auto simp: keeps_def inv_rel_def mkdirSync_def split: if_splits)

lemma names_mkdirSync_recursive: "path_ok p \<Longrightarrow> keeps fsys (inv_rel names_ok) (mkdirSync_recursive p)"
  by (auto simp: keeps_def inv_rel_def mkdirSync_recursive_def split: sum.splits
        dest: names_ok_mkdirs [where base = "[]", simplified])

lemma names_removeSync: "keeps fsys (inv_rel names_ok) (removeSync p)"
  by (auto simp: keeps_def inv_rel_def removeSync_def names_ok_remove_tree)

lemma names_copySync:
  assumes "path_ok dst"
  shows "keeps fsys (inv_rel names_ok) (copySync src dst)"
proof (rule keepsI)
  fix w r w'
  assume run: "copySync src dst w = (r, w')"
  from copySync_cases [OF run] show "inv_rel names_ok (fsys w) (fsys w')"
  proof
    assume "w' = w \<and> (\<exists>e. r = Throw e)"
    then show ?thesis by (simp add: inv_rel_def)
  next
    assume "\<exists>n fs'. r = Return () \<and> stat (fsys w) src = Some n \<and> src \<noteq> dst
             \<and> \<not> (n = Dir \<and> prefix src dst)
             \<and> \<not> copy_conflict (fsys w) ((dst, n) # copy_entries (fsys w) src dst)
             \<and> mkdirs [] (butlast dst) (fsys w) = Inr fs'
             \<and> w' = w\<lparr>fsys := (dst, n) # copy_entries (fsys w) src dst @ fs'\<rparr>"
    then obtain n fs' where mk: "mkdirs [] (butlast dst) (fsys w) = Inr fs'"
      and w': "fsys w' = (dst, n) # copy_entries (fsys w) src dst @ fs'"
      by auto
    show ?thesis
      unfolding inv_rel_def
    proof
      assume ok: "names_ok (fsys w)"
      from names_ok_mkdirs [OF mk] assms ok have "names_ok fs'"
        by (simp add: path_ok_butlast)
      with w' ok assms show "names_ok (fsys w')"
        by (simp add: names_ok_copy_entries)
    qed
  qed
qed

lemma names_git_clone:
  assumes "path_ok dir" "case rem of None \<Rightarrow> True | Some tree \<Rightarrow> names_ok tree"
  shows "keeps fsys (inv_rel names_ok) (git_clone rem dir)"
proof (rule keepsI)
  fix w r w'
  assume run: "git_clone rem dir w = (r, w')"
  from git_clone_cases [OF run] show "inv_rel names_ok (fsys w) (fsys w')"
  proof
    assume "w' = w \<and> (\<exists>e. r = Throw e)"
    then show ?thesis by (simp add: inv_rel_def)
  next
    assume "\<exists>tree fs'. r = Return () \<and> rem = Some tree
             \<and> (\<forall>c. stat (fsys w) dir \<noteq> Some (File c))
             \<and> \<not> list_ex (\<lambda>(q, n). prefix dir q \<and> q \<noteq> dir) (fsys w)
             \<and> mkdirs [] dir (fsys w) = Inr fs'
             \<and> w' = w\<lparr>fsys := map (\<lambda>(q, n). (dir @ q, n)) (filter (\<lambda>(q, n). q \<noteq> []) tree)
                                 @ (dir @ [''.git''], Dir) # fs',
                        cmds := cmds w @ [(''git clone'', dir)]\<rparr>"
    then obtain tree fs' where mk: "mkdirs [] dir (fsys w) = Inr fs'" and rem: "rem = Some tree"
      and w': "fsys w' = map (\<lambda>(q, n). (dir @ q, n)) (filter (\<lambda>(q, n). q \<noteq> []) tree)
                    @ (dir @ [''.git''], Dir) # fs'"
      by auto
    from rem assms(2) have t: "names_ok tree" by simp
    then have e: "names_ok (map (\<lambda>(q, n). (dir @ q, n)) (filter (\<lambda>(q, n). q \<noteq> []) tree))"
      using assms(1) by (auto simp: names_ok_def list_all_iff)
    have g: "path_ok (dir @ [''.git''])"
      using assms(1) by (simp add: simple_name_def)
    show ?thesis
      unfolding inv_rel_def
    proof
      assume ok: "names_ok (fsys w)"
      from names_ok_mkdirs [OF mk] assms(1) ok have "names_ok fs'" by simp
      with w' e g show "names_ok (fsys w')" by simp
    qed
  qed
qed

lemma names_git_init: "path_ok dir \<Longrightarrow> keeps fsys (inv_rel names_ok) (git_init ok dir)"
  by (auto simp: keeps_def inv_rel_def git_init_def path_ok_def simple_name_def split: if_splits)

lemmas names_quiet =
  keeps_eq_weaken [OF reflp_inv_rel quiet_console(1)]
  keeps_eq_weaken [OF reflp_inv_rel quiet_console(2)]
  keeps_eq_weaken [OF reflp_inv_rel quiet_console(3)]
  keeps_eq_weaken [OF reflp_inv_rel quiet_reads(1)]
  keeps_eq_weaken [OF reflp_inv_rel quiet_reads(2)]
  keeps_eq_weaken [OF reflp_inv_rel quiet_reads(3)]
  keeps_eq_weaken [OF reflp_inv_rel quiet_yargs_parse(1)]
  keeps_ret [OF reflp_inv_rel] keeps_throw [OF reflp_inv_rel]
  keeps_process_exit [OF reflp_inv_rel]

lemmas names_rules =
  keeps_andThen keeps_try_catch keeps_if keeps_forEach transp_inv_rel reflp_inv_rel names_quiet
  names_writeFileSync names_mkdirSync names_mkdirSync_recursive names_removeSync names_copySync
  names_git_init

lemma setup_phase_names:
  assumes "path_ok (tempDir e)" "case remote e of None \<Rightarrow> True | Some tree \<Rightarrow> names_ok tree"
  shows "keeps fsys (inv_rel names_ok) (setup_phase e)"
  unfolding setup_phase_def cloneRepository_def getAvailableLanguages_def parseArguments_def Let_def
  by (intro names_rules names_git_clone assms)

lemma validate_names: "keeps fsys (inv_rel names_ok) (validateProjectDirectory p)"
  unfolding validateProjectDirectory_def
  by (intro names_rules)

lemma create_and_configure_names:
  assumes "path_ok (tempDir e)" "path_ok projectDir"
  shows "keeps fsys (inv_rel names_ok) (create_and_configure e a projectDir)"
  unfolding create_and_configure_def createProjectDirectory_def copyCoreDiretories_def
    copyRequiredFiles_def copyLLMFile_def configurePRPTemplate_def applyLanguageRules_def
    initializeProjectStructure_def Let_def
  by (intro names_rules) (simp_all add: assms path_join_ok)

subsection \<open>Successful runs of the refactored script\<close>

lemma exits_forEach: "(\<And>x. x \<in> set xs \<Longrightarrow> exits P (f x)) \<Longrightarrow> exits P (forEach xs f)"
  by (induction xs) (auto intro!: exits_andThen exits_never)

lemmas exits_rules =
  exits_andThen exits_try_catch exits_if exits_forEach exits_never exits_copySync exits_git_clone
  exits_yargs_parse

lemma main_try_exits: "\<not> asks_usage (argv e) \<Longrightarrow> exits (\<lambda>n. n = 1) (main_try e)"
  unfolding main_try_def setup_phase_def cloneRepository_def getAvailableLanguages_def
    parseArguments_def validateProjectDirectory_def create_and_configure_def
    createProjectDirectory_def copyCoreDiretories_def copyRequiredFiles_def copyLLMFile_def
    configurePRPTemplate_def applyLanguageRules_def initializeProjectStructure_def
    cleanupTemplateFiles_def report_success_def Let_def
  by (intro exits_rules)


lemma cleanupTempDirectory_run:
  "cleanupTempDirectory tmp w =
     (Return (), w\<lparr>fsys := remove_tree (fsys w) tmp, stdout := stdout w @ [''Cleaned up temporary files'']\<rparr>)"
  by (simp add: cleanupTempDirectory_def try_catch_def andThen_def removeSync_def console_log_def)

lemma main_success:
  assumes "run (main e) w = (0, w')" and u: "\<not> asks_usage (argv e)"
  shows "\<exists>w5. main_try e w = (Return (), w5)
           \<and> w' = w5\<lparr>fsys := remove_tree (fsys w5) (tempDir e),
                      stdout := stdout w5 @ [''Cleaned up temporary files'']\<rparr>"
proof -
  obtain r w5 where t: "main_try e w = (r, w5)" by (cases "main_try e w")
  show ?thesis
  proof (cases r)
    case (Return u)
    with t assms(1) show ?thesis
      by (simp add: run_def main_def try_finally_def try_catch_def cleanupTempDirectory_run
            andThen_def ret_def)
  next
    case (Throw x)
    with t main_of_thrown [of e w x w5] assms(1) show ?thesis by simp
  next
    case (Exit n)
    with t exitsD [OF main_try_exits [OF u]] have "n = 1" by blast
    with Exit t main_of_exited [of e w n w5] assms(1) show ?thesis by simp
  qed
qed

lemma andThen_Return_unit:
  fixes m :: "unit io"
  assumes "andThen m (\<lambda>_. k) w = (Return b, w')"
  shows "\<exists>w1. m w = (Return (), w1) \<and> k w1 = (Return b, w')"
  using assms by (auto simp: andThen_def split: prod.splits outcome.splits)

lemma main_try_Return:
  assumes "main_try e w = (Return (), w5)"
  shows "\<exists>a w1 w2 w3 w4.
           setup_phase e w = (Return a, w1)
           \<and> validateProjectDirectory (path_resolve (cwd e) (name a)) w1 = (Return (), w2)
           \<and> create_and_configure e a (path_resolve (cwd e) (name a)) w2 = (Return (), w3)
           \<and> cleanupTemplateFiles (path_resolve (cwd e) (name a)) w3 = (Return (), w4)
           \<and> report_success a (path_resolve (cwd e) (name a)) w4 = (Return (), w5)"
proof -
  from andThen_Return [OF assms [unfolded main_try_def Let_def]]
  obtain a w1 where s: "setup_phase e w = (Return a, w1)"
    and r1: "andThen (validateProjectDirectory (path_resolve (cwd e) (name a))) (\<lambda>_.
             andThen (create_and_configure e a (path_resolve (cwd e) (name a))) (\<lambda>_.
             andThen (cleanupTemplateFiles (path_resolve (cwd e) (name a))) (\<lambda>_.
               report_success a (path_resolve (cwd e) (name a))))) w1 = (Return (), w5)"
    by blast
  from andThen_Return_unit [OF r1]
  obtain w2 where v: "validateProjectDirectory (path_resolve (cwd e) (name a)) w1 = (Return (), w2)"
    and r2: "andThen (create_and_configure e a (path_resolve (cwd e) (name a))) (\<lambda>_.
             andThen (cleanupTemplateFiles (path_resolve (cwd e) (name a))) (\<lambda>_.
               report_success a (path_resolve (cwd e) (name a)))) w2 = (Return (), w5)"
    by blast
  from andThen_Return_unit [OF r2]
  obtain w3 where c: "create_and_configure e a (path_resolve (cwd e) (name a)) w2 = (Return (), w3)"
    and r3: "andThen (cleanupTemplateFiles (path_resolve (cwd e) (name a))) (\<lambda>_.
               report_success a (path_resolve (cwd e) (name a))) w3 = (Return (), w5)"
    by blast
  from andThen_Return_unit [OF r3]
  obtain w4 where t: "cleanupTemplateFiles (path_resolve (cwd e) (name a)) w3 = (Return (), w4)"
    and r4: "report_success a (path_resolve (cwd e) (name a)) w4 = (Return (), w5)"
    by blast
  from s v c t r4 show ?thesis by blast
qed

lemma report_success_quiet: "keeps fsys (=) (report_success a p)" "keeps cmds (=) (report_success a p)"
  unfolding report_success_def
  by (intro keeps_andThen transp_eq quiet_console)+


subsection \<open>Tidying the templates directory\<close>

lemma set_children: "set (children fs d) = {c. d @ [c] \<in> fst ` set fs}"
proof (intro set_eqI iffI)
  fix c
  assume "c \<in> set (children fs d)"
  then obtain p n where "(p, n) \<in> set fs" "p \<noteq> []" "butlast p = d" "c = last p"
    by (auto simp: children_def)
  then have "d @ [c] = p" by auto
  with \<open>(p, n) \<in> set fs\<close> have "d @ [c] \<in> fst ` set fs"
    by (metis fst_conv imageI)
  then show "c \<in> {c. d @ [c] \<in> fst ` set fs}" by simp
next
  fix c
  assume "c \<in> {c. d @ [c] \<in> fst ` set fs}"
  then obtain n where m: "(d @ [c], n) \<in> set fs" by auto
  let ?f = "\<lambda>(p, n). last p" and ?P = "\<lambda>(p, n). p \<noteq> [] \<and> butlast p = d"
  from m have "(d @ [c], n) \<in> set (filter ?P fs)" by simp
  then have "?f (d @ [c], n) \<in> ?f ` set (filter ?P fs)" by (rule imageI)
  then show "c \<in> set (children fs d)"
    by (simp add: children_def)
qed

lemma keys_remove_tree: "fst ` set (remove_tree fs p) = {q \<in> fst ` set fs. \<not> prefix p q}"
proof (intro set_eqI iffI)
  fix q
  assume "q \<in> fst ` set (remove_tree fs p)"
  then obtain n where "(q, n) \<in> set fs" "\<not> prefix p q"
    by (auto simp: remove_tree_def)
  then show "q \<in> {q \<in> fst ` set fs. \<not> prefix p q}"
    by (metis (mono_tags, lifting) fst_conv imageI mem_Collect_eq)
next
  fix q
  assume "q \<in> {q \<in> fst ` set fs. \<not> prefix p q}"
  then obtain n where "(q, n) \<in> set fs" "\<not> prefix p q" by auto
  then have "(q, n) \<in> set (remove_tree fs p)" by (simp add: remove_tree_def)
  then show "q \<in> fst ` set (remove_tree fs p)"
    by (metis fst_conv imageI)
qed

lemma names_ok_child:
  assumes "names_ok fs" "c \<in> set (children fs d)"
  shows "simple_name c"
proof -
  from assms(2) obtain n where "(d @ [c], n) \<in> set fs" by (auto simp: set_children)
  with assms(1) have "path_ok (d @ [c])" by (auto simp: names_ok_def list_all_iff)
  then show ?thesis by simp
qed

lemma cleanup_loop:
  assumes "\<forall>file \<in> set files. simple_name file"
  shows "\<exists>w'. forEach files (\<lambda>file. if file \<noteq> ''prp_template.md''
                                       then removeSync (path_join td [file]) else ret ()) w = (Return (), w')
           \<and> fst ` set (fsys w') \<subseteq> fst ` set (fsys w)
           \<and> (\<forall>file \<in> set files. file \<noteq> ''prp_template.md'' \<longrightarrow> td @ [file] \<notin> fst ` set (fsys w'))
           \<and> (\<forall>q. stat (fsys w) q = None \<longrightarrow> stat (fsys w') q = None)"
  using assms
proof (induction files arbitrary: w)
  case Nil
  show ?case by (simp add: ret_def)
next
  case (Cons f files)
  let ?body = "\<lambda>file. if file \<noteq> ''prp_template.md'' then removeSync (path_join td [file]) else ret ()"
  from Cons.prems have sf: "simple_name f" and rest: "\<forall>file \<in> set files. simple_name file" by simp_all
  have "\<exists>w1. ?body f w = (Return (), w1)
           \<and> fst ` set (fsys w1) \<subseteq> fst ` set (fsys w)
           \<and> (f \<noteq> ''prp_template.md'' \<longrightarrow> td @ [f] \<notin> fst ` set (fsys w1))
           \<and> (\<forall>q. stat (fsys w) q = None \<longrightarrow> stat (fsys w1) q = None)"
  proof (cases "f = ''prp_template.md''")
    case True
    then show ?thesis by (simp add: ret_def)
  next
    case False
    let ?w1 = "w\<lparr>fsys := remove_tree (fsys w) (td @ [f])\<rparr>"
    from False have "?body f w = (Return (), ?w1)"
      by (simp add: removeSync_def path_join_simple [OF sf])
    moreover have "fst ` set (fsys ?w1) \<subseteq> fst ` set (fsys w)"
      by (simp add: keys_remove_tree)
    moreover have "td @ [f] \<notin> fst ` set (fsys ?w1)"
      by (simp add: keys_remove_tree)
    moreover have "\<forall>q. stat (fsys w) q = None \<longrightarrow> stat (fsys ?w1) q = None"
      by (simp add: stat_remove_tree)
    ultimately show ?thesis by blast
  qed
  then obtain w1 where first: "?body f w = (Return (), w1)
           \<and> fst ` set (fsys w1) \<subseteq> fst ` set (fsys w)
           \<and> (f \<noteq> ''prp_template.md'' \<longrightarrow> td @ [f] \<notin> fst ` set (fsys w1))
           \<and> (\<forall>q. stat (fsys w) q = None \<longrightarrow> stat (fsys w1) q = None)" ..
  note b = first [THEN conjunct1]
    and k1 = first [THEN conjunct2, THEN conjunct1]
    and g1 = first [THEN conjunct2, THEN conjunct2, THEN conjunct1]
    and n1 = first [THEN conjunct2, THEN conjunct2, THEN conjunct2]
  from Cons.IH [OF rest, of w1] obtain w'
    where later: "forEach files ?body w1 = (Return (), w')
           \<and> fst ` set (fsys w') \<subseteq> fst ` set (fsys w1)
           \<and> (\<forall>file \<in> set files. file \<noteq> ''prp_template.md'' \<longrightarrow> td @ [file] \<notin> fst ` set (fsys w'))
           \<and> (\<forall>q. stat (fsys w1) q = None \<longrightarrow> stat (fsys w') q = None)" ..
  note l = later [THEN conjunct1]
    and k2 = later [THEN conjunct2, THEN conjunct1]
    and g2 = later [THEN conjunct2, THEN conjunct2, THEN conjunct1]
    and n2 = later [THEN conjunct2, THEN conjunct2, THEN conjunct2]
  from b l have "forEach (f # files) ?body w = (Return (), w')"
    by (simp add: andThen_goes)
  moreover from k1 k2 have "fst ` set (fsys w') \<subseteq> fst ` set (fsys w)" by blast
  moreover from g1 g2 k2 have "\<forall>file \<in> set (f # files). file \<noteq> ''prp_template.md''
                                 \<longrightarrow> td @ [file] \<notin> fst ` set (fsys w')"
    by auto
  moreover from n1 n2 have "\<forall>q. stat (fsys w) q = None \<longrightarrow> stat (fsys w') q = None" by blast
  ultimately show ?case by blast
qed

lemma cleanupTemplateFiles_leaves:
  assumes "names_ok (fsys w)" and "cleanupTemplateFiles projectDir w = (Return (), w')"
  shows "only_prp_template (fsys w') (path_join projectDir [''.context'', ''templates''])"
proof -
  let ?td = "path_join projectDir [''.context'', ''templates'']"
  let ?body = "\<lambda>file. if file \<noteq> ''prp_template.md'' then removeSync (path_join ?td [file]) else ret ()"
  show ?thesis
  proof (cases "stat (fsys w) ?td")
    case None
    with assms(2) have "w' = w"
      by (simp add: cleanupTemplateFiles_def Let_def andThen_def existsSync_def ret_def)
    with None show ?thesis by (simp add: only_prp_template_def)
  next
    case (Some n)
    show ?thesis
    proof (cases n)
      case (File c)
      with Some assms(2) show ?thesis
        by (simp add: cleanupTemplateFiles_def Let_def andThen_def existsSync_def readdirSync_def)
    next
      case Dir
      have simple: "\<forall>file \<in> set (children (fsys w) ?td). simple_name file"
        using names_ok_child [OF assms(1)] by blast
      from cleanup_loop [OF simple, of ?td w] obtain w1
        where loop: "forEach (children (fsys w) ?td) ?body w = (Return (), w1)
           \<and> fst ` set (fsys w1) \<subseteq> fst ` set (fsys w)
           \<and> (\<forall>file \<in> set (children (fsys w) ?td). file \<noteq> ''prp_template.md''
                    \<longrightarrow> ?td @ [file] \<notin> fst ` set (fsys w1))
           \<and> (\<forall>q. stat (fsys w) q = None \<longrightarrow> stat (fsys w1) q = None)" ..
      note l = loop [THEN conjunct1]
        and k = loop [THEN conjunct2, THEN conjunct1]
        and g = loop [THEN conjunct2, THEN conjunct2, THEN conjunct1]
      from Some Dir l assms(2) have "fsys w' = fsys w1"
        by (auto simp: cleanupTemplateFiles_def Let_def andThen_def existsSync_def readdirSync_def
              console_log_def)
      moreover have "set (children (fsys w1) ?td) \<subseteq> {''prp_template.md''}"
      proof
        fix c
        assume "c \<in> set (children (fsys w1) ?td)"
        then have in1: "?td @ [c] \<in> fst ` set (fsys w1)" by (simp add: set_children)
        with k have "c \<in> set (children (fsys w) ?td)" by (auto simp: set_children)
        with g in1 show "c \<in> {''prp_template.md''}" by auto
      qed
      ultimately show ?thesis by (simp add: only_prp_template_def)
    qed
  qed
qed

lemma only_prp_template_remove_tree:
  assumes "only_prp_template fs td" "td \<noteq> []"
  shows "only_prp_template (remove_tree fs p) td"
  unfolding only_prp_template_def
proof
  assume "stat (remove_tree fs p) td = Some Dir"
  with assms(2) have "stat fs td = Some Dir"
    by (simp add: stat_remove_tree split: if_splits)
  with assms(1) have "set (children fs td) \<subseteq> {''prp_template.md''}"
    by (simp add: only_prp_template_def)
  moreover have "set (children (remove_tree fs p) td) \<subseteq> set (children fs td)"
    by (auto simp: set_children keys_remove_tree)
  ultimately show "set (children (remove_tree fs p) td) \<subseteq> {''prp_template.md''}" by blast
qed


subsection \<open>The commands a run issues\<close>

lemma reflp_adds_only: "reflp (adds_only A)" and transp_adds_only: "transp (adds_only A)"
  by (auto simp: reflp_def transp_def adds_only_def)

lemma quiet_cmds_copySync: "keeps cmds (=) (copySync src dst)"
proof (rule keepsI)
  fix w r w'
  assume "copySync src dst w = (r, w')"
  from copySync_cases [OF this] show "cmds w = cmds w'" by auto
qed

lemma quiet_cmds_renameSync: "keeps cmds (=) (renameSync src dst)"
  by (auto simp: keeps_def renameSync_def split: option.splits if_splits)

lemma exits_renameSync: "exits P (renameSync src dst)"
  by (auto simp: exits_def renameSync_def split: option.splits if_splits)

lemma cmds_git_clone: "(''git clone'', dir) \<in> A \<Longrightarrow> keeps cmds (adds_only A) (git_clone rem dir)"
proof (rule keepsI)
  fix w r w'
  assume "(''git clone'', dir) \<in> A" and "git_clone rem dir w = (r, w')"
  from git_clone_cases [OF this(2)] this(1) show "adds_only A (cmds w) (cmds w')"
    by (auto simp: adds_only_def)
qed

lemma cmds_git_init: "(''git init'', dir) \<in> A \<Longrightarrow> keeps cmds (adds_only A) (git_init ok dir)"
  by (auto simp: keeps_def git_init_def adds_only_def split: if_splits)

lemmas cmds_quiet =
  keeps_eq_weaken [OF reflp_adds_only quiet_console(4)]
  keeps_eq_weaken [OF reflp_adds_only quiet_console(5)]
  keeps_eq_weaken [OF reflp_adds_only quiet_console(6)]
  keeps_eq_weaken [OF reflp_adds_only quiet_reads(1)]
  keeps_eq_weaken [OF reflp_adds_only quiet_reads(2)]
  keeps_eq_weaken [OF reflp_adds_only quiet_reads(3)]
  keeps_eq_weaken [OF reflp_adds_only quiet_yargs_parse(2)]
  keeps_eq_weaken [OF reflp_adds_only quiet_cmds_fs(1)]
  keeps_eq_weaken [OF reflp_adds_only quiet_cmds_fs(2)]
  keeps_eq_weaken [OF reflp_adds_only quiet_cmds_fs(3)]
  keeps_eq_weaken [OF reflp_adds_only quiet_cmds_fs(4)]
  keeps_eq_weaken [OF reflp_adds_only quiet_cmds_copySync]
  keeps_eq_weaken [OF reflp_adds_only quiet_cmds_renameSync]
  keeps_ret [OF reflp_adds_only] keeps_throw [OF reflp_adds_only]
  keeps_process_exit [OF reflp_adds_only]

lemmas cmds_rules =
  keeps_andThen keeps_try_catch keeps_if keeps_forEach transp_adds_only reflp_adds_only cmds_quiet
  cmds_git_clone cmds_git_init

lemma ensuresD: "ensures Q m \<Longrightarrow> m w = (Return a, w') \<Longrightarrow> Q w'"
  by (auto simp: ensures_def)

lemma ensures_last: "(\<And>a. ensures Q (f a)) \<Longrightarrow> ensures Q (andThen m f)"
  by (auto simp: ensures_def andThen_def split: prod.splits outcome.splits)

lemma ensures_first:
  assumes "ensures Q m" "\<And>a. keeps proj R (f a)" "\<And>w w'. Q w \<Longrightarrow> R (proj w) (proj w') \<Longrightarrow> Q w'"
  shows "ensures Q (andThen m f)"
  unfolding ensures_def
proof (intro allI impI)
  fix w b w'
  assume "andThen m f w = (Return b, w')"
  from andThen_Return [OF this] obtain a w1 where m: "m w = (Return a, w1)" and f: "f a w1 = (Return b, w')"
    by blast
  from ensuresD [OF assms(1) m] keepsD [OF assms(2) f] assms(3) show "Q w'" by blast
qed

lemma ensures_git_init: "ensures (\<lambda>w. ok \<and> (''git init'', dir) \<in> set (cmds w)) (git_init ok dir)"
  by (auto simp: ensures_def git_init_def split: if_splits)

lemma initializeProjectStructure_returns:
  assumes "mkdirSync_recursive (path_join projectDir [n]) w = (Return (), w1)"
  shows "\<exists>w'. initializeProjectStructure ok projectDir n w = (Return (), w')
           \<and> (ok \<longrightarrow> (''git init'', path_join projectDir [n]) \<in> set (cmds w'))"
proof -
  let ?src = "path_join projectDir [n]"
  let ?w2 = "w1\<lparr>stdout := stdout w1 @ [''Created source directory: '' @ path_str ?src]\<rparr>"
  from assms obtain fs' where mk: "mkdirs [] ?src (fsys w) = Inr fs'" and w1: "fsys w1 = fs'"
    by (auto simp: mkdirSync_recursive_def split: sum.splits)
  from mkdirs_is_dir [OF mk] w1 have d: "stat (fsys ?w2) ?src = Some Dir" by simp
  show ?thesis
  proof (cases ok)
    case True
    with d have "git_init ok ?src ?w2
        = (Return (), ?w2\<lparr>fsys := (if stat (fsys ?w2) (?src @ [''.git'']) = None
                                   then (?src @ [''.git''], Dir) # fsys ?w2 else fsys ?w2),
                           cmds := cmds ?w2 @ [(''git init'', ?src)]\<rparr>)"
      by (simp add: git_init_def)
    with assms True show ?thesis
      by (simp add: initializeProjectStructure_def Let_def andThen_def console_log_def try_catch_def)
  next
    case False
    with d have "git_init ok ?src ?w2 = (Throw ''Command failed: git init'', ?w2)"
      by (simp add: git_init_def)
    with assms False show ?thesis
      by (simp add: initializeProjectStructure_def Let_def andThen_def console_log_def try_catch_def
            console_warn_def)
  qed
qed

lemma initializeProjectStructure_ensures:
  "ok \<Longrightarrow> ensures (\<lambda>w. (''git init'', path_join projectDir [n]) \<in> set (cmds w))
            (initializeProjectStructure ok projectDir n)"
  unfolding ensures_def
proof (intro allI impI)
  fix w a w'
  assume ok: ok and run: "initializeProjectStructure ok projectDir n w = (Return a, w')"
  obtain r w1 where m: "mkdirSync_recursive (path_join projectDir [n]) w = (r, w1)"
    by (cases "mkdirSync_recursive (path_join projectDir [n]) w")
  with run have "r = Return ()"
    by (cases r) (auto simp: initializeProjectStructure_def Let_def andThen_def)
  with m initializeProjectStructure_returns [of projectDir n w w1 ok] run ok
  show "(''git init'', path_join projectDir [n]) \<in> set (cmds w')" by auto
qed

lemma create_and_configure_cmds:
  "keeps cmds (adds_only {(''git init'', path_join projectDir [name a])}) (create_and_configure e a projectDir)"
  unfolding create_and_configure_def createProjectDirectory_def copyCoreDiretories_def
    copyRequiredFiles_def copyLLMFile_def configurePRPTemplate_def applyLanguageRules_def
    initializeProjectStructure_def Let_def
  by (intro cmds_rules) simp

lemma create_and_configure_ensures:
  "git_ok e \<Longrightarrow> ensures (\<lambda>w. (''git init'', path_join projectDir [name a]) \<in> set (cmds w))
                  (create_and_configure e a projectDir)"
  unfolding create_and_configure_def
  by (intro ensures_last initializeProjectStructure_ensures)

lemma setup_phase_cmds: "keeps cmds (adds_only {(''git clone'', tempDir e)}) (setup_phase e)"
  unfolding setup_phase_def cloneRepository_def getAvailableLanguages_def parseArguments_def Let_def
  by (intro cmds_rules) simp

lemma cleanupTemplateFiles_cmds: "keeps cmds (=) (cleanupTemplateFiles p)"
  unfolding cleanupTemplateFiles_def Let_def
  by (intro keeps_andThen keeps_if keeps_forEach transp_eq reflp_eq quiet_console quiet_reads
        quiet_cmds_fs keeps_ret)

lemma validate_quiet: "keeps fsys (=) (validateProjectDirectory p)" "keeps cmds (=) (validateProjectDirectory p)"
  unfolding validateProjectDirectory_def
  by (intro keeps_andThen keeps_if transp_eq reflp_eq quiet_reads keeps_ret keeps_throw)+

lemma main_cmds:
  assumes "run (main e) (init_world fs) = (0, w')" and "raw_name (argv e) = Some n"
    and u: "\<not> asks_usage (argv e)"
  shows "set (cmds w') \<subseteq> {(''git clone'', tempDir e), (''git init'', path_join (path_resolve (cwd e) n) [n])}"
    and "git_ok e \<Longrightarrow> (''git init'', path_join (path_resolve (cwd e) n) [n]) \<in> set (cmds w')"
proof -
  from main_success [OF assms(1) u] obtain w5 where t: "main_try e (init_world fs) = (Return (), w5)"
    and w': "w' = w5\<lparr>fsys := remove_tree (fsys w5) (tempDir e),
                      stdout := stdout w5 @ [''Cleaned up temporary files'']\<rparr>"
    by blast
  from main_try_Return [OF t] obtain a w1 w2 w3 w4
    where s: "setup_phase e (init_world fs) = (Return a, w1)"
      and v: "validateProjectDirectory (path_resolve (cwd e) (name a)) w1 = (Return (), w2)"
      and c: "create_and_configure e a (path_resolve (cwd e) (name a)) w2 = (Return (), w3)"
      and k: "cleanupTemplateFiles (path_resolve (cwd e) (name a)) w3 = (Return (), w4)"
      and r: "report_success a (path_resolve (cwd e) (name a)) w4 = (Return (), w5)"
    by blast
  from setup_phase_returns(2) [OF s] assms(2) have n: "name a = n" by simp
  from keepsD [OF setup_phase_cmds s] have 1: "set (cmds w1) \<subseteq> {(''git clone'', tempDir e)}"
    by (simp add: adds_only_def init_world_def)
  from keepsD [OF validate_quiet(2) v] have 2: "cmds w2 = cmds w1" by simp
  from keepsD [OF create_and_configure_cmds c]
  have 3: "set (cmds w3) \<subseteq> set (cmds w2) \<union> {(''git init'', path_join (path_resolve (cwd e) n) [n])}"
    by (simp add: adds_only_def n)
  from keepsD [OF cleanupTemplateFiles_cmds k] have 4: "cmds w4 = cmds w3" by simp
  from keepsD [OF report_success_quiet(2) r] have 5: "cmds w5 = cmds w4" by simp
  from w' have 6: "cmds w' = cmds w5" by simp
  from 1 2 3 4 5 6
  show "set (cmds w') \<subseteq> {(''git clone'', tempDir e), (''git init'', path_join (path_resolve (cwd e) n) [n])}"
    by auto
  assume "git_ok e"
  from ensuresD [OF create_and_configure_ensures [OF this] c] 4 5 6
  show "(''git init'', path_join (path_resolve (cwd e) n) [n]) \<in> set (cmds w')"
    by (simp add: n)
qed

subsection \<open>The two older scripts\<close>

lemma original_build_exits: "exits (\<lambda>n. n = 1) (original_build e a)"
  unfolding original_build_def original_copy_def original_prp_def original_rules_def Let_def
  by (intro exits_rules)

lemma original_script_exits: "\<not> asks_usage (argv e) \<Longrightarrow> exits (\<lambda>n. n = 1) (original_script e)"
  unfolding original_script_def
  by (intro exits_andThen original_setup_exits original_build_exits)

lemma local_arguments_exits: "\<not> asks_usage (argv e) \<Longrightarrow> exits (\<lambda>n. n = 1) (local_arguments t e)"
  unfolding local_arguments_def Let_def
  by (intro exits_rules)

lemma local_build_exits: "exits (\<lambda>n. n = 1) (local_build t e a)"
  unfolding local_build_def local_copy_def local_prp_def local_rules_def Let_def
  by (intro exits_rules exits_renameSync)

lemma local_script_exits: "\<not> asks_usage (argv e) \<Longrightarrow> exits (\<lambda>n. n = 1) (local_script t e)"
  unfolding local_script_def
  by (intro exits_andThen local_arguments_exits local_build_exits)

lemma run_success:
  assumes "exits (\<lambda>n. n = 1) script" "run script w = (0, w')"
  shows "script w = (Return (), w')"
proof -
  obtain r w1 where s: "script w = (r, w1)" by (cases "script w")
  show ?thesis
  proof (cases r)
    case (Return u)
    with s assms(2) show ?thesis by (simp add: run_def)
  next
    case (Throw x)
    with s assms(2) show ?thesis by (simp add: run_def)
  next
    case (Exit n)
    with s exitsD [OF assms(1)] have "n = 1" by blast
    with Exit s assms(2) show ?thesis by (simp add: run_def)
  qed
qed

lemma local_arguments_yields:
  "yields (\<lambda>a. raw_name (argv e) = Some (name a) \<and> raw_lang (argv e) = Some (lang a)
             \<and> (\<exists>m. raw_llm (argv e) = Some m \<and> llm a = toUpperCase m) \<and> llm a \<in> set SUPPORTED_LLMS
             \<and> \<not> asks_usage (argv e))
     (local_arguments t e)"
  unfolding local_arguments_def Let_def
  by (intro yields_andThen) (use yields_yargs_parse in \<open>fastforce simp: yields_def SUPPORTED_LLMS_def\<close>)

lemma member_adds_only: "ok \<and> c \<in> set xs \<Longrightarrow> adds_only A xs ys \<Longrightarrow> ok \<and> c \<in> set ys"
  by (auto simp: adds_only_def)

lemma original_build_cmds:
  "keeps cmds (adds_only {(''git init'', path_join (path_resolve (cwd e) (name a)) [name a])})
     (original_build e a)"
  unfolding original_build_def original_copy_def original_prp_def original_rules_def Let_def
  by (intro cmds_rules) simp

lemma original_setup_cmds: "keeps cmds (adds_only {(''git clone'', tempDir e)}) (original_setup e)"
  unfolding original_setup_def original_discover_def Let_def
  by (intro cmds_rules) simp

lemma original_build_ensures:
  "ensures (\<lambda>w. git_ok e \<and> (''git init'', path_join (path_resolve (cwd e) (name a)) [name a]) \<in> set (cmds w))
     (original_build e a)"
  unfolding original_build_def Let_def
  apply (rule ensures_last, rule ensures_last, rule ensures_last, rule ensures_last, rule ensures_last)
  apply (rule ensures_first [where proj = cmds and R = "adds_only {}"])
    apply (rule ensures_git_init)
   apply (intro cmds_rules)
  apply (erule (1) member_adds_only)
  done

lemma local_build_cmds:
  "keeps cmds (adds_only {(''git init'', path_resolve (cwd e) (name a))}) (local_build t e a)"
  unfolding local_build_def local_copy_def local_prp_def local_rules_def Let_def
  by (intro cmds_rules) simp

lemma local_arguments_cmds: "keeps cmds (=) (local_arguments t e)"
  unfolding local_arguments_def Let_def
  by (intro keeps_andThen transp_eq quiet_reads quiet_yargs_parse)

lemma local_build_ensures:
  "ensures (\<lambda>w. git_ok e \<and> (''git init'', path_resolve (cwd e) (name a)) \<in> set (cmds w))
     (local_build t e a)"
  unfolding local_build_def Let_def
  apply (rule ensures_last, rule ensures_last, rule ensures_last, rule ensures_last, rule ensures_last)
  apply (rule ensures_first [where proj = cmds and R = "adds_only {}"])
    apply (rule ensures_git_init)
   apply (intro cmds_rules)
  apply (erule (1) member_adds_only)
  done

lemma original_script_cmds:
  assumes "run (original_script e) (init_world fs) = (0, w')" and "raw_name (argv e) = Some n"
    and u: "\<not> asks_usage (argv e)"
  shows "git_ok e \<and> (''git init'', path_join (path_resolve (cwd e) n) [n]) \<in> set (cmds w')
         \<and> set (cmds w') \<subseteq> {(''git clone'', tempDir e), (''git init'', path_join (path_resolve (cwd e) n) [n])}"
proof -
  from run_success [OF original_script_exits [OF u] assms(1)]
  have "original_script e (init_world fs) = (Return (), w')" .
  from andThen_Return [OF this [unfolded original_script_def]] obtain a w1
    where s: "original_setup e (init_world fs) = (Return a, w1)"
      and b: "original_build e a w1 = (Return (), w')" by blast
  from original_setup_returns(2) [OF s] assms(2) have n: "name a = n" by simp
  from keepsD [OF original_setup_cmds s] have 1: "set (cmds w1) \<subseteq> {(''git clone'', tempDir e)}"
    by (simp add: adds_only_def init_world_def)
  from keepsD [OF original_build_cmds b]
  have 2: "set (cmds w') \<subseteq> set (cmds w1) \<union> {(''git init'', path_join (path_resolve (cwd e) n) [n])}"
    by (simp add: adds_only_def n)
  from ensuresD [OF original_build_ensures b]
  have 3: "git_ok e \<and> (''git init'', path_join (path_resolve (cwd e) n) [n]) \<in> set (cmds w')"
    by (simp add: n)
  from 1 2 3 show ?thesis by auto
qed

lemma local_script_cmds:
  assumes "run (local_script t e) (init_world fs) = (0, w')" and "raw_name (argv e) = Some n"
    and u: "\<not> asks_usage (argv e)"
  shows "git_ok e \<and> set (cmds w') = {(''git init'', path_resolve (cwd e) n)}"
proof -
  from run_success [OF local_script_exits [OF u] assms(1)]
  have "local_script t e (init_world fs) = (Return (), w')" .
  from andThen_Return [OF this [unfolded local_script_def]] obtain a w1
    where s: "local_arguments t e (init_world fs) = (Return a, w1)"
      and b: "local_build t e a w1 = (Return (), w')" by blast
  from yieldsD [OF local_arguments_yields s] assms(2) have n: "name a = n" by simp
  from keepsD [OF local_arguments_cmds s] have 1: "cmds w1 = []"
    by (simp add: init_world_def)
  from keepsD [OF local_build_cmds b]
  have 2: "set (cmds w') \<subseteq> set (cmds w1) \<union> {(''git init'', path_resolve (cwd e) n)}"
    by (simp add: adds_only_def n)
  from ensuresD [OF local_build_ensures b]
  have 3: "git_ok e \<and> (''git init'', path_resolve (cwd e) n) \<in> set (cmds w')"
    by (simp add: n)
  from 1 2 3 show ?thesis by auto
qed

subsection \<open>Well-formed file systems\<close>

lemma path_join_simples: "list_all simple_name segs \<Longrightarrow> path_join base segs = base @ segs"
proof -
  have n: "list_all simple_name segs \<Longrightarrow> normalize_onto b segs = b @ segs" for b
    by (induction segs arbitrary: b) (auto simp: simple_name_def)
  have c: "list_all simple_name segs \<Longrightarrow> concat (map split_slash segs) = segs"
    by (induction segs) (auto simp: simple_name_def split_slash_simple)
  assume "list_all simple_name segs"
  with n c show ?thesis by (simp add: path_join_def)
qed

lemma parents_okD:
  assumes "parents_ok fs" "stat fs p \<noteq> None" "p \<noteq> []"
  shows "stat fs (butlast p) = Some Dir"
proof -
  from assms(2,3) have "map_of fs p \<noteq> None" by (simp add: stat_def)
  then obtain n where "(p, n) \<in> set fs" by (auto dest: map_of_SomeD)
  with assms(1) show ?thesis by (auto simp: parents_ok_def list_all_iff)
qed

lemma absent_below:
  assumes "parents_ok fs" "stat fs p = None"
  shows "stat fs (p @ q) = None"
proof (induction q rule: rev_induct)
  case Nil
  with assms(2) show ?case by simp
next
  case (snoc c q)
  show ?case
  proof (rule ccontr)
    assume "stat fs (p @ q @ [c]) \<noteq> None"
    from parents_okD [OF assms(1) this] have "stat fs (p @ q) = Some Dir"
      by (simp add: butlast_append)
    with snoc show False by simp
  qed
qed

lemma dirs_above:
  assumes "parents_ok fs" "stat fs (p @ q) \<noteq> None" "q \<noteq> []"
  shows "stat fs p = Some Dir"
  using assms(2,3)
proof (induction q rule: rev_induct)
  case Nil
  then show ?case by simp
next
  case (snoc c q)
  from parents_okD [OF assms(1) snoc.prems(1)] have d: "stat fs (p @ q) = Some Dir"
    by (simp add: butlast_append)
  show ?case
  proof (cases "q = []")
    case True
    with d show ?thesis by simp
  next
    case False
    with snoc.IH d show ?thesis by simp
  qed
qed

lemma dirs_to_of_dir: "parents_ok fs \<Longrightarrow> stat fs p = Some Dir \<Longrightarrow> dirs_to fs p"
  unfolding dirs_to_def
proof (intro allI impI)
  fix r
  assume ok: "parents_ok fs" and d: "stat fs p = Some Dir" and "prefix r p"
  then obtain q where q: "p = r @ q" by (auto simp: prefix_def)
  show "stat fs r = Some Dir"
  proof (cases "q = []")
    case True
    with q d show ?thesis by simp
  next
    case False
    with dirs_above [OF ok, of r q] q d show ?thesis by simp
  qed
qed

lemma mkdirs_existing:
  "(\<And>k. k < length cs \<Longrightarrow> stat fs (base @ take (Suc k) cs) = Some Dir) \<Longrightarrow> mkdirs base cs fs = Inr fs"
proof (induction cs arbitrary: base)
  case Nil
  show ?case by simp
next
  case (Cons c cs)
  from Cons.prems [of 0] have d: "stat fs (base @ [c]) = Some Dir" by simp
  have "mkdirs (base @ [c]) cs fs = Inr fs"
  proof (rule Cons.IH)
    fix k
    assume "k < length cs"
    with Cons.prems [of "Suc k"] show "stat fs ((base @ [c]) @ take (Suc k) cs) = Some Dir" by simp
  qed
  with d show ?case by simp
qed

lemma mkdirs_dirs_to: "dirs_to fs p \<Longrightarrow> mkdirs [] p fs = Inr fs"
  by (rule mkdirs_existing) (simp add: dirs_to_def take_is_prefix)

lemma mkdirs_child:
  assumes "dirs_to fs p" "stat fs (p @ [c]) = None"
  shows "mkdirs [] (p @ [c]) fs = Inr ((p @ [c], Dir) # fs)"
proof -
  have g: "(\<And>k. k < length cs \<Longrightarrow> stat fs (base @ take (Suc k) cs) = Some Dir)
           \<Longrightarrow> stat fs (base @ cs @ [c]) = None
           \<Longrightarrow> mkdirs base (cs @ [c]) fs = Inr ((base @ cs @ [c], Dir) # fs)" for cs base
  proof (induction cs arbitrary: base)
    case Nil
    then show ?case by simp
  next
    case (Cons d cs)
    from Cons.prems(1) [of 0] have d: "stat fs (base @ [d]) = Some Dir" by simp
    have "mkdirs (base @ [d]) (cs @ [c]) fs = Inr (((base @ [d]) @ cs @ [c], Dir) # fs)"
    proof (rule Cons.IH)
      fix k
      assume "k < length cs"
      with Cons.prems(1) [of "Suc k"] show "stat fs ((base @ [d]) @ take (Suc k) cs) = Some Dir" by simp
    next
      from Cons.prems(2) show "stat fs ((base @ [d]) @ cs @ [c]) = None" by simp
    qed
    with d show ?case by simp
  qed
  from assms show ?thesis
    using g [of p "[]"] by (simp add: dirs_to_def take_is_prefix)
qed

lemma map_of_copy_entries:
  "rel \<noteq> [] \<Longrightarrow> map_of (copy_entries fs src dst) (dst @ rel) = map_of fs (src @ rel)"
proof (induction fs)
  case Nil
  show ?case by (simp add: copy_entries_def)
next
  case (Cons x fs)
  obtain q n where x: "x = (q, n)" by (cases x)
  from Cons have IH: "map_of (copy_entries fs src dst) (dst @ rel) = map_of fs (src @ rel)" by simp
  show ?case
  proof (cases "prefix src q \<and> q \<noteq> src")
    case True
    then obtain r where r: "q = src @ r" by (auto simp: prefix_def)
    with True x IH show ?thesis by (simp add: copy_entries_def)
  next
    case False
    with Cons.prems have "q \<noteq> src @ rel" by auto
    with False x IH show ?thesis by (auto simp: copy_entries_def)
  qed
qed

lemma copy_entries_keys: "(t, n) \<in> set (copy_entries fs src dst) \<Longrightarrow> \<exists>rel. rel \<noteq> [] \<and> t = dst @ rel"
  by (auto simp: copy_entries_def prefix_def)

subsection \<open>Copying the template into a fresh destination\<close>

lemma prefix_append_cases: "prefix a (b @ c) \<Longrightarrow> prefix a b \<or> prefix b a"
  by (auto simp: prefix_append)

lemma copySync_fresh:
  assumes "stat (fsys w) src = Some n" "src \<noteq> dst" "\<not> prefix src dst"
    and "\<And>rel. stat (fsys w) (dst @ rel) = None" and "dirs_to (fsys w) (butlast dst)"
  shows "copySync src dst w = (Return (), w\<lparr>fsys := (dst, n) # copy_entries (fsys w) src dst @ fsys w\<rparr>)"
proof -
  have nc: "\<not> copy_conflict (fsys w) ((dst, n) # copy_entries (fsys w) src dst)"
  proof -
    have "stat (fsys w) t = None" if "(t, m) \<in> set ((dst, n) # copy_entries (fsys w) src dst)" for t m
    proof -
      from that have "t = dst \<or> (\<exists>rel. t = dst @ rel)"
        by (auto dest: copy_entries_keys)
      then obtain rel where "t = dst @ rel" by (metis append_Nil2)
      with assms(4) show ?thesis by simp
    qed
    then show ?thesis
      unfolding copy_conflict_def list_ex_iff by fastforce
  qed
  have ns: "\<not> (n = Dir \<and> prefix src dst)" using assms(3) by simp
  show ?thesis
    unfolding copySync_def assms(1) option.case if_not_P [OF assms(2)] if_not_P [OF ns] if_not_P [OF nc]
      mkdirs_dirs_to [OF assms(5)]
    by simp
qed

lemma guarded_copy:
  assumes st: "staged fs1 tmp proj {} S (fsys w)" and c: "c \<notin> S" "simple_name c"
    and sep: "\<not> prefix tmp proj" "\<not> prefix proj tmp" and ok: "parents_ok fs1"
  shows "\<exists>w'. andThen (existsSync (path_join tmp [c]))
                (\<lambda>ex. if ex then andThen (copySync (path_join tmp [c]) (path_join proj [c]))
                                   (\<lambda>_. console_log msg)
                       else ret ()) w = (Return (), w')
              \<and> staged fs1 tmp proj {} (insert c S) (fsys w')"
proof -
  let ?src = "tmp @ [c]" and ?dst = "proj @ [c]"
  have pj: "path_join tmp [c] = ?src" "path_join proj [c] = ?dst"
    using c(2) by (simp_all add: path_join_simple)
  from st have d: "dirs_to (fsys w) proj"
    and out: "\<And>q. \<not> prefix proj q \<Longrightarrow> stat (fsys w) q = stat fs1 q"
    and inn: "\<And>c rel. stat (fsys w) (proj @ c # rel) = (if c \<in> S then stat fs1 (tmp @ c # rel) else None)"
    by (auto simp: staged_def)
  have nsrc: "\<not> prefix proj (tmp @ c # rel)" for rel
  proof
    assume "prefix proj (tmp @ c # rel)"
    from prefix_append_cases [OF this] sep show False by blast
  qed
  have src: "stat (fsys w) (tmp @ c # rel) = stat fs1 (tmp @ c # rel)" for rel
    using out [OF nsrc] .
  show ?thesis
  proof (cases "stat fs1 ?src")
    case None
    with src [of "[]"] have "stat (fsys w) ?src = None" by simp
    then have run: "andThen (existsSync (path_join tmp [c]))
                (\<lambda>ex. if ex then andThen (copySync (path_join tmp [c]) (path_join proj [c]))
                                   (\<lambda>_. console_log msg)
                       else ret ()) w = (Return (), w)"
      by (simp add: pj andThen_def existsSync_def ret_def)
    have below: "stat fs1 (tmp @ c # rel) = None" for rel
      using absent_below [OF ok None, of rel] by simp
    have "staged fs1 tmp proj {} (insert c S) (fsys w)"
      unfolding staged_def
      using d out inn c(1) below by auto
    with run show ?thesis by blast
  next
    case (Some n)
    with src [of "[]"] have s: "stat (fsys w) ?src = Some n" by simp
    have ne: "?src \<noteq> ?dst" using sep by auto
    have np: "\<not> prefix ?src ?dst"
    proof
      assume "prefix ?src ?dst"
      then have "prefix tmp (proj @ [c])" by (rule append_prefixD)
      then have "prefix tmp proj \<or> tmp = proj @ [c]" by (auto simp: prefix_snoc)
      with sep show False by auto
    qed
    have fresh: "stat (fsys w) (?dst @ rel) = None" for rel
      using inn [of c rel] c(1) by simp
    have db: "dirs_to (fsys w) (butlast ?dst)" using d by simp
    let ?fs' = "(?dst, n) # copy_entries (fsys w) ?src ?dst @ fsys w"
    from copySync_fresh [OF s ne np fresh db]
    have run: "andThen (existsSync (path_join tmp [c]))
                (\<lambda>ex. if ex then andThen (copySync (path_join tmp [c]) (path_join proj [c]))
                                   (\<lambda>_. console_log msg)
                       else ret ()) w
               = (Return (), w\<lparr>fsys := ?fs', stdout := stdout w @ [msg]\<rparr>)"
      using s by (simp add: pj andThen_def existsSync_def console_log_def)
    have st': "stat ?fs' q = (if q = ?dst then Some n
                              else case map_of (copy_entries (fsys w) ?src ?dst) q of
                                     Some x \<Rightarrow> Some x | None \<Rightarrow> stat (fsys w) q)" for q
      by (cases "q = []") (simp_all add: stat_Cons stat_append map_of_copy_entries_outside)
    have away: "stat ?fs' q = stat (fsys w) q" if "\<not> prefix ?dst q" for q
      using that by (auto simp: st' map_of_copy_entries_outside)
    have 1: "dirs_to ?fs' proj"
      unfolding dirs_to_def
    proof (intro allI impI)
      fix r
      assume r: "prefix r proj"
      then have "\<not> prefix ?dst r"
        by (metis append_prefixD prefix_order.antisym same_prefix_nil snoc_eq_iff_butlast append_Nil2 not_Cons_self2 self_append_conv)
      with away r d show "stat ?fs' r = Some Dir" by (simp add: dirs_to_def)
    qed
    have 2: "stat ?fs' q = stat fs1 q" if "\<not> prefix proj q" for q
    proof -
      from that have "\<not> prefix ?dst q" by (auto dest: append_prefixD)
      with away out [OF that] show ?thesis by simp
    qed
    have 3: "stat ?fs' (proj @ c' # rel) = (if c' \<in> insert c S then stat fs1 (tmp @ c' # rel) else None)" for c' rel
    proof (cases "c' = c")
      case False
      then have "\<not> prefix ?dst (proj @ c' # rel)" by simp
      with away inn [of c' rel] False show ?thesis by simp
    next
      case True
      show ?thesis
      proof (cases "rel = []")
        case rn: True
        with True Some show ?thesis by (simp add: st')
      next
        case rn: False
        have k: "proj @ c # rel = ?dst @ rel" "tmp @ c # rel = ?src @ rel" by simp_all
        have m: "map_of (copy_entries (fsys w) ?src ?dst) (?dst @ rel) = map_of (fsys w) (?src @ rel)"
          using rn by (rule map_of_copy_entries)
        have sm: "stat (fsys w) (?src @ rel) = map_of (fsys w) (?src @ rel)"
          by (simp add: stat_def)
        from src [of rel] have e: "map_of (fsys w) (?src @ rel) = stat fs1 (tmp @ c # rel)"
          using sm by simp
        have nd: "?dst @ rel \<noteq> ?dst" using rn by simp
        show ?thesis
        proof (cases "stat fs1 (tmp @ c # rel)")
          case None
          with e m fresh [of rel] True nd show ?thesis
            unfolding k(1) st' by simp
        next
          case (Some x)
          with e m True nd show ?thesis
            unfolding k(1) st' by simp
        qed
      qed
    qed
    from 1 2 3 have "staged fs1 tmp proj {} (insert c S) ?fs'"
      unfolding staged_def by blast
    with run show ?thesis by simp
  qed
qed

lemma copy_all:
  assumes "staged fs1 tmp proj {} S (fsys w)" "distinct cs" "set cs \<inter> S = {}" "list_all simple_name cs"
    and sep: "\<not> prefix tmp proj" "\<not> prefix proj tmp" and ok: "parents_ok fs1"
  shows "\<exists>w'. forEach cs (\<lambda>c. andThen (existsSync (path_join tmp [c]))
                  (\<lambda>ex. if ex then andThen (copySync (path_join tmp [c]) (path_join proj [c]))
                                     (\<lambda>_. console_log (msg c))
                         else ret ())) w = (Return (), w')
              \<and> staged fs1 tmp proj {} (S \<union> set cs) (fsys w')"
  using assms(1-4)
proof (induction cs arbitrary: w S)
  case Nil
  then show ?case by (simp add: ret_def)
next
  case (Cons c cs)
  let ?body = "\<lambda>c. andThen (existsSync (path_join tmp [c]))
                  (\<lambda>ex. if ex then andThen (copySync (path_join tmp [c]) (path_join proj [c]))
                                     (\<lambda>_. console_log (msg c))
                         else ret ())"
  from Cons.prems have c: "c \<notin> S" "simple_name c" by auto
  from guarded_copy [OF Cons.prems(1) c sep ok, of "msg c"] obtain w1
    where first: "?body c w = (Return (), w1) \<and> staged fs1 tmp proj {} (insert c S) (fsys w1)" ..
  from Cons.prems have rest: "distinct cs" "set cs \<inter> insert c S = {}" "list_all simple_name cs" by auto
  from Cons.IH [OF first [THEN conjunct2] rest] obtain w'
    where later: "forEach cs ?body w1 = (Return (), w')
                  \<and> staged fs1 tmp proj {} (insert c S \<union> set cs) (fsys w')" ..
  from first later have "forEach (c # cs) ?body w = (Return (), w')"
    by (simp add: andThen_goes)
  moreover have "insert c S \<union> set cs = S \<union> set (c # cs)" by auto
  ultimately show ?case using later by auto
qed

lemma staged_start:
  assumes "parents_ok fs1" "dirs_to fs1 d" "stat fs1 (d @ [n]) = None"
  shows "staged fs1 tmp (d @ [n]) {} {} ((d @ [n], Dir) # fs1)"
  unfolding staged_def
proof (intro conjI allI impI)
  show "dirs_to ((d @ [n], Dir) # fs1) (d @ [n])"
    unfolding dirs_to_def
  proof (intro allI impI)
    fix r
    assume "prefix r (d @ [n])"
    then have "r = d @ [n] \<or> prefix r d" by (auto simp: prefix_snoc)
    with assms(2) show "stat ((d @ [n], Dir) # fs1) r = Some Dir"
      by (auto simp: stat_Cons dirs_to_def)
  qed
next
  fix q
  assume "\<not> prefix (d @ [n]) q"
  then show "stat ((d @ [n], Dir) # fs1) q = stat fs1 q"
    by (auto simp: stat_Cons)
next
  fix c rel
  from absent_below [OF assms(1,3), of "c # rel"]
  show "stat ((d @ [n], Dir) # fs1) ((d @ [n]) @ c # rel) = (if c \<in> {} then stat fs1 (tmp @ c # rel) else None)"
    by (simp add: stat_Cons)
qed

lemma staged_write:
  assumes "staged fs1 tmp proj {} S fs" "x \<in> X"
  shows "staged fs1 tmp proj X S ((proj @ [x], node) # fs)" and "staged fs1 tmp proj X S fs"
  using assms
  by (auto simp: staged_def dirs_to_def stat_Cons)

lemma configurePRPTemplate_skips:
  assumes "stat (fsys w) (path_join projectDir [''.context'', ''templates'', ''prp_template_'' @ language @ ''.md''])
             = None"
  shows "configurePRPTemplate projectDir language m w = (Return (), w)"
    and "original_prp projectDir language m w = (Return (), w)"
  using assms
  by (simp_all add: configurePRPTemplate_def original_prp_def Let_def andThen_def existsSync_def ret_def)

lemma frame_initializeProjectStructure:
  "keeps fsys (same_outside (near (path_join projectDir [n]))) (initializeProjectStructure ok projectDir n)"
  unfolding initializeProjectStructure_def Let_def
  by (intro keeps_andThen keeps_try_catch transp_same_outside frame_quiet frame_mkdirSync_recursive
        frame_git_init)
     (simp_all add: near_def)

lemma cleanup_loop_frame:
  assumes "\<forall>file \<in> set files. simple_name file"
  shows "keeps fsys (same_outside (\<lambda>q. \<exists>file \<in> set files. file \<noteq> ''prp_template.md'' \<and> prefix (td @ [file]) q))
           (forEach files (\<lambda>file. if file \<noteq> ''prp_template.md''
                                    then removeSync (path_join td [file]) else ret ()))"
  by (intro keeps_forEach keeps_if reflp_same_outside transp_same_outside frame_removeSync frame_quiet)
     (use assms in \<open>auto simp: path_join_simple\<close>)

lemma cleanupTemplateFiles_returns:
  assumes "names_ok (fsys w)"
    and "\<And>c. stat (fsys w) (path_join projectDir [''.context'', ''templates'']) \<noteq> Some (File c)"
  shows "\<exists>w'. cleanupTemplateFiles projectDir w = (Return (), w')
           \<and> stat (fsys w') (path_join projectDir [''.context'', ''templates''] @ [''prp_template.md''])
               = stat (fsys w) (path_join projectDir [''.context'', ''templates''] @ [''prp_template.md''])"
proof -
  let ?td = "path_join projectDir [''.context'', ''templates'']"
  let ?body = "\<lambda>file. if file \<noteq> ''prp_template.md'' then removeSync (path_join ?td [file]) else ret ()"
  show ?thesis
  proof (cases "stat (fsys w) ?td")
    case None
    then have "cleanupTemplateFiles projectDir w = (Return (), w)"
      by (simp add: cleanupTemplateFiles_def Let_def andThen_def existsSync_def ret_def)
    then show ?thesis by simp
  next
    case (Some n)
    with assms(2) have d: "stat (fsys w) ?td = Some Dir" by (cases n) auto
    have simple: "\<forall>file \<in> set (children (fsys w) ?td). simple_name file"
      using names_ok_child [OF assms(1)] by blast
    from cleanup_loop [OF simple, of ?td w] obtain w1
      where loop: "forEach (children (fsys w) ?td) ?body w = (Return (), w1)
           \<and> fst ` set (fsys w1) \<subseteq> fst ` set (fsys w)
           \<and> (\<forall>file \<in> set (children (fsys w) ?td). file \<noteq> ''prp_template.md''
                    \<longrightarrow> ?td @ [file] \<notin> fst ` set (fsys w1))
           \<and> (\<forall>q. stat (fsys w) q = None \<longrightarrow> stat (fsys w1) q = None)" ..
    note l = loop [THEN conjunct1]
    from keepsD [OF cleanup_loop_frame [OF simple] l]
    have "stat (fsys w1) (?td @ [''prp_template.md'']) = stat (fsys w) (?td @ [''prp_template.md''])"
      by (simp add: same_outside_def)
    moreover from d l have "cleanupTemplateFiles projectDir w
        = (Return (), w1\<lparr>stdout := stdout w1 @ [''Cleaned up template files'']\<rparr>)"
      by (simp add: cleanupTemplateFiles_def Let_def andThen_def existsSync_def readdirSync_def console_log_def)
    ultimately show ?thesis by simp
  qed
qed

subsection \<open>A run without a per-language template\<close>

lemma path_resolve_simple: "simple_name n \<Longrightarrow> path_resolve c n = c @ [n]"
proof -
  assume s: "simple_name n"
  then have "\<not> prefix ''/'' n" by (cases n) (auto simp: simple_name_def)
  with s show ?thesis
    by (simp add: path_resolve_def simple_name_def split_slash_simple)
qed

lemma andThen_step: "m w = (Return a, w1) \<Longrightarrow> f a w1 = r \<Longrightarrow> andThen m f w = r"
  by (simp add: andThen_def)

lemma report_success_run: "\<exists>w'. report_success a p w = (Return (), w') \<and> fsys w' = fsys w"
  by (simp add: report_success_def andThen_def console_log_def)

lemma llm_file_simple: "m \<in> set SUPPORTED_LLMS \<Longrightarrow> simple_name (m @ ''.md'')"
  by (auto simp: SUPPORTED_LLMS_def simple_name_def)

lemma lang_file_simple: "CHR ''/'' \<notin> set l \<Longrightarrow> simple_name (l @ ''.md'')"
  "CHR ''/'' \<notin> set l \<Longrightarrow> simple_name (''prp_template_'' @ l @ ''.md'')"
  by (cases l; auto simp: simple_name_def)+

lemma create_and_configure_succeeds:
  assumes wf: "parents_ok (fsys w1)"
    and nm: "simple_name (name a)"
            "name a \<notin> set ([''.context'', ''examples''] @ REQUIRED_FILES @ [llm a @ ''.md''])"
    and m: "llm a \<in> set SUPPORTED_LLMS"
    and cw: "stat (fsys w1) (cwd e) = Some Dir"
    and ds: "stat (fsys w1) (cwd e @ [name a]) = None"
    and sep: "\<not> prefix (tempDir e) (cwd e @ [name a])" "\<not> prefix (cwd e @ [name a]) (tempDir e)"
    and lg: "CHR ''/'' \<notin> set (lang a)"
    and nv: "stat (fsys w1) (tempDir e @ [''.context'', ''templates'', ''prp_template_'' @ lang a @ ''.md'']) = None"
    and k1: "stat (fsys w1) (tempDir e @ [''Rules'', lang a @ ''.md'']) \<noteq> Some Dir"
    and k2: "stat (fsys w1) (tempDir e @ [llm a @ ''.md'']) \<noteq> Some Dir"
  shows "\<exists>w7. create_and_configure e a (cwd e @ [name a]) w1 = (Return (), w7)
           \<and> (\<forall>rel. stat (fsys w7) ((cwd e @ [name a]) @ ''.context'' # rel)
                      = stat (fsys w1) (tempDir e @ ''.context'' # rel))"
proof -
  let ?fs1 = "fsys w1" and ?tmp = "tempDir e" and ?proj = "cwd e @ [name a]"
  let ?m = "llm a" and ?n = "name a"
  let ?S = "set [''.context'', ''examples''] \<union> set REQUIRED_FILES"
  have msim: "simple_name (?m @ ''.md'')" using m by (rule llm_file_simple)
  \<comment> \<open>the progress line and the destination directory\<close>
  let ?wa = "w1\<lparr>stdout := stdout w1 @ [''Creating project '' @ name a @ '' with '' @ lang a
                             @ '' language rules for '' @ llm a @ ''...'']\<rparr>"
  have s0: "console_log (''Creating project '' @ name a @ '' with '' @ lang a
                             @ '' language rules for '' @ llm a @ ''...'') w1 = (Return (), ?wa)"
    by (simp add: console_log_def)
  have dc: "dirs_to ?fs1 (cwd e)" using wf cw by (rule dirs_to_of_dir)
  let ?w2 = "?wa\<lparr>fsys := (?proj, Dir) # ?fs1,
                  stdout := stdout ?wa @ [''Created project directory: '' @ path_str ?proj]\<rparr>"
  have s1: "createProjectDirectory ?proj ?wa = (Return (), ?w2)"
    using mkdirs_child [OF dc ds]
    by (simp add: createProjectDirectory_def try_catch_def andThen_def mkdirSync_recursive_def console_log_def)
  have st2: "staged ?fs1 ?tmp ?proj {} {} (fsys ?w2)"
    using staged_start [OF wf dc ds] by simp
  \<comment> \<open>the copies\<close>
  from copy_all [OF st2 _ _ _ sep wf, of "[''.context'', ''examples'']" "\<lambda>dir. ''Copied '' @ dir @ '' directory''"]
  obtain w3 where c3: "copyCoreDiretories ?tmp ?proj ?w2 = (Return (), w3)
                       \<and> staged ?fs1 ?tmp ?proj {} ({} \<union> set [''.context'', ''examples'']) (fsys w3)"
    unfolding copyCoreDiretories_def Let_def by (auto simp: simple_name_def)
  note s3 = c3 [THEN conjunct1] and st3 = c3 [THEN conjunct2]
  from copy_all [OF st3 _ _ _ sep wf, of REQUIRED_FILES "\<lambda>file. ''Copied '' @ file"]
  obtain w4 where c4: "copyRequiredFiles ?tmp ?proj w3 = (Return (), w4)
                       \<and> staged ?fs1 ?tmp ?proj {} (({} \<union> set [''.context'', ''examples'']) \<union> set REQUIRED_FILES) (fsys w4)"
    unfolding copyRequiredFiles_def Let_def by (auto simp: simple_name_def REQUIRED_FILES_def)
  note s4 = c4 [THEN conjunct1]
  from c4 have st4: "staged ?fs1 ?tmp ?proj {} ?S (fsys w4)" by simp
  have mS: "?m @ ''.md'' \<notin> ?S"
    using m by (auto simp: SUPPORTED_LLMS_def REQUIRED_FILES_def)
  from guarded_copy [OF st4 mS msim sep wf, of "''Copied '' @ ?m @ ''.md''"]
  obtain w5 where c5: "copyLLMFile ?tmp ?proj ?m w4 = (Return (), w5)
                       \<and> staged ?fs1 ?tmp ?proj {} (insert (?m @ ''.md'') ?S) (fsys w5)"
    unfolding copyLLMFile_def Let_def by blast
  note s5 = c5 [THEN conjunct1] and st5 = c5 [THEN conjunct2]
  from st5 have out5: "\<And>q. \<not> prefix ?proj q \<Longrightarrow> stat (fsys w5) q = stat ?fs1 q"
    and inn5: "\<And>c rel. stat (fsys w5) (?proj @ c # rel)
                 = (if c \<in> insert (?m @ ''.md'') ?S then stat ?fs1 (?tmp @ c # rel) else None)"
    and d5: "dirs_to (fsys w5) ?proj"
    by (auto simp: staged_def)
  \<comment> \<open>step 4 finds no variant\<close>
  have pv: "path_join ?proj [''.context'', ''templates'', ''prp_template_'' @ lang a @ ''.md'']
              = ?proj @ ''.context'' # [''templates'', ''prp_template_'' @ lang a @ ''.md'']"
    using lang_file_simple(2) [OF lg] by (simp add: path_join_simples simple_name_def)
  have "stat (fsys w5) (?proj @ ''.context'' # [''templates'', ''prp_template_'' @ lang a @ ''.md'']) = None"
    using inn5 [of "''.context''" "[''templates'', ''prp_template_'' @ lang a @ ''.md'']"] nv by simp
  with pv have s6: "configurePRPTemplate ?proj (lang a) ?m w5 = (Return (), w5)"
    by (simp add: configurePRPTemplate_skips)
  \<comment> \<open>step 5\<close>
  have pr: "path_join ?tmp [''Rules'', lang a @ ''.md''] = ?tmp @ [''Rules'', lang a @ ''.md'']"
    using lang_file_simple(1) [OF lg] by (simp add: path_join_simples simple_name_def)
  have pt: "path_join ?proj [?m @ ''.md''] = ?proj @ [?m @ ''.md'']"
    using msim by (rule path_join_simple)
  have nr: "\<not> prefix ?proj (?tmp @ [''Rules'', lang a @ ''.md''])"
  proof
    assume "prefix ?proj (?tmp @ [''Rules'', lang a @ ''.md''])"
    from prefix_append_cases [OF this] sep show False by blast
  qed
  have r5: "stat (fsys w5) (?tmp @ [''Rules'', lang a @ ''.md'']) = stat ?fs1 (?tmp @ [''Rules'', lang a @ ''.md''])"
    using out5 [OF nr] .
  have t5: "stat (fsys w5) (?proj @ [?m @ ''.md'']) \<noteq> Some Dir"
    using inn5 [of "?m @ ''.md''" "[]"] k2 by simp
  have p5: "stat (fsys w5) ?proj = Some Dir" using d5 by (simp add: dirs_to_def)
  have "\<exists>w6. applyLanguageRules ?tmp ?proj (lang a) ?m w5 = (Return (), w6)
             \<and> staged ?fs1 ?tmp ?proj {?m @ ''.md''} (insert (?m @ ''.md'') ?S) (fsys w6)"
  proof (cases "stat ?fs1 (?tmp @ [''Rules'', lang a @ ''.md''])")
    case None
    with r5 have "applyLanguageRules ?tmp ?proj (lang a) ?m w5
        = (Return (), w5\<lparr>stderr := stderr w5 @ [''Warning: No language rules found for '' @ lang a]\<rparr>)"
      by (simp add: applyLanguageRules_def Let_def pr andThen_def existsSync_def console_warn_def)
    with staged_write(2) [OF st5, of "?m @ ''.md''" "{?m @ ''.md''}"] show ?thesis by simp
  next
    case (Some nd)
    with k1 obtain rules where f: "stat ?fs1 (?tmp @ [''Rules'', lang a @ ''.md'']) = Some (File rules)"
      by (cases nd) auto
    with r5 t5 p5 have "applyLanguageRules ?tmp ?proj (lang a) ?m w5
        = (Return (), w5\<lparr>fsys := (?proj @ [?m @ ''.md''], File (toString_utf8 rules)) # fsys w5,
                          stdout := stdout w5 @ [''Applied '' @ lang a @ '' rules to '' @ ?m @ ''.md'']\<rparr>)"
      by (simp add: applyLanguageRules_def Let_def pr pt andThen_def existsSync_def readFileSync_def
            writeFileSync_def console_log_def butlast_append)
    with staged_write(1) [OF st5, of "?m @ ''.md''" "{?m @ ''.md''}" "File (toString_utf8 rules)"]
    show ?thesis by simp
  qed
  then obtain w6 where c6: "applyLanguageRules ?tmp ?proj (lang a) ?m w5 = (Return (), w6)
             \<and> staged ?fs1 ?tmp ?proj {?m @ ''.md''} (insert (?m @ ''.md'') ?S) (fsys w6)" ..
  note s7 = c6 [THEN conjunct1] and st6 = c6 [THEN conjunct2]
  from st6 have inn6: "\<And>c rel. c \<noteq> ?m @ ''.md'' \<Longrightarrow> stat (fsys w6) (?proj @ c # rel)
                 = (if c \<in> insert (?m @ ''.md'') ?S then stat ?fs1 (?tmp @ c # rel) else None)"
    and d6: "dirs_to (fsys w6) ?proj"
    by (auto simp: staged_def)
  \<comment> \<open>the inner directory and git\<close>
  have ps: "path_join ?proj [?n] = ?proj @ [?n]" using nm(1) by (rule path_join_simple)
  from nm(2) have nS: "?n \<noteq> ?m @ ''.md''" "?n \<notin> insert (?m @ ''.md'') ?S" by auto
  from inn6 [OF nS(1), of "[]"] nS(2) have "stat (fsys w6) (?proj @ [?n]) = None" by simp
  from mkdirs_child [OF d6 this]
  have "mkdirSync_recursive (path_join ?proj [?n]) w6
          = (Return (), w6\<lparr>fsys := (?proj @ [?n], Dir) # fsys w6\<rparr>)"
    by (simp add: mkdirSync_recursive_def ps)
  from initializeProjectStructure_returns [OF this, of "git_ok e"]
  obtain w7 where s8: "initializeProjectStructure (git_ok e) ?proj ?n w6 = (Return (), w7)" by blast
  from keepsD [OF frame_initializeProjectStructure s8]
  have f7: "\<And>q. \<not> near (?proj @ [?n]) q \<Longrightarrow> stat (fsys w7) q = stat (fsys w6) q"
    by (simp add: same_outside_def ps)
  have run: "create_and_configure e a ?proj w1 = (Return (), w7)"
    unfolding create_and_configure_def
    apply (rule andThen_step, rule s0)
    apply (rule andThen_step, rule s1)
    apply (rule andThen_step, rule s3)
    apply (rule andThen_step, rule s4)
    apply (rule andThen_step, rule s5)
    apply (rule andThen_step, rule s6)
    apply (rule andThen_step, rule s7)
    apply (rule s8)
    done
  have "stat (fsys w7) (?proj @ ''.context'' # rel) = stat ?fs1 (?tmp @ ''.context'' # rel)" for rel
  proof -
    from nm(2) have "?n \<noteq> ''.context''" by auto
    then have "\<not> near (?proj @ [?n]) (?proj @ ''.context'' # rel)"
      by (auto simp: near_def)
    from f7 [OF this] inn6 [of "''.context''" rel] m show ?thesis
      by (auto simp: SUPPORTED_LLMS_def)
  qed
  with run show ?thesis by auto
qed


subsection \<open>What a run writes in the destination\<close>

lemma footprint_root: "prefix q proj \<Longrightarrow> destination_footprint proj m n q"
  by (simp add: destination_footprint_def)

lemma footprint_entry:
  "c \<in> set ([''.context'', ''examples''] @ REQUIRED_FILES @ [m @ ''.md'']) \<Longrightarrow> near (path_join proj [c]) q
     \<Longrightarrow> destination_footprint proj m n q"
  unfolding destination_footprint_def list_ex_iff by blast

lemma footprint_copy:
  "prefix (path_join proj [c]) q \<or> prefix q (path_join proj [c])
     \<Longrightarrow> c \<in> set ([''.context'', ''examples''] @ REQUIRED_FILES @ [m @ ''.md''])
     \<Longrightarrow> destination_footprint proj m n q"
  by (rule footprint_entry) (simp_all add: near_def)

lemma footprint_inner: "near (path_join proj [n]) q \<Longrightarrow> destination_footprint proj m n q"
  by (simp add: destination_footprint_def)

lemma footprint_prp:
  "destination_footprint proj m n (path_join proj [''.context'', ''templates'', ''prp_template.md''])"
  by (rule footprint_entry [of "''.context''"]) (simp_all add: near_def path_join_def)

lemma create_and_configure_frame:
  "keeps fsys (same_outside (destination_footprint projectDir (llm a) (name a)))
     (create_and_configure e a projectDir)"
  unfolding create_and_configure_def createProjectDirectory_def copyCoreDiretories_def
    copyRequiredFiles_def copyLLMFile_def configurePRPTemplate_def applyLanguageRules_def
    initializeProjectStructure_def Let_def
  apply (intro keeps_andThen keeps_try_catch keeps_if keeps_forEach transp_same_outside reflp_same_outside
      frame_quiet frame_mkdirSync_recursive frame_copySync frame_writeFileSync frame_git_init)
          apply (erule footprint_root)
         apply (erule footprint_copy, auto)[1]
        apply (erule footprint_copy, simp)
       apply (erule footprint_copy, simp)
      apply (rule footprint_prp)
     apply (rule footprint_entry [where c = "llm a @ ''.md''"], simp, simp add: near_def)
    apply (rule footprint_inner, simp add: near_def)
   apply (rule footprint_inner, simp add: near_def)
  done


lemma cleanupTemplateFiles_frame:
  assumes "names_ok (fsys w)" "cleanupTemplateFiles projectDir w = (r, w')"
  shows "same_outside (prefix (path_join projectDir [''.context'', ''templates''])) (fsys w) (fsys w')"
proof -
  let ?td = "path_join projectDir [''.context'', ''templates'']"
  let ?body = "\<lambda>file. if file \<noteq> ''prp_template.md'' then removeSync (path_join ?td [file]) else ret ()"
  show ?thesis
  proof (cases "stat (fsys w) ?td = Some Dir")
    case False
    with assms(2) have "fsys w' = fsys w"
      by (auto simp: cleanupTemplateFiles_def Let_def andThen_def existsSync_def readdirSync_def ret_def throw_def
            split: option.splits node.splits if_splits)
    then show ?thesis by (simp add: same_outside_def)
  next
    case True
    have simple: "\<forall>file \<in> set (children (fsys w) ?td). simple_name file"
      using names_ok_child [OF assms(1)] by blast
    obtain r1 w1 where l: "forEach (children (fsys w) ?td) ?body w = (r1, w1)"
      by (cases "forEach (children (fsys w) ?td) ?body w") blast
    from assms(2) True l have "fsys w' = fsys w1"
      by (cases r1) (auto simp: cleanupTemplateFiles_def Let_def andThen_def existsSync_def readdirSync_def
            console_log_def)
    with keepsD [OF cleanup_loop_frame [OF simple] l] show ?thesis
      by (auto simp: same_outside_def dest: append_prefixD)
  qed
qed

lemma footprint_templates:
  "prefix (path_join proj [''.context'', ''templates'']) q \<Longrightarrow> destination_footprint proj m n q"
proof (rule footprint_entry [of "''.context''"])
  assume "prefix (path_join proj [''.context'', ''templates'']) q"
  then have "prefix ((proj @ [''.context'']) @ [''templates'']) q"
    by (simp add: path_join_def)
  from append_prefixD [OF this] show "near (path_join proj [''.context'']) q"
    by (simp add: near_def path_join_def)
qed simp

lemma main_frame:
  assumes run: "run (main e) (init_world fs) = (0, w')" and u: "\<not> asks_usage (argv e)"
    and ok: "names_ok fs" "path_ok (cwd e)" "path_ok (tempDir e)"
      "case remote e of None \<Rightarrow> True | Some tree \<Rightarrow> names_ok tree"
  shows "\<exists>a w1. setup_phase e (init_world fs) = (Return a, w1)
           \<and> stat (fsys w1) (path_resolve (cwd e) (name a)) = None
           \<and> same_outside (\<lambda>q. near (tempDir e) q
                  \<or> destination_footprint (path_resolve (cwd e) (name a)) (llm a) (name a) q) fs (fsys w')"
proof -
  from main_success [OF run u] obtain w5
    where f: "main_try e (init_world fs) = (Return (), w5)
           \<and> w' = w5\<lparr>fsys := remove_tree (fsys w5) (tempDir e),
                      stdout := stdout w5 @ [''Cleaned up temporary files'']\<rparr>" ..
  from main_try_Return [OF f [THEN conjunct1]] obtain a w1 w2 w3 w4
    where g: "setup_phase e (init_world fs) = (Return a, w1)
           \<and> validateProjectDirectory (path_resolve (cwd e) (name a)) w1 = (Return (), w2)
           \<and> create_and_configure e a (path_resolve (cwd e) (name a)) w2 = (Return (), w3)
           \<and> cleanupTemplateFiles (path_resolve (cwd e) (name a)) w3 = (Return (), w4)
           \<and> report_success a (path_resolve (cwd e) (name a)) w4 = (Return (), w5)" by blast
  let ?proj = "path_resolve (cwd e) (name a)"
  let ?F = "\<lambda>q. near (tempDir e) q \<or> destination_footprint ?proj (llm a) (name a) q"
  note s = g [THEN conjunct1] and v = g [THEN conjunct2, THEN conjunct1]
    and c = g [THEN conjunct2, THEN conjunct2, THEN conjunct1]
    and t = g [THEN conjunct2, THEN conjunct2, THEN conjunct2, THEN conjunct1]
    and r = g [THEN conjunct2, THEN conjunct2, THEN conjunct2, THEN conjunct2]
  have free: "stat (fsys w1) ?proj = None"
  proof (rule ccontr)
    assume "stat (fsys w1) ?proj \<noteq> None"
    from validate_throws [OF this] v show False by auto
  qed
  have n1: "names_ok (fsys w1)"
    using keepsD [OF setup_phase_names [OF ok(3,4)] s] ok(1) by (simp add: inv_rel_def init_world_def)
  have n2: "names_ok (fsys w2)"
    using keepsD [OF validate_names v] n1 by (simp add: inv_rel_def)
  have n3: "names_ok (fsys w3)"
    using keepsD [OF create_and_configure_names [OF ok(3) path_resolve_ok [OF ok(2)]] c] n2
    by (simp add: inv_rel_def)
  have 1: "same_outside ?F fs (fsys w1)"
    using keepsD [OF setup_phase_frame s] by (simp add: same_outside_def init_world_def)
  have 2: "fsys w2 = fsys w1"
    using keepsD [OF validate_quiet(1) v] by simp
  have 3: "same_outside ?F (fsys w2) (fsys w3)"
    using keepsD [OF create_and_configure_frame c] by (simp add: same_outside_def)
  have 4: "same_outside ?F (fsys w3) (fsys w4)"
    using cleanupTemplateFiles_frame [OF n3 t] footprint_templates [of ?proj _ "llm a" "name a"]
    unfolding same_outside_def by blast
  have 5: "fsys w5 = fsys w4"
    using keepsD [OF report_success_quiet(1) r] by simp
  have 6: "same_outside ?F (fsys w5) (fsys w')"
    unfolding f [THEN conjunct2] by (simp add: same_outside_def stat_remove_tree near_def)
  from 1 2 3 4 5 6 have "same_outside ?F fs (fsys w')"
    by (simp add: same_outside_def)
  with s free show ?thesis by blast
qed

lemma footprint_other:
  assumes "simple_name n" "m \<in> set SUPPORTED_LLMS" "other \<in> set SUPPORTED_LLMS" "other \<noteq> m"
    "n \<noteq> other @ ''.md''"
  shows "\<not> destination_footprint (c @ [n]) m n (c @ [n, other @ ''.md''])"
proof -
  have "path_join (c @ [n]) [x] = c @ [n, x]" if "simple_name x" for x
    using that by (simp add: path_join_simple)
  moreover have "list_all simple_name ([''.context'', ''examples''] @ REQUIRED_FILES @ [m @ ''.md''])"
    using assms(2) by (auto simp: REQUIRED_FILES_def SUPPORTED_LLMS_def simple_name_def)
  ultimately show ?thesis
    using assms unfolding destination_footprint_def list_ex_iff near_def
    by (auto simp: list_all_iff REQUIRED_FILES_def SUPPORTED_LLMS_def)
qed

lemma original_build_frame:
  assumes "CHR ''/'' \<notin> set (lang a)" "llm a \<in> set SUPPORTED_LLMS"
  shows "keeps fsys (same_outside (\<lambda>q. near (tempDir e) q
            \<or> destination_footprint (path_resolve (cwd e) (name a)) (llm a) (name a) q))
          (original_build e a)"
  unfolding original_build_def original_copy_def original_prp_def original_rules_def Let_def
  apply (intro keeps_andThen keeps_if transp_same_outside reflp_same_outside
      frame_quiet frame_mkdirSync frame_copySync frame_writeFileSync frame_git_init frame_removeSync)
  apply (rule disjI2, rule footprint_root, simp)
                apply (rule disjI2, erule footprint_copy, simp)
               apply (rule disjI2, erule footprint_copy, simp)
              apply (rule disjI2, erule footprint_copy, simp)
             apply (rule disjI2, erule footprint_copy, use assms(2) in \<open>simp add: SUPPORTED_LLMS_def\<close>)
            apply (rule disjI2, erule footprint_copy, simp add: REQUIRED_FILES_def)
           apply (rule disjI2, erule footprint_copy, simp add: REQUIRED_FILES_def)
          apply (rule disjI2, erule footprint_copy, simp add: REQUIRED_FILES_def)
         apply (rule disjI2, rule footprint_prp)
        apply (rule disjI1, use assms(1) in \<open>simp add: near_def path_join_simples lang_file_simple simple_name_def\<close>)
       apply (rule disjI1, use assms(1) in \<open>simp add: near_def path_join_simples lang_file_simple simple_name_def\<close>)
      apply (rule disjI2, rule footprint_inner, simp add: near_def)
     apply (rule disjI2, rule footprint_inner, simp add: near_def)
    apply (rule disjI1, simp add: near_def)
  done

lemma original_script_frame:
  assumes run: "run (original_script e) (init_world fs) = (0, w')" and u: "\<not> asks_usage (argv e)"
    and l: "raw_lang (argv e) = Some l" "CHR ''/'' \<notin> set l"
  shows "\<exists>a w1. original_setup e (init_world fs) = (Return a, w1)
           \<and> original_build e a w1 = (Return (), w')
           \<and> stat (fsys w1) (path_resolve (cwd e) (name a)) = None
           \<and> same_outside (\<lambda>q. near (tempDir e) q
                  \<or> destination_footprint (path_resolve (cwd e) (name a)) (llm a) (name a) q) fs (fsys w')"
proof -
  from run_success [OF original_script_exits [OF u] run]
  have "original_script e (init_world fs) = (Return (), w')" .
  from andThen_Return [OF this [unfolded original_script_def]] obtain a w1
    where s: "original_setup e (init_world fs) = (Return a, w1)"
      and b: "original_build e a w1 = (Return (), w')" by blast
  let ?proj = "path_resolve (cwd e) (name a)"
  let ?F = "\<lambda>q. near (tempDir e) q \<or> destination_footprint ?proj (llm a) (name a) q"
  from yieldsD [OF original_setup_yields s] l
  have la: "CHR ''/'' \<notin> set (lang a)" and m: "llm a \<in> set SUPPORTED_LLMS" by auto
  have free: "stat (fsys w1) ?proj = None"
  proof (rule ccontr)
    assume "stat (fsys w1) ?proj \<noteq> None"
    with b show False
      by (simp add: original_build_def Let_def andThen_def mkdirSync_def)
  qed
  have 1: "same_outside ?F fs (fsys w1)"
    using keepsD [OF original_setup_frame s] by (simp add: same_outside_def init_world_def)
  have 2: "same_outside ?F (fsys w1) (fsys w')"
    using keepsD [OF original_build_frame [OF la m] b] .
  from 1 2 have "same_outside ?F fs (fsys w')"
    by (simp add: same_outside_def)
  with s b free show ?thesis by blast
qed

subsection \<open>What exists keeps existing\<close>

lemma lasts_writeFileSync: "keeps fsys (inv_rel (\<lambda>fs. stat fs q \<noteq> None)) (writeFileSync p c)"
  by (auto simp: keeps_def inv_rel_def writeFileSync_def stat_Cons split: if_splits)

lemma lasts_mkdirSync: "keeps fsys (inv_rel (\<lambda>fs. stat fs q \<noteq> None)) (mkdirSync p)"
  by (auto simp: keeps_def inv_rel_def mkdirSync_def stat_Cons split: if_splits)

lemma lasts_mkdirSync_recursive: "keeps fsys (inv_rel (\<lambda>fs. stat fs q \<noteq> None)) (mkdirSync_recursive p)"
  by (auto simp: keeps_def inv_rel_def mkdirSync_recursive_def split: sum.splits dest: mkdirs_grows)

lemma lasts_git_init: "keeps fsys (inv_rel (\<lambda>fs. stat fs q \<noteq> None)) (git_init ok dir)"
  by (auto simp: keeps_def inv_rel_def git_init_def stat_Cons split: if_splits)

lemma lasts_removeSync:
  "\<not> prefix p q \<Longrightarrow> keeps fsys (inv_rel (\<lambda>fs. stat fs q \<noteq> None)) (removeSync p)"
  by (auto simp: keeps_def inv_rel_def removeSync_def stat_remove_tree split: if_splits)


lemma lasts_copySync: "keeps fsys (inv_rel (\<lambda>fs. stat fs q \<noteq> None)) (copySync src dst)"
proof (rule keepsI)
  fix w r w'
  assume run: "copySync src dst w = (r, w')"
  from copySync_cases [OF run]
  show "inv_rel (\<lambda>fs. stat fs q \<noteq> None) (fsys w) (fsys w')"
  proof
    assume "w' = w \<and> (\<exists>e. r = Throw e)"
    then show ?thesis by (simp add: inv_rel_def)
  next
    assume "\<exists>n fs'. r = Return () \<and> stat (fsys w) src = Some n \<and> src \<noteq> dst
             \<and> \<not> (n = Dir \<and> prefix src dst)
             \<and> \<not> copy_conflict (fsys w) ((dst, n) # copy_entries (fsys w) src dst)
             \<and> mkdirs [] (butlast dst) (fsys w) = Inr fs'
             \<and> w' = w\<lparr>fsys := (dst, n) # copy_entries (fsys w) src dst @ fs'\<rparr>"
    then obtain n fs' where m: "mkdirs [] (butlast dst) (fsys w) = Inr fs'"
      and w': "w' = w\<lparr>fsys := (dst, n) # copy_entries (fsys w) src dst @ fs'\<rparr>" by blast
    show ?thesis
      unfolding inv_rel_def w' using mkdirs_grows [OF m, of q]
      by (simp add: stat_Cons stat_append split: option.splits)
  qed
qed

lemma ensures_copySync: "ensures (\<lambda>w. stat (fsys w) dst \<noteq> None) (copySync src dst)"
  unfolding ensures_def
proof (intro allI impI)
  fix w a w'
  assume "copySync src dst w = (Return a, w')"
  from copySync_cases [OF this] show "stat (fsys w') dst \<noteq> None"
    by (auto simp: stat_Cons)
qed

lemmas lasts_quiet =
  keeps_eq_weaken [OF reflp_inv_rel quiet_console(1)]
  keeps_eq_weaken [OF reflp_inv_rel quiet_console(2)]
  keeps_eq_weaken [OF reflp_inv_rel quiet_console(3)]
  keeps_eq_weaken [OF reflp_inv_rel quiet_reads(1)]
  keeps_eq_weaken [OF reflp_inv_rel quiet_reads(2)]
  keeps_eq_weaken [OF reflp_inv_rel quiet_reads(3)]
  keeps_ret [OF reflp_inv_rel] keeps_throw [OF reflp_inv_rel]

lemmas lasts_rules =
  keeps_andThen keeps_try_catch keeps_if keeps_forEach transp_inv_rel reflp_inv_rel lasts_quiet
  lasts_writeFileSync lasts_mkdirSync lasts_mkdirSync_recursive lasts_copySync lasts_git_init

lemma original_copy_ensures:
  assumes "m \<in> set SUPPORTED_LLMS"
  shows "ensures (\<lambda>w. stat (fsys w) (path_join projectDir [m @ ''.md'']) \<noteq> None)
           (original_copy templateDir projectDir m)"
  unfolding original_copy_def
  apply (rule ensures_last, rule ensures_last)
  apply (rule ensures_first [where proj = fsys
        and R = "inv_rel (\<lambda>fs. stat fs (path_join projectDir [m @ ''.md'']) \<noteq> None)"])
    apply (use assms ensures_copySync [of "path_join projectDir [''CLAUDE.md'']"]
        ensures_copySync [of "path_join projectDir [''GEMINI.md'']"] in \<open>auto simp: SUPPORTED_LLMS_def\<close>)[1]
   apply (intro lasts_rules)
  apply (simp add: inv_rel_def)
  done

lemma original_build_branding:
  assumes "llm a \<in> set SUPPORTED_LLMS"
    and "\<not> prefix (tempDir e) (path_join (path_resolve (cwd e) (name a)) [llm a @ ''.md''])"
  shows "ensures (\<lambda>w. stat (fsys w) (path_join (path_resolve (cwd e) (name a)) [llm a @ ''.md'']) \<noteq> None)
           (original_build e a)"
  unfolding original_build_def Let_def
  apply (rule ensures_last)
  apply (rule ensures_first [where proj = fsys
        and R = "inv_rel (\<lambda>fs. stat fs (path_join (path_resolve (cwd e) (name a)) [llm a @ ''.md'']) \<noteq> None)"])
    apply (rule original_copy_ensures [OF assms(1)])
   apply (unfold original_prp_def original_rules_def Let_def)
   apply (intro lasts_rules lasts_removeSync assms(2))
  apply (simp add: inv_rel_def)
  done


subsection \<open>The branding file of the refactored script\<close>

lemmas footprint_rules =
  keeps_andThen keeps_try_catch keeps_if keeps_forEach transp_same_outside reflp_same_outside
  frame_quiet frame_mkdirSync_recursive frame_copySync

lemma createProjectDirectory_frame:
  "keeps fsys (same_outside (destination_footprint projectDir m n)) (createProjectDirectory projectDir)"
  unfolding createProjectDirectory_def
  by (intro footprint_rules) (erule footprint_root)

lemma copyCoreDiretories_frame:
  "keeps fsys (same_outside (destination_footprint projectDir m n)) (copyCoreDiretories t projectDir)"
  unfolding copyCoreDiretories_def Let_def
  by (intro footprint_rules) (erule footprint_copy, auto)

lemma copyRequiredFiles_frame:
  "keeps fsys (same_outside (destination_footprint projectDir m n)) (copyRequiredFiles t projectDir)"
  unfolding copyRequiredFiles_def Let_def
  by (intro footprint_rules) (erule footprint_copy, simp)

lemma copyLLMFile_frame:
  "keeps fsys (same_outside (near (path_join projectDir [m @ ''.md'']))) (copyLLMFile t projectDir m)"
  unfolding copyLLMFile_def Let_def
  by (intro footprint_rules) (simp add: near_def)

lemma copyLLMFile_copies:
  assumes "copyLLMFile t projectDir m w = (Return (), w')"
    and "stat (fsys w) (path_join t [m @ ''.md'']) \<noteq> None"
  shows "stat (fsys w') (path_join projectDir [m @ ''.md'']) \<noteq> None"
proof -
  from assms have "andThen (copySync (path_join t [m @ ''.md'']) (path_join projectDir [m @ ''.md'']))
                     (\<lambda>_. console_log (''Copied '' @ m @ ''.md'')) w = (Return (), w')"
    by (simp add: copyLLMFile_def Let_def andThen_def existsSync_def)
  from andThen_Return_unit [OF this] obtain u
    where c: "copySync (path_join t [m @ ''.md'']) (path_join projectDir [m @ ''.md'']) w = (Return (), u)"
      and l: "console_log (''Copied '' @ m @ ''.md'') u = (Return (), w')" by blast
  from keepsD [OF quiet_console(1) l] ensuresD [OF ensures_copySync c] show ?thesis
    by simp
qed

lemma configuration_lasts:
  "keeps fsys (inv_rel (\<lambda>fs. stat fs q \<noteq> None))
     (andThen (configurePRPTemplate projectDir l m) (\<lambda>_.
      andThen (applyLanguageRules t projectDir l m) (\<lambda>_.
        initializeProjectStructure ok projectDir n)))"
  unfolding configurePRPTemplate_def applyLanguageRules_def initializeProjectStructure_def Let_def
  by (intro lasts_rules)

lemma near_below: "near t (p @ x) \<Longrightarrow> near t p \<or> prefix p t"
  by (auto simp: near_def prefix_append dest: append_prefixD)

lemma far_apart: "\<not> near t p \<Longrightarrow> \<not> near (p @ y) (t @ x)"
  unfolding near_def
  by (metis append_prefixD prefix_append prefix_same_cases prefixI)

lemma footprint_entries_simple:
  "m \<in> set SUPPORTED_LLMS \<Longrightarrow> list_all simple_name ([''.context'', ''examples''] @ REQUIRED_FILES @ [m @ ''.md''])"
  by (auto simp: REQUIRED_FILES_def SUPPORTED_LLMS_def simple_name_def)

lemma footprint_far:
  assumes "\<not> near t proj" "simple_name n" "m \<in> set SUPPORTED_LLMS"
  shows "\<not> destination_footprint proj m n (t @ x)"
proof -
  from assms(1) have "\<not> prefix (t @ x) proj"
    by (auto simp: near_def dest: append_prefixD)
  moreover have "\<not> near (path_join proj [c]) (t @ x)" if "simple_name c" for c
    using far_apart [OF assms(1), of "[c]" x] that by (simp add: path_join_simple)
  ultimately show ?thesis
    using footprint_entries_simple [OF assms(3)] assms(2)
    unfolding destination_footprint_def list_ex_iff list_all_iff by blast
qed

lemma main_branding:
  assumes run: "run (main e) (init_world fs) = (0, w')" and u: "\<not> asks_usage (argv e)"
    and ok: "names_ok fs" "path_ok (cwd e)" "path_ok (tempDir e)"
      "case remote e of None \<Rightarrow> True | Some tree \<Rightarrow> names_ok tree"
    and s: "setup_phase e (init_world fs) = (Return a, w1)"
    and src: "stat (fsys w1) (tempDir e @ [llm a @ ''.md'']) \<noteq> None"
    and n: "simple_name (name a)"
    and far: "\<not> near (tempDir e) (cwd e @ [name a])"
  shows "stat (fsys w') (cwd e @ [name a, llm a @ ''.md'']) \<noteq> None"
proof -
  let ?proj = "cwd e @ [name a]"
  let ?m = "llm a"
  let ?q = "?proj @ [?m @ ''.md'']"
  from yieldsD [OF setup_phase_yields s] have m: "?m \<in> set SUPPORTED_LLMS" by simp
  note ms = llm_file_simple [OF m]
  have pr: "path_resolve (cwd e) (name a) = ?proj" by (rule path_resolve_simple [OF n])
  from main_success [OF run u] obtain w5
    where f: "main_try e (init_world fs) = (Return (), w5)
           \<and> w' = w5\<lparr>fsys := remove_tree (fsys w5) (tempDir e),
                      stdout := stdout w5 @ [''Cleaned up temporary files'']\<rparr>" ..
  from main_try_Return [OF f [THEN conjunct1]] s obtain w2 w3 w4
    where g: "validateProjectDirectory ?proj w1 = (Return (), w2)
           \<and> create_and_configure e a ?proj w2 = (Return (), w3)
           \<and> cleanupTemplateFiles ?proj w3 = (Return (), w4)
           \<and> report_success a ?proj w4 = (Return (), w5)" by (auto simp: pr)
  note v = g [THEN conjunct1] and c = g [THEN conjunct2, THEN conjunct1]
    and t = g [THEN conjunct2, THEN conjunct2, THEN conjunct1]
    and r = g [THEN conjunct2, THEN conjunct2, THEN conjunct2]
  have n1: "names_ok (fsys w1)"
    using keepsD [OF setup_phase_names [OF ok(3,4)] s] ok(1) by (simp add: inv_rel_def init_world_def)
  have n2: "names_ok (fsys w2)"
    using keepsD [OF validate_names v] n1 by (simp add: inv_rel_def)
  have po: "path_ok ?proj" using ok(2) n by simp
  have n3: "names_ok (fsys w3)"
    using keepsD [OF create_and_configure_names [OF ok(3) po] c] n2
    by (simp add: inv_rel_def)
  have 2: "fsys w2 = fsys w1"
    using keepsD [OF validate_quiet(1) v] by simp
  from andThen_Return_unit [OF c [unfolded create_and_configure_def]] obtain u1
    where a1: "console_log (''Creating project '' @ name a @ '' with '' @ lang a
                             @ '' language rules for '' @ llm a @ ''...'') w2 = (Return (), u1)"
      and b1: "andThen (createProjectDirectory ?proj) (\<lambda>_.
     andThen (copyCoreDiretories (tempDir e) ?proj) (\<lambda>_.
     andThen (copyRequiredFiles (tempDir e) ?proj) (\<lambda>_.
     andThen (copyLLMFile (tempDir e) ?proj (llm a)) (\<lambda>_.
     andThen (configurePRPTemplate ?proj (lang a) (llm a)) (\<lambda>_.
     andThen (applyLanguageRules (tempDir e) ?proj (lang a) (llm a)) (\<lambda>_.
       initializeProjectStructure (git_ok e) ?proj (name a))))))) u1 = (Return (), w3)" by blast
  from andThen_Return_unit [OF b1] obtain u2
    where a2: "createProjectDirectory ?proj u1 = (Return (), u2)"
      and b2: "andThen (copyCoreDiretories (tempDir e) ?proj) (\<lambda>_.
     andThen (copyRequiredFiles (tempDir e) ?proj) (\<lambda>_.
     andThen (copyLLMFile (tempDir e) ?proj (llm a)) (\<lambda>_.
     andThen (configurePRPTemplate ?proj (lang a) (llm a)) (\<lambda>_.
     andThen (applyLanguageRules (tempDir e) ?proj (lang a) (llm a)) (\<lambda>_.
       initializeProjectStructure (git_ok e) ?proj (name a)))))) u2 = (Return (), w3)" by blast
  from andThen_Return_unit [OF b2] obtain u3
    where a3: "copyCoreDiretories (tempDir e) ?proj u2 = (Return (), u3)"
      and b3: "andThen (copyRequiredFiles (tempDir e) ?proj) (\<lambda>_.
     andThen (copyLLMFile (tempDir e) ?proj (llm a)) (\<lambda>_.
     andThen (configurePRPTemplate ?proj (lang a) (llm a)) (\<lambda>_.
     andThen (applyLanguageRules (tempDir e) ?proj (lang a) (llm a)) (\<lambda>_.
       initializeProjectStructure (git_ok e) ?proj (name a))))) u3 = (Return (), w3)" by blast
  from andThen_Return_unit [OF b3] obtain u4
    where a4: "copyRequiredFiles (tempDir e) ?proj u3 = (Return (), u4)"
      and b4: "andThen (copyLLMFile (tempDir e) ?proj (llm a)) (\<lambda>_.
     andThen (configurePRPTemplate ?proj (lang a) (llm a)) (\<lambda>_.
     andThen (applyLanguageRules (tempDir e) ?proj (lang a) (llm a)) (\<lambda>_.
       initializeProjectStructure (git_ok e) ?proj (name a)))) u4 = (Return (), w3)" by blast
  from andThen_Return_unit [OF b4] obtain u5
    where a5: "copyLLMFile (tempDir e) ?proj (llm a) u4 = (Return (), u5)"
      and b5: "andThen (configurePRPTemplate ?proj (lang a) (llm a)) (\<lambda>_.
     andThen (applyLanguageRules (tempDir e) ?proj (lang a) (llm a)) (\<lambda>_.
       initializeProjectStructure (git_ok e) ?proj (name a))) u5 = (Return (), w3)" by blast
  note out = footprint_far [OF far n m, of "[?m @ ''.md'']"]
  have "stat (fsys u4) (tempDir e @ [?m @ ''.md'']) = stat (fsys w1) (tempDir e @ [?m @ ''.md''])"
    using keepsD [OF quiet_console(1) a1] keepsD [OF createProjectDirectory_frame a2, of ?m "name a"]
      keepsD [OF copyCoreDiretories_frame a3, of ?m "name a"]
      keepsD [OF copyRequiredFiles_frame a4, of ?m "name a"] out 2
    by (simp add: same_outside_def)
  with src have "stat (fsys u4) (path_join (tempDir e) [?m @ ''.md'']) \<noteq> None"
    by (simp add: path_join_simple [OF ms])
  from copyLLMFile_copies [OF a5 this] have "stat (fsys u5) ?q \<noteq> None"
    by (simp add: path_join_simple [OF ms])
  with keepsD [OF configuration_lasts b5, of ?q] have "stat (fsys w3) ?q \<noteq> None"
    by (simp add: inv_rel_def)
  moreover have "\<not> prefix (path_join ?proj [''.context'', ''templates'']) ?q"
    by (simp add: path_join_def)
  ultimately have "stat (fsys w4) ?q \<noteq> None"
    using cleanupTemplateFiles_frame [OF n3 t] by (simp add: same_outside_def)
  moreover have "fsys w5 = fsys w4"
    using keepsD [OF report_success_quiet(1) r] by simp
  moreover have "\<not> prefix (tempDir e) ?q"
    using near_below [of "tempDir e" ?proj "[?m @ ''.md'']"] far
    by (auto simp: near_def)
  ultimately show ?thesis
    unfolding f [THEN conjunct2] by (simp add: stat_remove_tree)
qed

lemma replace_first_plain: "x \<notin> set s \<Longrightarrow> x \<notin> set (replace_first pat [] s)"
  by (induction s) (auto dest: in_set_dropD)

lemma original_lang_plain:
  assumes s: "original_setup e (init_world fs) = (Return a, w1)"
    and ok: "names_ok fs" "path_ok (tempDir e)" "case remote e of None \<Rightarrow> True | Some tree \<Rightarrow> names_ok tree"
  shows "CHR ''/'' \<notin> set (lang a)"
proof -
  let ?rules = "path_join (tempDir e) [''Rules'']"
  from discovered_of_original_setup [OF s] obtain langs w
    where d: "original_discover e (init_world fs) = (Return langs, w)" and l: "lang a \<in> set langs"
    by blast
  from andThen_Return [OF d [unfolded original_discover_def]] obtain u wa
    where c: "git_clone (remote e) (tempDir e) (init_world fs) = (Return u, wa)"
      and r: "andThen (readdirSync ?rules)
                (\<lambda>files. ret (map (\<lambda>file. replace_first ''.md'' [] file)
                                (filter (\<lambda>file. endsWith file ''.md'') files))) wa = (Return langs, w)"
    by blast
  from andThen_Return [OF r] obtain files wb
    where f: "readdirSync ?rules wa = (Return files, wb)"
      and g: "ret (map (\<lambda>file. replace_first ''.md'' [] file)
                    (filter (\<lambda>file. endsWith file ''.md'') files)) wb = (Return langs, w)"
    by blast
  have "names_ok (fsys wa)"
    using keepsD [OF names_git_clone [OF ok(2,3)] c] ok(1) by (simp add: inv_rel_def init_world_def)
  moreover from f have "files = children (fsys wa) ?rules"
    by (auto simp: readdirSync_def ret_def throw_def split: option.splits node.splits)
  ultimately have "\<forall>file \<in> set files. simple_name file"
    using names_ok_child by blast
  moreover from g have "langs = map (\<lambda>file. replace_first ''.md'' [] file)
                                  (filter (\<lambda>file. endsWith file ''.md'') files)"
    by (simp add: ret_def)
  ultimately show ?thesis
    using l replace_first_plain [of "CHR ''/''" _ "''.md''"] by (auto simp: simple_name_def)
qed


subsection \<open>A run of the original script without a per-language template\<close>

lemma cloneRepository_Return:
  assumes "cloneRepository rem tmp w = (Return u, wc)"
  shows "\<exists>wg. git_clone rem tmp w = (Return (), wg) \<and> fsys wc = fsys wg"
proof -
  obtain rg wg where gc: "git_clone rem tmp w = (rg, wg)"
    by (cases "git_clone rem tmp w")
  show ?thesis
  proof (cases rg)
    case (Return x)
    with gc assms show ?thesis
      by (auto simp add: cloneRepository_def try_catch_def andThen_def console_log_def git_clone_stdout)
  next
    case (Throw x)
    with gc assms show ?thesis
      by (simp add: cloneRepository_def try_catch_def andThen_def console_log_def git_clone_stdout throw_def)
  next
    case (Exit x)
    with gc assms show ?thesis
      by (simp add: cloneRepository_def try_catch_def andThen_def console_log_def git_clone_stdout)
  qed
qed


lemma getAvailableLanguages_Return:
  assumes "getAvailableLanguages tmp w = (Return langs, wd)"
  shows "wd = w" and "stat (fsys w) (path_join tmp [''Rules'']) = Some Dir"
    and "langs = map (\<lambda>file. replace_first ''.md'' [] file)
                      (filter (\<lambda>file. endsWith file ''.md'') (children (fsys w) (path_join tmp [''Rules''])))"
proof -
  let ?rules = "path_join tmp [''Rules'']"
  have d: "stat (fsys w) ?rules = Some Dir"
  proof (cases "stat (fsys w) ?rules")
    case None
    with assms show ?thesis
      by (simp add: getAvailableLanguages_def Let_def andThen_def existsSync_def throw_def)
  next
    case (Some nd)
    with assms show ?thesis
      by (cases nd) (simp_all add: getAvailableLanguages_def Let_def andThen_def existsSync_def readdirSync_def)
  qed
  then show "stat (fsys w) ?rules = Some Dir" .
  from assms d show "wd = w"
    by (auto simp add: getAvailableLanguages_def Let_def andThen_def existsSync_def readdirSync_def ret_def
          throw_def split: if_splits)
  from assms d show "langs = map (\<lambda>file. replace_first ''.md'' [] file)
                      (filter (\<lambda>file. endsWith file ''.md'') (children (fsys w) ?rules))"
    by (auto simp add: getAvailableLanguages_def Let_def andThen_def existsSync_def readdirSync_def ret_def
          throw_def split: if_splits)
qed


lemma yargs_parse_Return:
  assumes "yargs_parse st ls ms r w = (Return a, w')"
  shows "w' = w" and "yargs_parse False ls ms r u = (Return a, u)"
  using assms
  by (auto simp: yargs_parse_def Let_def ret_def andThen_def console_error_def console_log_def
        process_exit_def split: option.splits if_splits)

lemma original_setup_of_setup_phase:
  assumes "setup_phase e (init_world fs) = (Return a, w1)"
  shows "\<exists>w1'. original_setup e (init_world fs) = (Return a, w1') \<and> fsys w1' = fsys w1"
proof -
  let ?rules = "path_join (tempDir e) [''Rules'']"
  from andThen_Return [OF assms [unfolded setup_phase_def]] obtain u wc
    where c: "cloneRepository (remote e) (tempDir e) (init_world fs) = (Return u, wc)"
      and r: "andThen (getAvailableLanguages (tempDir e)) (\<lambda>ls. parseArguments ls (argv e)) wc = (Return a, w1)"
    by blast
  from andThen_Return [OF r] obtain langs wd
    where g: "getAvailableLanguages (tempDir e) wc = (Return langs, wd)"
      and p: "parseArguments langs (argv e) wd = (Return a, w1)"
    by blast
  from cloneRepository_Return [OF c] obtain wg
    where gc: "git_clone (remote e) (tempDir e) (init_world fs) = (Return (), wg)" and fg: "fsys wc = fsys wg"
    by blast
  note k = getAvailableLanguages_Return [OF g]
  from gc k(2,3) fg have "original_discover e (init_world fs) = (Return langs, wg)"
    by (simp add: original_discover_def andThen_def readdirSync_def ret_def)
  moreover note y = yargs_parse_Return(1) [OF p [unfolded parseArguments_def]]
    yargs_parse_Return(2) [OF p [unfolded parseArguments_def], of wg]
  from y(2) have "yargs_parse False langs [''GEMINI'', ''CLAUDE''] (argv e) wg = (Return a, wg)"
    by (simp add: SUPPORTED_LLMS_def)
  ultimately have "original_setup e (init_world fs) = (Return a, wg)"
    by (simp add: original_setup_def andThen_def)
  with fg k(1) y(1) show ?thesis by simp
qed

lemma plain_copy:
  assumes st: "staged fs1 tmp proj {} S (fsys w)" and c: "c \<notin> S" "simple_name c"
    and sep: "\<not> prefix tmp proj" "\<not> prefix proj tmp" and ok: "parents_ok fs1"
    and src: "stat fs1 (tmp @ [c]) \<noteq> None"
  shows "\<exists>w'. copySync (path_join tmp [c]) (path_join proj [c]) w = (Return (), w')
              \<and> staged fs1 tmp proj {} (insert c S) (fsys w')"
proof -
  from guarded_copy [OF st c sep ok, of "[]"] obtain w1
    where g: "andThen (existsSync (path_join tmp [c]))
                (\<lambda>ex. if ex then andThen (copySync (path_join tmp [c]) (path_join proj [c]))
                                   (\<lambda>_. console_log [])
                       else ret ()) w = (Return (), w1)
              \<and> staged fs1 tmp proj {} (insert c S) (fsys w1)" ..
  have "\<not> prefix proj (tmp @ [c])"
  proof
    assume "prefix proj (tmp @ [c])"
    from prefix_append_cases [OF this] sep show False by blast
  qed
  with st have "stat (fsys w) (tmp @ [c]) = stat fs1 (tmp @ [c])"
    by (simp add: staged_def)
  with src have "stat (fsys w) (path_join tmp [c]) \<noteq> None"
    by (simp add: path_join_simple [OF c(2)])
  with g [THEN conjunct1] have "andThen (copySync (path_join tmp [c]) (path_join proj [c]))
                                   (\<lambda>_. console_log []) w = (Return (), w1)"
    by (simp add: andThen_def existsSync_def)
  from andThen_Return_unit [OF this] obtain u
    where k: "copySync (path_join tmp [c]) (path_join proj [c]) w = (Return (), u)"
      and "console_log [] u = (Return (), w1)" by blast
  from keepsD [OF quiet_console(1) this(2)] have "fsys u = fsys w1" by simp
  with k g [THEN conjunct2] show ?thesis by simp
qed


lemma original_build_succeeds:
  assumes wf: "parents_ok (fsys w1)"
    and nm: "simple_name (name a)"
            "name a \<notin> set ([''.context'', ''examples''] @ REQUIRED_FILES @ [llm a @ ''.md''])"
    and m: "llm a \<in> set SUPPORTED_LLMS"
    and cw: "stat (fsys w1) (cwd e) = Some Dir"
    and ds: "stat (fsys w1) (cwd e @ [name a]) = None"
    and sep: "\<not> prefix (tempDir e) (cwd e @ [name a])" "\<not> prefix (cwd e @ [name a]) (tempDir e)"
    and lg: "CHR ''/'' \<notin> set (lang a)"
    and nv: "stat (fsys w1) (tempDir e @ [''.context'', ''templates'', ''prp_template_'' @ lang a @ ''.md'']) = None"
    and k1: "stat (fsys w1) (tempDir e @ [''Rules'', lang a @ ''.md'']) \<noteq> Some Dir"
    and git: "git_ok e"
    and req: "list_all (\<lambda>c. stat (fsys w1) (tempDir e @ [c]) \<noteq> None)
                ([''.context'', ''examples''] @ REQUIRED_FILES @ [llm a @ ''.md''])"
  shows "\<exists>w'. original_build e a w1 = (Return (), w')
           \<and> (\<forall>rel. stat (fsys w') ((cwd e @ [name a]) @ ''.context'' # rel)
                      = stat (fsys w1) (tempDir e @ ''.context'' # rel))"
proof -
  let ?fs1 = "fsys w1" and ?tmp = "tempDir e" and ?proj = "cwd e @ [name a]"
  let ?m = "llm a" and ?n = "name a"
  have msim: "simple_name (?m @ ''.md'')" using m by (rule llm_file_simple)
  have pr: "path_resolve (cwd e) ?n = ?proj" using nm(1) by (rule path_resolve_simple)
  \<comment> \<open>the destination directory\<close>
  have dc: "dirs_to ?fs1 (cwd e)" using wf cw by (rule dirs_to_of_dir)
  let ?w2 = "w1\<lparr>fsys := (?proj, Dir) # ?fs1\<rparr>"
  have s1: "mkdirSync ?proj w1 = (Return (), ?w2)"
    using ds cw by (simp add: mkdirSync_def)
  have st2: "staged ?fs1 ?tmp ?proj {} {} (fsys ?w2)"
    using staged_start [OF wf dc ds] by simp
  \<comment> \<open>the six copies\<close>
  from req have r: "stat ?fs1 (?tmp @ [''.context'']) \<noteq> None" "stat ?fs1 (?tmp @ [''examples'']) \<noteq> None"
    "stat ?fs1 (?tmp @ [?m @ ''.md'']) \<noteq> None" "stat ?fs1 (?tmp @ [''INITIAL_EXAMPLE.md'']) \<noteq> None"
    "stat ?fs1 (?tmp @ [''INITIAL.md'']) \<noteq> None" "stat ?fs1 (?tmp @ [''README.md'']) \<noteq> None"
    by (simp_all add: REQUIRED_FILES_def)
  from plain_copy [OF st2 _ _ sep wf r(1)] obtain u1
    where c1: "copySync (path_join ?tmp [''.context'']) (path_join ?proj [''.context'']) ?w2 = (Return (), u1)
               \<and> staged ?fs1 ?tmp ?proj {} {''.context''} (fsys u1)"
    by (auto simp: simple_name_def)
  from plain_copy [OF c1 [THEN conjunct2] _ _ sep wf r(2)] obtain u2
    where c2: "copySync (path_join ?tmp [''examples'']) (path_join ?proj [''examples'']) u1 = (Return (), u2)
               \<and> staged ?fs1 ?tmp ?proj {} {''examples'', ''.context''} (fsys u2)"
    by (auto simp: simple_name_def)
  have mS: "?m @ ''.md'' \<notin> {''examples'', ''.context''}"
    using m by (auto simp: SUPPORTED_LLMS_def)
  from plain_copy [OF c2 [THEN conjunct2] mS msim sep wf r(3)] obtain u3
    where c3: "copySync (path_join ?tmp [?m @ ''.md'']) (path_join ?proj [?m @ ''.md'']) u2 = (Return (), u3)
               \<and> staged ?fs1 ?tmp ?proj {} {?m @ ''.md'', ''examples'', ''.context''} (fsys u3)"
    by blast
  have m3: "(if ?m = ''CLAUDE''
              then copySync (path_join ?tmp [''CLAUDE.md'']) (path_join ?proj [''CLAUDE.md''])
              else copySync (path_join ?tmp [''GEMINI.md'']) (path_join ?proj [''GEMINI.md''])) u2 = (Return (), u3)"
    using c3 [THEN conjunct1] m by (auto simp: SUPPORTED_LLMS_def)
  have e4: "''INITIAL_EXAMPLE.md'' \<notin> {?m @ ''.md'', ''examples'', ''.context''}"
    using m by (auto simp: SUPPORTED_LLMS_def)
  from plain_copy [OF c3 [THEN conjunct2] e4 _ sep wf r(4)] obtain u4
    where c4: "copySync (path_join ?tmp [''INITIAL_EXAMPLE.md'']) (path_join ?proj [''INITIAL_EXAMPLE.md'']) u3
                 = (Return (), u4)
               \<and> staged ?fs1 ?tmp ?proj {} {''INITIAL_EXAMPLE.md'', ?m @ ''.md'', ''examples'', ''.context''} (fsys u4)"
    by (auto simp: simple_name_def)
  have e5: "''INITIAL.md'' \<notin> {''INITIAL_EXAMPLE.md'', ?m @ ''.md'', ''examples'', ''.context''}"
    using m by (auto simp: SUPPORTED_LLMS_def)
  from plain_copy [OF c4 [THEN conjunct2] e5 _ sep wf r(5)] obtain u5
    where c5: "copySync (path_join ?tmp [''INITIAL.md'']) (path_join ?proj [''INITIAL.md'']) u4 = (Return (), u5)
               \<and> staged ?fs1 ?tmp ?proj {}
                    {''INITIAL.md'', ''INITIAL_EXAMPLE.md'', ?m @ ''.md'', ''examples'', ''.context''} (fsys u5)"
    by (auto simp: simple_name_def)
  have e6: "''README.md'' \<notin> {''INITIAL.md'', ''INITIAL_EXAMPLE.md'', ?m @ ''.md'', ''examples'', ''.context''}"
    using m by (auto simp: SUPPORTED_LLMS_def)
  let ?S = "{''README.md'', ''INITIAL.md'', ''INITIAL_EXAMPLE.md'', ?m @ ''.md'', ''examples'', ''.context''}"
  from plain_copy [OF c5 [THEN conjunct2] e6 _ sep wf r(6)] obtain u6
    where c6: "copySync (path_join ?tmp [''README.md'']) (path_join ?proj [''README.md'']) u5 = (Return (), u6)
               \<and> staged ?fs1 ?tmp ?proj {} ?S (fsys u6)"
    by (auto simp: simple_name_def)
  have copy: "original_copy ?tmp ?proj ?m ?w2 = (Return (), u6)"
    unfolding original_copy_def
    apply (rule andThen_step, rule c1 [THEN conjunct1])
    apply (rule andThen_step, rule c2 [THEN conjunct1])
    apply (rule andThen_step, rule m3)
    apply (rule andThen_step, rule c4 [THEN conjunct1])
    apply (rule andThen_step, rule c5 [THEN conjunct1])
    apply (rule c6 [THEN conjunct1])
    done
  from c6 have out6: "\<And>q. \<not> prefix ?proj q \<Longrightarrow> stat (fsys u6) q = stat ?fs1 q"
    and inn6: "\<And>c rel. stat (fsys u6) (?proj @ c # rel) = (if c \<in> ?S then stat ?fs1 (?tmp @ c # rel) else None)"
    and d6: "dirs_to (fsys u6) ?proj"
    by (auto simp: staged_def)
  have off: "\<not> prefix ?proj (?tmp @ x)" "\<not> prefix ?tmp (?proj @ x)" for x
    using prefix_append_cases [of ?proj ?tmp x] prefix_append_cases [of ?tmp ?proj x] sep by blast+
  \<comment> \<open>step 4 finds no variant\<close>
  have pv: "path_join ?proj [''.context'', ''templates'', ''prp_template_'' @ lang a @ ''.md'']
              = ?proj @ ''.context'' # [''templates'', ''prp_template_'' @ lang a @ ''.md'']"
    using lang_file_simple(2) [OF lg] by (simp add: path_join_simples simple_name_def)
  have "stat (fsys u6) (?proj @ ''.context'' # [''templates'', ''prp_template_'' @ lang a @ ''.md'']) = None"
    using inn6 [of "''.context''" "[''templates'', ''prp_template_'' @ lang a @ ''.md'']"] nv by simp
  with pv have s4: "original_prp ?proj (lang a) ?m u6 = (Return (), u6)"
    by (simp add: configurePRPTemplate_skips)
  \<comment> \<open>step 5 writes in the clone, if at all\<close>
  let ?rp = "?tmp @ [''Rules'', lang a @ ''.md'']"
  have prl: "path_join ?tmp [''Rules'', lang a @ ''.md''] = ?rp"
    using lang_file_simple(1) [OF lg] by (simp add: path_join_simples simple_name_def)
  have r6: "stat (fsys u6) ?rp = stat ?fs1 ?rp" using out6 [OF off(1)] .
  have "\<exists>u7. original_rules ?tmp ?proj (lang a) ?m u6 = (Return (), u7)
             \<and> (\<forall>q. \<not> prefix ?tmp q \<longrightarrow> stat (fsys u7) q = stat (fsys u6) q)"
  proof (cases "stat ?fs1 ?rp")
    case None
    with r6 have "original_rules ?tmp ?proj (lang a) ?m u6 = (Return (), u6)"
      by (simp add: original_rules_def Let_def prl andThen_def existsSync_def ret_def)
    then show ?thesis by simp
  next
    case (Some nd)
    with k1 obtain rules where f: "stat ?fs1 ?rp = Some (File rules)"
      by (cases nd) auto
    from parents_okD [OF wf, of ?rp] f have "stat ?fs1 (?tmp @ [''Rules'']) = Some Dir"
      by (simp add: butlast_append)
    with out6 [OF off(1), of "[''Rules'']"] have pd: "stat (fsys u6) (butlast ?rp) = Some Dir"
      by (simp add: butlast_append)
    from f r6 have fr: "stat (fsys u6) ?rp = Some (File rules)" by simp
    have "original_rules ?tmp ?proj (lang a) ?m u6
            = (Return (), u6\<lparr>fsys := (?rp, File (path_str (path_join ?proj
                                 [if ?m = ''GEMINI'' then ''GEMINI.md'' else ''CLAUDE.md'']))) # fsys u6\<rparr>)"
      using fr pd
      by (simp add: original_rules_def Let_def prl andThen_def existsSync_def readFileSync_def writeFileSync_def)
    moreover have "stat ((?rp, nd') # fsys u6) q = stat (fsys u6) q" if "\<not> prefix ?tmp q" for q nd'
      using that by (auto simp: stat_Cons)
    ultimately show ?thesis by simp
  qed
  then obtain u7 where c7: "original_rules ?tmp ?proj (lang a) ?m u6 = (Return (), u7)
             \<and> (\<forall>q. \<not> prefix ?tmp q \<longrightarrow> stat (fsys u7) q = stat (fsys u6) q)" ..
  note same7 = c7 [THEN conjunct2, rule_format]
  \<comment> \<open>the inner directory, git, and the removal of the clone\<close>
  have ps: "path_join ?proj [?n] = ?proj @ [?n]" using nm(1) by (rule path_join_simple)
  from nm(2) have nS: "?n \<notin> ?S" "?n \<noteq> ''.context''" by (auto simp: REQUIRED_FILES_def)
  have "stat (fsys u7) (?proj @ [?n]) = None"
    using same7 [OF off(2), of "[?n]"] inn6 [of ?n "[]"] nS(1) by simp
  moreover have "stat (fsys u7) ?proj = Some Dir"
    using same7 [OF off(2), of "[]"] d6 by (simp add: dirs_to_def)
  ultimately have s6: "mkdirSync (path_join ?proj [?n]) u7
                         = (Return (), u7\<lparr>fsys := (?proj @ [?n], Dir) # fsys u7\<rparr>)"
    by (simp add: mkdirSync_def ps butlast_append)
  let ?u8 = "u7\<lparr>fsys := (?proj @ [?n], Dir) # fsys u7\<rparr>"
  obtain u9 where s7: "git_init (git_ok e) (path_join ?proj [?n]) ?u8 = (Return (), u9)"
    and f9: "fsys u9 = fsys ?u8 \<or> fsys u9 = (?proj @ [?n] @ [''.git''], Dir) # fsys ?u8"
    using git by (simp add: git_init_def ps stat_Cons)
  let ?w' = "u9\<lparr>fsys := remove_tree (fsys u9) ?tmp,
                 stdout := stdout u9 @ [''Project '' @ ?n @ '' created successfully!'']\<rparr>"
  have tail: "andThen (removeSync ?tmp) (\<lambda>_. console_log (''Project '' @ ?n @ '' created successfully!'')) u9
                = (Return (), ?w')"
    by (simp add: andThen_def removeSync_def console_log_def)
  have run: "original_build e a w1 = (Return (), ?w')"
    unfolding original_build_def Let_def pr
    apply (rule andThen_step, rule s1)
    apply (rule andThen_step, rule copy)
    apply (rule andThen_step, rule s4)
    apply (rule andThen_step, rule c7 [THEN conjunct1])
    apply (rule andThen_step, rule s6)
    apply (rule andThen_step, rule s7)
    apply (rule tail)
    done
  have "stat (fsys ?w') (?proj @ ''.context'' # rel) = stat ?fs1 (?tmp @ ''.context'' # rel)" for rel
  proof -
    let ?q = "?proj @ ''.context'' # rel"
    have "stat (fsys ?w') ?q = stat (fsys u9) ?q"
      using off(2) [of "''.context'' # rel"] by (simp add: stat_remove_tree)
    also have "\<dots> = stat (fsys u7) ?q"
      using f9 nS(2) by (auto simp: stat_Cons)
    also have "\<dots> = stat (fsys u6) ?q"
      using same7 [OF off(2)] .
    also have "\<dots> = stat ?fs1 (?tmp @ ''.context'' # rel)"
      using inn6 [of "''.context''" rel] by simp
    finally show ?thesis .
  qed
  with run show ?thesis by simp
qed



subsection \<open>Reading text\<close>

lemma REPLACEMENT_bytes: "\<forall>c \<in> set REPLACEMENT. \<not> of_char c < (0x80 :: nat)"
  by (simp add: REPLACEMENT_def)

lemma count_occ_skip:
  assumes "p \<noteq> []" "of_char (hd p) < (0x80 :: nat)" "\<forall>c \<in> set x. \<not> of_char c < (0x80 :: nat)"
  shows "count_occ p (x @ s) = count_occ p s"
  using assms(3)
proof (induction x)
  case Nil
  then show ?case by simp
next
  case (Cons c x)
  with assms(1,2) have "\<not> prefix p (c # x @ s)"
    by (cases p) auto
  with Cons show ?case by simp
qed

lemma utf8_scan_ascii [simp]:
  "of_char b < (0x80 :: nat) \<Longrightarrow> utf8_scan 0 lo hi seq (b # bs) = b # utf8_scan 0 0x80 0xBF [] bs"
  by (simp add: Let_def)

lemma utf8_scan_head:
  assumes "0 < need" "seq \<noteq> []" "\<forall>c \<in> set seq. \<not> of_char c < (0x80 :: nat)" "0x80 \<le> lo"
  shows "\<exists>x rest. utf8_scan need lo hi seq bs = x # rest \<and> \<not> of_char x < (0x80 :: nat)"
  using assms
proof (induction bs arbitrary: need lo hi seq)
  case Nil
  then show ?case by (simp add: REPLACEMENT_def)
next
  case (Cons b bs)
  show ?case
  proof (cases "of_char b < lo \<or> hi < of_char b")
    case True
    with Cons.prems(1) show ?thesis by (simp add: Let_def REPLACEMENT_def)
  next
    case False
    show ?thesis
    proof (cases "need = 1")
      case True
      with False Cons.prems show ?thesis by (cases seq) (auto simp: Let_def)
    next
      case n: False
      with Cons.prems False have "0 < need - 1" "seq @ [b] \<noteq> []"
        "\<forall>c \<in> set (seq @ [b]). \<not> of_char c < (0x80 :: nat)" "(0x80 :: nat) \<le> 0x80"
        by auto
      from Cons.IH [OF this, of "0xBF"] n False Cons.prems(1) show ?thesis
        by (simp add: Let_def)
    qed
  qed
qed


lemma utf8_scan_start:
  assumes "\<not> of_char b < (0x80 :: nat)"
  shows "\<exists>x rest. utf8_scan 0 lo hi seq (b # bs) = x # rest \<and> \<not> of_char x < (0x80 :: nat)"
proof -
  have h: "\<exists>x rest. utf8_scan k l u [b] bs = x # rest \<and> \<not> of_char x < (0x80 :: nat)"
    if "0 < k" "0x80 \<le> l" for k l u
    using utf8_scan_head [OF that(1) _ _ that(2), of "[b]" u bs] assms by simp
  from assms h [of 1 "0x80" "0xBF"] h [of 2 "if of_char b = (0xE0 :: nat) then 0xA0 else 0x80"]
    h [of 3 "if of_char b = (0xF0 :: nat) then 0x90 else 0x80"]
  show ?thesis
    by (simp add: Let_def REPLACEMENT_def)
qed

lemma utf8_scan_prefix:
  assumes "\<forall>c \<in> set p. of_char c < (0x80 :: nat)"
  shows "prefix p (utf8_scan 0 lo hi seq bs) \<longleftrightarrow> prefix p bs"
  using assms
proof (induction p arbitrary: bs lo hi seq)
  case Nil
  then show ?case by simp
next
  case (Cons a p)
  show ?case
  proof (cases bs)
    case Nil
    then show ?thesis by simp
  next
    case (Cons b bs')
    show ?thesis
    proof (cases "of_char b < (0x80 :: nat)")
      case True
      with Cons Cons.IH [where bs = bs' and lo = "0x80" and hi = "0xBF" and seq = "[]"] Cons.prems
      show ?thesis by simp
    next
      case False
      from utf8_scan_start [OF this, of lo hi seq bs'] obtain x rest
        where "utf8_scan 0 lo hi seq (b # bs') = x # rest" "\<not> of_char x < (0x80 :: nat)" by blast
      with False Cons Cons.prems show ?thesis by auto
    qed
  qed
qed

lemma count_occ_utf8_scan:
  assumes "p \<noteq> []" "\<forall>c \<in> set p. of_char c < (0x80 :: nat)"
    and "need = 0 \<or> (seq \<noteq> [] \<and> (\<forall>c \<in> set seq. \<not> of_char c < (0x80 :: nat)) \<and> 0x80 \<le> lo)"
  shows "count_occ p (utf8_scan need lo hi seq bs) = count_occ p bs"
  using assms(3)
proof (induction bs arbitrary: need lo hi seq rule: length_induct)
  case (1 bs)
  note IH = "1.IH" [rule_format]
  from assms(1,2) have hp: "of_char (hd p) < (0x80 :: nat)" by (cases p) auto
  note skip = count_occ_skip [OF assms(1) hp]
  show ?case
  proof (cases bs)
    case Nil
    with skip [OF REPLACEMENT_bytes, of "[]"] show ?thesis by simp
  next
    case (Cons b bs')
    have rec: "count_occ p (utf8_scan k l u sq bs') = count_occ p bs'"
      if "k = 0 \<or> (sq \<noteq> [] \<and> (\<forall>c \<in> set sq. \<not> of_char c < (0x80 :: nat)) \<and> 0x80 \<le> l)" for k l u sq
      using IH [of bs' k sq l u] that Cons by simp
    have nb: "count_occ p (b # bs') = count_occ p bs'" if "\<not> of_char b < (0x80 :: nat)"
      using skip [of "[b]" bs'] that by simp
    have zero: "count_occ p (utf8_scan 0 l u sq (b # bs')) = count_occ p (b # bs')" for l u sq
    proof (cases "of_char b < (0x80 :: nat)")
      case a: True
      have "prefix p (b # utf8_scan 0 0x80 0xBF [] bs') \<longleftrightarrow> prefix p (b # bs')"
        using utf8_scan_prefix [where p = "tl p" and lo = "0x80" and hi = "0xBF" and seq = "[]" and bs = bs']
          assms(1,2)
        by (cases p) auto
      with a rec [where k = 0 and l = "0x80" and u = "0xBF" and sq = "[]"] show ?thesis by simp
    next
      case a: False
      with nb [OF a] rec [where k = 1 and l = "0x80" and u = "0xBF" and sq = "[b]"]
        rec [where k = 0 and l = "0x80" and u = "0xBF" and sq = "[]"]
        rec [where k = 2 and l = "if of_char b = (0xE0 :: nat) then 0xA0 else 0x80"
               and u = "if of_char b = (0xED :: nat) then 0x9F else 0xBF" and sq = "[b]"]
        rec [where k = 3 and l = "if of_char b = (0xF0 :: nat) then 0x90 else 0x80"
               and u = "if of_char b = (0xF4 :: nat) then 0x8F else 0xBF" and sq = "[b]"]
        skip [OF REPLACEMENT_bytes, of "utf8_scan 0 0x80 0xBF [] bs'"]
      show ?thesis by (simp add: Let_def)
    qed
    show ?thesis
    proof (cases "need = 0")
      case True
      with Cons zero show ?thesis by simp
    next
      case False
      with "1.prems" have sq: "seq \<noteq> []" "\<forall>c \<in> set seq. \<not> of_char c < (0x80 :: nat)" "0x80 \<le> lo"
        by auto
      show ?thesis
      proof (cases "of_char b < lo \<or> hi < of_char b")
        case True
        with False Cons zero [of "0x80" "0xBF" "[]"]
          skip [OF REPLACEMENT_bytes, of "utf8_scan 0 0x80 0xBF [] (b # bs')"]
        show ?thesis by (simp add: Let_def)
      next
        case r: False
        with sq(3) have a: "\<not> of_char b < (0x80 :: nat)" by auto
        from sq(2) a have all: "\<forall>c \<in> set (seq @ [b]). \<not> of_char c < (0x80 :: nat)" by auto
        from False r Cons nb [OF a] all
          rec [where k = "need - 1" and l = "0x80" and u = "0xBF" and sq = "seq @ [b]"]
          skip [OF all, of "utf8_scan 0 0x80 0xBF [] bs'"]
          rec [where k = 0 and l = "0x80" and u = "0xBF" and sq = "[]"]
        show ?thesis by (simp add: Let_def)
      qed
    qed
  qed
qed

lemma toString_utf8_ascii: "\<forall>c \<in> set s. of_char c < (0x80 :: nat) \<Longrightarrow> toString_utf8 s = s"
  unfolding toString_utf8_def
  by (induction s) simp_all

lemma count_occ_toString_utf8:
  "count_occ PLACEHOLDER (toString_utf8 content) = count_occ PLACEHOLDER content"
  unfolding toString_utf8_def
  by (rule count_occ_utf8_scan) (simp_all add: PLACEHOLDER_def)



subsection \<open>The clone that a failed run leaves\<close>

lemma git_clone_makes_dir:
  assumes "git_clone rem dir w = (Return u, w')"
  shows "stat (fsys w') dir = Some Dir"
proof (cases "dir = []")
  case True
  then show ?thesis by simp
next
  case False
  from git_clone_cases [OF assms] obtain tree fs'
    where mk: "mkdirs [] dir (fsys w) = Inr fs'"
      and w': "w' = w\<lparr>fsys := map (\<lambda>(q, n). (dir @ q, n)) (filter (\<lambda>(q, n). q \<noteq> []) tree)
                                 @ (dir @ [''.git''], Dir) # fs',
                        cmds := cmds w @ [(''git clone'', dir)]\<rparr>"
    by auto
  have "map_of (map (\<lambda>(q, n). (dir @ q, n)) (filter (\<lambda>(q, n). q \<noteq> []) tree)) dir = None"
    using map_of_clone_entries [of dir tree dir] by blast
  with mkdirs_is_dir [OF mk] False show ?thesis
    unfolding w' by (simp add: stat_append stat_Cons)
qed

lemma setup_phase_clone:
  assumes "setup_phase e w = (Return a, w1)"
  shows "stat (fsys w1) (tempDir e) = Some Dir"
proof -
  from andThen_Return [OF assms [unfolded setup_phase_def]] obtain u wc
    where c: "cloneRepository (remote e) (tempDir e) w = (Return u, wc)"
      and r: "andThen (getAvailableLanguages (tempDir e)) (\<lambda>ls. parseArguments ls (argv e)) wc = (Return a, w1)"
    by blast
  from andThen_Return [OF r] obtain langs wd
    where g: "getAvailableLanguages (tempDir e) wc = (Return langs, wd)"
      and p: "parseArguments langs (argv e) wd = (Return a, w1)"
    by blast
  from cloneRepository_Return [OF c] obtain wg
    where gc: "git_clone (remote e) (tempDir e) w = (Return (), wg)" and fg: "fsys wc = fsys wg"
    by blast
  from git_clone_makes_dir [OF gc] fg getAvailableLanguages_Return(1) [OF g]
    yargs_parse_Return(1) [OF p [unfolded parseArguments_def]]
  show ?thesis by simp
qed

lemma original_setup_clone:
  assumes "original_setup e w = (Return a, w1)"
  shows "stat (fsys w1) (tempDir e) = Some Dir"
proof -
  from andThen_Return [OF assms [unfolded original_setup_def]] obtain langs wd
    where d: "original_discover e w = (Return langs, wd)"
      and p: "yargs_parse False langs [''GEMINI'', ''CLAUDE''] (argv e) wd = (Return a, w1)"
    by blast
  from andThen_Return [OF d [unfolded original_discover_def]] obtain u wg
    where gc: "git_clone (remote e) (tempDir e) w = (Return u, wg)"
      and r: "andThen (readdirSync (path_join (tempDir e) [''Rules'']))
                (\<lambda>files. ret (map (\<lambda>file. replace_first ''.md'' [] file)
                                (filter (\<lambda>file. endsWith file ''.md'') files))) wg = (Return langs, wd)"
    by blast
  from keepsD [OF keeps_andThen [OF transp_eq quiet_reads(3) keeps_ret [OF reflp_eq]] r, where proj = fsys]
  have "fsys wd = fsys wg" by simp
  with git_clone_makes_dir [OF gc] yargs_parse_Return(1) [OF p] show ?thesis by simp
qed

lemma main_stops_at_destination:
  assumes "setup_phase e w = (Return a, w1)" "stat (fsys w1) (path_resolve (cwd e) (name a)) \<noteq> None"
  shows "fst (run (main e) w) = 1" "fsys (snd (run (main e) w)) = fsys w1"
proof -
  from validate_throws [OF assms(2)] obtain msg
    where "validateProjectDirectory (path_resolve (cwd e) (name a)) w1 = (Throw msg, w1)" ..
  with assms(1) have "main_try e w = (Throw msg, w1)"
    by (simp add: main_try_def andThen_goes Let_def andThen_stops)
  from main_of_thrown [OF this]
  show "fst (run (main e) w) = 1" "fsys (snd (run (main e) w)) = fsys w1" by simp_all
qed

lemma original_stops_at_destination:
  assumes "original_setup e w = (Return a, w1)" "stat (fsys w1) (path_resolve (cwd e) (name a)) \<noteq> None"
  shows "fst (run (original_script e) w) = 1" "fsys (snd (run (original_script e) w)) = fsys w1"
proof -
  from mkdirSync_throws [OF assms(2)] assms(1)
  have "original_script e w = (Throw ''EEXIST: file already exists'', w1)"
    by (simp add: original_script_def original_build_def andThen_goes Let_def andThen_stops)
  then show "fst (run (original_script e) w) = 1" "fsys (snd (run (original_script e) w)) = fsys w1"
    by (simp_all add: run_def)
qed


lemma cloned_dir:
  assumes "cloned e fs = Some fs1"
  shows "stat fs1 (tempDir e) = Some Dir"
proof -
  from cloneRepository_of_cloned(2) [OF assms] obtain w1
    where "git_clone (remote e) (tempDir e) (init_world fs) = (Return (), w1)" "fsys w1 = fs1" by blast
  with git_clone_makes_dir show ?thesis by blast
qed

lemma setup_phase_after_clone:
  assumes "cloned e fs = Some fs1" "setup_phase e (init_world fs) = (r, w1)"
  shows "fsys w1 = fs1"
proof -
  from cloneRepository_of_cloned(1) [OF assms(1)] obtain wc
    where c: "cloneRepository (remote e) (tempDir e) (init_world fs) = (Return (), wc)"
      and f: "fsys wc = fs1" by blast
  from c assms(2)
  have r: "andThen (getAvailableLanguages (tempDir e)) (\<lambda>ls. parseArguments ls (argv e)) wc = (r, w1)"
    by (simp add: setup_phase_def andThen_goes)
  have "keeps fsys (=) (andThen (getAvailableLanguages (tempDir e)) (\<lambda>ls. parseArguments ls (argv e)))"
    unfolding getAvailableLanguages_def parseArguments_def Let_def
    by (intro keeps_andThen keeps_if transp_eq reflp_eq quiet_reads quiet_yargs_parse keeps_ret keeps_throw)
  from keepsD [OF this r] f show ?thesis by simp
qed

lemma original_setup_after_clone:
  assumes "cloned e fs = Some fs1" "original_setup e (init_world fs) = (r, w1)"
  shows "fsys w1 = fs1"
proof -
  from cloneRepository_of_cloned(2) [OF assms(1)] obtain wc
    where c: "git_clone (remote e) (tempDir e) (init_world fs) = (Return (), wc)"
      and f: "fsys wc = fs1" by blast
  let ?rest = "andThen (andThen (readdirSync (path_join (tempDir e) [''Rules'']))
                 (\<lambda>files. ret (map (\<lambda>file. replace_first ''.md'' [] file)
                                 (filter (\<lambda>file. endsWith file ''.md'') files))))
                 (\<lambda>availableLangs. yargs_parse False availableLangs [''GEMINI'', ''CLAUDE''] (argv e))"
  from c assms(2) have r: "?rest wc = (r, w1)"
    by (simp add: original_setup_def original_discover_def andThen_def split: prod.splits outcome.splits)
  have "keeps fsys (=) ?rest"
    by (intro keeps_andThen keeps_if transp_eq reflp_eq quiet_reads quiet_yargs_parse keeps_ret keeps_throw)
  from keepsD [OF this r] f show ?thesis by simp
qed

lemma main_fails_with_clone:
  assumes "setup_phase e (init_world fs) = (r, w1)"
    and "\<And>a. r = Return a \<Longrightarrow> stat (fsys w1) (path_resolve (cwd e) (name a)) \<noteq> None"
  shows "fsys (snd (run (main e) (init_world fs))) = fsys w1"
proof (cases r)
  case (Return a)
  with assms main_stops_at_destination(2) show ?thesis by blast
next
  case (Throw x)
  with assms(1) have "main_try e (init_world fs) = (Throw x, w1)"
    by (simp add: main_try_def andThen_stops)
  from main_of_thrown [OF this] show ?thesis by simp
next
  case (Exit n)
  with assms(1) have "main_try e (init_world fs) = (Exit n, w1)"
    by (simp add: main_try_def andThen_stops)
  from main_of_exited [OF this] show ?thesis by simp
qed

lemma original_fails_with_clone:
  assumes "original_setup e (init_world fs) = (r, w1)"
    and "\<And>a. r = Return a \<Longrightarrow> stat (fsys w1) (path_resolve (cwd e) (name a)) \<noteq> None"
  shows "fsys (snd (run (original_script e) (init_world fs))) = fsys w1"
proof (cases r)
  case (Return a)
  with assms original_stops_at_destination(2) show ?thesis by blast
next
  case (Throw x)
  with assms(1) show ?thesis
    by (simp add: original_script_def andThen_stops run_def)
next
  case (Exit n)
  with assms(1) show ?thesis
    by (simp add: original_script_def andThen_stops run_def)
qed



subsection \<open>The repository that a successful run leaves\<close>

lemma ensures_git_repo: "ensures (\<lambda>w. stat (fsys w) (dir @ [''.git'']) \<noteq> None) (git_init ok dir)"
  by (auto simp: ensures_def git_init_def stat_Cons split: if_splits)

lemma original_build_repo:
  assumes "\<not> prefix (tempDir e) (path_join (path_resolve (cwd e) (name a)) [name a] @ [''.git''])"
  shows "ensures (\<lambda>w. stat (fsys w) (path_join (path_resolve (cwd e) (name a)) [name a] @ [''.git'']) \<noteq> None)
           (original_build e a)"
  unfolding original_build_def Let_def
  apply (rule ensures_last, rule ensures_last, rule ensures_last, rule ensures_last, rule ensures_last)
  apply (rule ensures_first [where proj = fsys
        and R = "inv_rel (\<lambda>fs. stat fs (path_join (path_resolve (cwd e) (name a)) [name a] @ [''.git'']) \<noteq> None)"])
    apply (rule ensures_git_repo)
   apply (intro lasts_rules lasts_removeSync assms)
  apply (simp add: inv_rel_def)
  done

lemma local_build_repo:
  "ensures (\<lambda>w. stat (fsys w) (path_resolve (cwd e) (name a) @ [''.git'']) \<noteq> None) (local_build t e a)"
  unfolding local_build_def Let_def
  apply (rule ensures_last, rule ensures_last, rule ensures_last, rule ensures_last, rule ensures_last)
  apply (rule ensures_first [where proj = fsys
        and R = "inv_rel (\<lambda>fs. stat fs (path_resolve (cwd e) (name a) @ [''.git'']) \<noteq> None)"])
    apply (rule ensures_git_repo)
   apply (intro lasts_rules)
  apply (simp add: inv_rel_def)
  done

lemma initializeProjectStructure_repo:
  assumes ok and "initializeProjectStructure ok projectDir n w = (Return u, w')"
  shows "stat (fsys w') (path_join projectDir [n] @ [''.git'']) \<noteq> None"
proof -
  let ?src = "path_join projectDir [n]"
  obtain r w1 where m: "mkdirSync_recursive ?src w = (r, w1)"
    by (cases "mkdirSync_recursive ?src w")
  with assms(2) have r: "r = Return ()"
    by (cases r) (auto simp: initializeProjectStructure_def Let_def andThen_def)
  let ?w2 = "w1\<lparr>stdout := stdout w1 @ [''Created source directory: '' @ path_str ?src]\<rparr>"
  from m r obtain fs' where mk: "mkdirs [] ?src (fsys w) = Inr fs'" and w1: "fsys w1 = fs'"
    by (auto simp: mkdirSync_recursive_def split: sum.splits)
  from mkdirs_is_dir [OF mk] w1 have d: "stat (fsys ?w2) ?src = Some Dir" by simp
  with \<open>ok\<close> have g: "git_init ok ?src ?w2
        = (Return (), ?w2\<lparr>fsys := (if stat (fsys ?w2) (?src @ [''.git'']) = None
                                   then (?src @ [''.git''], Dir) # fsys ?w2 else fsys ?w2),
                           cmds := cmds ?w2 @ [(''git init'', ?src)]\<rparr>)"
    by (simp add: git_init_def)
  from assms(2) m r g show ?thesis
    by (auto simp: initializeProjectStructure_def Let_def andThen_def console_log_def try_catch_def stat_Cons
          split: if_splits)
qed

lemma create_and_configure_repo:
  assumes "git_ok e" and "create_and_configure e a projectDir w = (Return (), w')"
  shows "stat (fsys w') (path_join projectDir [name a] @ [''.git'']) \<noteq> None"
proof -
  have "ensures (\<lambda>w. stat (fsys w) (path_join projectDir [name a] @ [''.git'']) \<noteq> None)
          (create_and_configure e a projectDir)"
    unfolding create_and_configure_def
  proof (intro ensures_last)
    show "ensures (\<lambda>w. stat (fsys w) (path_join projectDir [name a] @ [''.git'']) \<noteq> None)
            (initializeProjectStructure (git_ok e) projectDir (name a))"
      unfolding ensures_def using initializeProjectStructure_repo [OF assms(1)] by blast
  qed
  from ensuresD [OF this assms(2)] show ?thesis .
qed

lemma original_script_repo:
  assumes "run (original_script e) (init_world fs) = (0, w')" and "raw_name (argv e) = Some n"
    and u: "\<not> asks_usage (argv e)"
    and "\<not> prefix (tempDir e) (path_join (path_resolve (cwd e) n) [n] @ [''.git''])"
  shows "stat (fsys w') (path_join (path_resolve (cwd e) n) [n] @ [''.git'']) \<noteq> None"
proof -
  from run_success [OF original_script_exits [OF u] assms(1)]
  have "original_script e (init_world fs) = (Return (), w')" .
  from andThen_Return [OF this [unfolded original_script_def]] obtain a w1
    where s: "original_setup e (init_world fs) = (Return a, w1)"
      and b: "original_build e a w1 = (Return (), w')" by blast
  from original_setup_returns(2) [OF s] assms(2) have n: "name a = n" by simp
  from assms(4) have "\<not> prefix (tempDir e) (path_join (path_resolve (cwd e) (name a)) [name a] @ [''.git''])"
    by (simp add: n)
  from ensuresD [OF original_build_repo [OF this] b] show ?thesis
    by (simp add: n)
qed

lemma local_script_repo:
  assumes "run (local_script t e) (init_world fs) = (0, w')" and "raw_name (argv e) = Some n"
    and u: "\<not> asks_usage (argv e)"
  shows "stat (fsys w') (path_resolve (cwd e) n @ [''.git'']) \<noteq> None"
proof -
  from run_success [OF local_script_exits [OF u] assms(1)]
  have "local_script t e (init_world fs) = (Return (), w')" .
  from andThen_Return [OF this [unfolded local_script_def]] obtain a w1
    where s: "local_arguments t e (init_world fs) = (Return a, w1)"
      and b: "local_build t e a w1 = (Return (), w')" by blast
  from yieldsD [OF local_arguments_yields s] assms(2) have n: "name a = n" by simp
  from ensuresD [OF local_build_repo b] show ?thesis
    by (simp add: n)
qed

lemma main_repo:
  assumes run: "run (main e) (init_world fs) = (0, w')" and u: "\<not> asks_usage (argv e)"
    and ok: "names_ok fs" "path_ok (cwd e)" "path_ok (tempDir e)"
      "case remote e of None \<Rightarrow> True | Some tree \<Rightarrow> names_ok tree"
    and n: "raw_name (argv e) = Some n" "simple_name n"
    and g: "git_ok e" and far: "\<not> prefix (tempDir e) (cwd e @ [n, n, ''.git''])"
  shows "stat (fsys w') (cwd e @ [n, n, ''.git'']) \<noteq> None"
proof -
  from main_success [OF run u] obtain w5
    where f: "main_try e (init_world fs) = (Return (), w5)
           \<and> w' = w5\<lparr>fsys := remove_tree (fsys w5) (tempDir e),
                      stdout := stdout w5 @ [''Cleaned up temporary files'']\<rparr>" ..
  from main_try_Return [OF f [THEN conjunct1]] obtain a w1 w2 w3 w4
    where h: "setup_phase e (init_world fs) = (Return a, w1)
           \<and> validateProjectDirectory (path_resolve (cwd e) (name a)) w1 = (Return (), w2)
           \<and> create_and_configure e a (path_resolve (cwd e) (name a)) w2 = (Return (), w3)
           \<and> cleanupTemplateFiles (path_resolve (cwd e) (name a)) w3 = (Return (), w4)
           \<and> report_success a (path_resolve (cwd e) (name a)) w4 = (Return (), w5)" by blast
  note s = h [THEN conjunct1] and v = h [THEN conjunct2, THEN conjunct1]
    and c = h [THEN conjunct2, THEN conjunct2, THEN conjunct1]
    and t = h [THEN conjunct2, THEN conjunct2, THEN conjunct2, THEN conjunct1]
    and r = h [THEN conjunct2, THEN conjunct2, THEN conjunct2, THEN conjunct2]
  from setup_phase_returns(2) [OF s] n(1) have a: "name a = n" by simp
  have pr: "path_resolve (cwd e) n = cwd e @ [n]"
    by (rule path_resolve_simple [OF n(2)])
  have pj: "path_join (cwd e @ [n]) [n] = cwd e @ [n, n]"
    using path_join_simple [OF n(2), of "cwd e @ [n]"] by simp
  have n1: "names_ok (fsys w1)"
    using keepsD [OF setup_phase_names [OF ok(3,4)] s] ok(1) by (simp add: inv_rel_def init_world_def)
  have n2: "names_ok (fsys w2)"
    using keepsD [OF validate_names v] n1 by (simp add: inv_rel_def)
  have n3: "names_ok (fsys w3)"
    using keepsD [OF create_and_configure_names [OF ok(3) path_resolve_ok [OF ok(2)]] c] n2
    by (simp add: inv_rel_def)
  from create_and_configure_repo [OF g c] have 3: "stat (fsys w3) (cwd e @ [n, n, ''.git'']) \<noteq> None"
    by (simp add: a pr pj)
  have "\<not> prefix (path_join (cwd e @ [n]) [''.context'', ''templates'']) (cwd e @ [n, n, ''.git''])"
    by (simp add: path_join_def)
  with cleanupTemplateFiles_frame [OF n3 t] 3 have 4: "stat (fsys w4) (cwd e @ [n, n, ''.git'']) \<noteq> None"
    by (simp add: same_outside_def a pr)
  have 5: "fsys w5 = fsys w4"
    using keepsD [OF report_success_quiet(1) r] by simp
  from 4 5 far show ?thesis
    unfolding f [THEN conjunct2] by (simp add: stat_remove_tree)
qed



subsection \<open>When the refactored script leaves a branding file\<close>

lemma create_and_configure_Return:
  assumes "create_and_configure e a p w = (Return (), w')"
  shows "\<exists>u1 u2 u3 u4 u5 u6 u7.
           fsys u1 = fsys w
           \<and> createProjectDirectory p u1 = (Return (), u2)
           \<and> copyCoreDiretories (tempDir e) p u2 = (Return (), u3)
           \<and> copyRequiredFiles (tempDir e) p u3 = (Return (), u4)
           \<and> copyLLMFile (tempDir e) p (llm a) u4 = (Return (), u5)
           \<and> configurePRPTemplate p (lang a) (llm a) u5 = (Return (), u6)
           \<and> applyLanguageRules (tempDir e) p (lang a) (llm a) u6 = (Return (), u7)
           \<and> initializeProjectStructure (git_ok e) p (name a) u7 = (Return (), w')"
proof -
  from andThen_Return_unit [OF assms [unfolded create_and_configure_def]] obtain u1
    where a1: "console_log (''Creating project '' @ name a @ '' with '' @ lang a
                             @ '' language rules for '' @ llm a @ ''...'') w = (Return (), u1)"
      and b1: "andThen (createProjectDirectory p) (\<lambda>_.
     andThen (copyCoreDiretories (tempDir e) p) (\<lambda>_.
     andThen (copyRequiredFiles (tempDir e) p) (\<lambda>_.
     andThen (copyLLMFile (tempDir e) p (llm a)) (\<lambda>_.
     andThen (configurePRPTemplate p (lang a) (llm a)) (\<lambda>_.
     andThen (applyLanguageRules (tempDir e) p (lang a) (llm a)) (\<lambda>_.
       initializeProjectStructure (git_ok e) p (name a))))))) u1 = (Return (), w')" by blast
  from andThen_Return_unit [OF b1] obtain u2
    where a2: "createProjectDirectory p u1 = (Return (), u2)"
      and b2: "andThen (copyCoreDiretories (tempDir e) p) (\<lambda>_.
     andThen (copyRequiredFiles (tempDir e) p) (\<lambda>_.
     andThen (copyLLMFile (tempDir e) p (llm a)) (\<lambda>_.
     andThen (configurePRPTemplate p (lang a) (llm a)) (\<lambda>_.
     andThen (applyLanguageRules (tempDir e) p (lang a) (llm a)) (\<lambda>_.
       initializeProjectStructure (git_ok e) p (name a)))))) u2 = (Return (), w')" by blast
  from andThen_Return_unit [OF b2] obtain u3
    where a3: "copyCoreDiretories (tempDir e) p u2 = (Return (), u3)"
      and b3: "andThen (copyRequiredFiles (tempDir e) p) (\<lambda>_.
     andThen (copyLLMFile (tempDir e) p (llm a)) (\<lambda>_.
     andThen (configurePRPTemplate p (lang a) (llm a)) (\<lambda>_.
     andThen (applyLanguageRules (tempDir e) p (lang a) (llm a)) (\<lambda>_.
       initializeProjectStructure (git_ok e) p (name a))))) u3 = (Return (), w')" by blast
  from andThen_Return_unit [OF b3] obtain u4
    where a4: "copyRequiredFiles (tempDir e) p u3 = (Return (), u4)"
      and b4: "andThen (copyLLMFile (tempDir e) p (llm a)) (\<lambda>_.
     andThen (configurePRPTemplate p (lang a) (llm a)) (\<lambda>_.
     andThen (applyLanguageRules (tempDir e) p (lang a) (llm a)) (\<lambda>_.
       initializeProjectStructure (git_ok e) p (name a)))) u4 = (Return (), w')" by blast
  from andThen_Return_unit [OF b4] obtain u5
    where a5: "copyLLMFile (tempDir e) p (llm a) u4 = (Return (), u5)"
      and b5: "andThen (configurePRPTemplate p (lang a) (llm a)) (\<lambda>_.
     andThen (applyLanguageRules (tempDir e) p (lang a) (llm a)) (\<lambda>_.
       initializeProjectStructure (git_ok e) p (name a))) u5 = (Return (), w')" by blast
  from andThen_Return_unit [OF b5] obtain u6
    where a6: "configurePRPTemplate p (lang a) (llm a) u5 = (Return (), u6)"
      and b6: "andThen (applyLanguageRules (tempDir e) p (lang a) (llm a)) (\<lambda>_.
       initializeProjectStructure (git_ok e) p (name a)) u6 = (Return (), w')" by blast
  from andThen_Return_unit [OF b6] obtain u7
    where a7: "applyLanguageRules (tempDir e) p (lang a) (llm a) u6 = (Return (), u7)"
      and a8: "initializeProjectStructure (git_ok e) p (name a) u7 = (Return (), w')" by blast
  from keepsD [OF quiet_console(1) a1] have "fsys u1 = fsys w" by simp
  with a2 a3 a4 a5 a6 a7 a8 show ?thesis by blast
qed

lemma configurePRPTemplate_frame:
  "keeps fsys (same_outside (destination_footprint projectDir m' n)) (configurePRPTemplate projectDir l m)"
  unfolding configurePRPTemplate_def Let_def
  by (intro footprint_rules frame_writeFileSync footprint_prp)

lemma initializeProjectStructure_frame:
  "keeps fsys (same_outside (destination_footprint projectDir m' n)) (initializeProjectStructure ok projectDir n)"
  unfolding initializeProjectStructure_def Let_def
  apply (intro footprint_rules frame_git_init)
   apply (rule footprint_inner, simp add: near_def)
  apply (rule footprint_inner, simp add: near_def)
  done

lemma lasts_configurePRPTemplate:
  "keeps fsys (inv_rel (\<lambda>fs. stat fs q \<noteq> None)) (configurePRPTemplate projectDir l m)"
  unfolding configurePRPTemplate_def Let_def by (intro lasts_rules)

lemma lasts_applyLanguageRules:
  "keeps fsys (inv_rel (\<lambda>fs. stat fs q \<noteq> None)) (applyLanguageRules t projectDir l m)"
  unfolding applyLanguageRules_def Let_def by (intro lasts_rules)

lemma lasts_initializeProjectStructure:
  "keeps fsys (inv_rel (\<lambda>fs. stat fs q \<noteq> None)) (initializeProjectStructure ok projectDir n)"
  unfolding initializeProjectStructure_def Let_def by (intro lasts_rules)

lemma copyLLMFile_skips:
  "stat (fsys w) (path_join t [m @ ''.md'']) = None \<Longrightarrow> copyLLMFile t p m w = (Return (), w)"
  by (simp add: copyLLMFile_def Let_def andThen_def existsSync_def ret_def)

lemma applyLanguageRules_skips:
  "stat (fsys w) (path_join t [''Rules'', l @ ''.md'']) = None
     \<Longrightarrow> applyLanguageRules t p l m w = (r, w') \<Longrightarrow> fsys w' = fsys w"
  by (auto simp: applyLanguageRules_def Let_def andThen_def existsSync_def console_warn_def)

lemma applyLanguageRules_writes:
  assumes "applyLanguageRules t p l m w = (Return (), w')"
    and "stat (fsys w) (path_join t [''Rules'', l @ ''.md'']) \<noteq> None"
  shows "stat (fsys w') (path_join p [m @ ''.md'']) \<noteq> None"
  using assms
  by (auto simp: applyLanguageRules_def Let_def andThen_def existsSync_def readFileSync_def writeFileSync_def
        console_log_def stat_Cons split: option.splits node.splits if_splits)

lemma other_llm: "m \<in> set SUPPORTED_LLMS \<Longrightarrow> \<exists>other \<in> set SUPPORTED_LLMS. other \<noteq> m"
  by (auto simp: SUPPORTED_LLMS_def)

lemma setup_lang_plain:
  assumes "setup_phase e (init_world fs) = (Return a, w1)"
    and "names_ok fs" "path_ok (tempDir e)" "case remote e of None \<Rightarrow> True | Some tree \<Rightarrow> names_ok tree"
  shows "CHR ''/'' \<notin> set (lang a)"
proof -
  from original_setup_of_setup_phase [OF assms(1)] obtain w1'
    where "original_setup e (init_world fs) = (Return a, w1')" by blast
  from original_lang_plain [OF this assms(2,3,4)] show ?thesis .
qed

lemma main_branding_iff:
  assumes run: "run (main e) (init_world fs) = (0, w')" and u: "\<not> asks_usage (argv e)"
    and ok: "names_ok fs" "path_ok (cwd e)" "path_ok (tempDir e)"
      "case remote e of None \<Rightarrow> True | Some tree \<Rightarrow> names_ok tree"
    and par: "parents_ok fs"
    and s: "setup_phase e (init_world fs) = (Return a, w1)"
    and n: "simple_name (name a)" "name a \<noteq> llm a @ ''.md''"
    and far: "\<not> near (tempDir e) (cwd e @ [name a])"
  shows "stat (fsys w') (cwd e @ [name a, llm a @ ''.md'']) \<noteq> None
           \<longleftrightarrow> stat (fsys w1) (tempDir e @ [llm a @ ''.md'']) \<noteq> None
               \<or> stat (fsys w1) (tempDir e @ [''Rules'', lang a @ ''.md'']) \<noteq> None"
proof -
  let ?proj = "cwd e @ [name a]"
  let ?m = "llm a"
  let ?q = "?proj @ [?m @ ''.md'']"
  let ?s1 = "tempDir e @ [?m @ ''.md'']"
  let ?s2 = "tempDir e @ [''Rules'', lang a @ ''.md'']"
  from yieldsD [OF setup_phase_yields s] have m: "?m \<in> set SUPPORTED_LLMS" by simp
  note ms = llm_file_simple [OF m]
  note ls = lang_file_simple(1) [OF setup_lang_plain [OF s ok(1,3,4)]]
  have j1: "path_join (tempDir e) [?m @ ''.md''] = ?s1"
    by (simp add: path_join_simple [OF ms])
  have j2: "path_join (tempDir e) [''Rules'', lang a @ ''.md''] = ?s2"
    using ls by (simp add: path_join_simples simple_name_def)
  have jq: "path_join ?proj [?m @ ''.md''] = ?q"
    by (simp add: path_join_simple [OF ms])
  have pr: "path_resolve (cwd e) (name a) = ?proj" by (rule path_resolve_simple [OF n(1)])
  from main_success [OF run u] obtain w5
    where f: "main_try e (init_world fs) = (Return (), w5)
           \<and> w' = w5\<lparr>fsys := remove_tree (fsys w5) (tempDir e),
                      stdout := stdout w5 @ [''Cleaned up temporary files'']\<rparr>" ..
  from main_try_Return [OF f [THEN conjunct1]] s obtain w2 w3 w4
    where g: "validateProjectDirectory ?proj w1 = (Return (), w2)
           \<and> create_and_configure e a ?proj w2 = (Return (), w3)
           \<and> cleanupTemplateFiles ?proj w3 = (Return (), w4)
           \<and> report_success a ?proj w4 = (Return (), w5)" by (auto simp: pr)
  note v = g [THEN conjunct1] and c = g [THEN conjunct2, THEN conjunct1]
    and t = g [THEN conjunct2, THEN conjunct2, THEN conjunct1]
    and r = g [THEN conjunct2, THEN conjunct2, THEN conjunct2]
  have n1: "names_ok (fsys w1)"
    using keepsD [OF setup_phase_names [OF ok(3,4)] s] ok(1) by (simp add: inv_rel_def init_world_def)
  have n2: "names_ok (fsys w2)"
    using keepsD [OF validate_names v] n1 by (simp add: inv_rel_def)
  have po: "path_ok ?proj" using ok(2) n(1) by simp
  have n3: "names_ok (fsys w3)"
    using keepsD [OF create_and_configure_names [OF ok(3) po] c] n2
    by (simp add: inv_rel_def)
  have 2: "fsys w2 = fsys w1"
    using keepsD [OF validate_quiet(1) v] by simp
  from create_and_configure_Return [OF c] obtain u1 u2 u3 u4 u5 u6 u7
    where h: "fsys u1 = fsys w2
           \<and> createProjectDirectory ?proj u1 = (Return (), u2)
           \<and> copyCoreDiretories (tempDir e) ?proj u2 = (Return (), u3)
           \<and> copyRequiredFiles (tempDir e) ?proj u3 = (Return (), u4)
           \<and> copyLLMFile (tempDir e) ?proj (llm a) u4 = (Return (), u5)
           \<and> configurePRPTemplate ?proj (lang a) (llm a) u5 = (Return (), u6)
           \<and> applyLanguageRules (tempDir e) ?proj (lang a) (llm a) u6 = (Return (), u7)
           \<and> initializeProjectStructure (git_ok e) ?proj (name a) u7 = (Return (), w3)" by blast
  note a1 = h [THEN conjunct1] and a2 = h [THEN conjunct2, THEN conjunct1]
    and a3 = h [THEN conjunct2, THEN conjunct2, THEN conjunct1]
    and a4 = h [THEN conjunct2, THEN conjunct2, THEN conjunct2, THEN conjunct1]
    and a5 = h [THEN conjunct2, THEN conjunct2, THEN conjunct2, THEN conjunct2, THEN conjunct1]
    and a6 = h [THEN conjunct2, THEN conjunct2, THEN conjunct2, THEN conjunct2, THEN conjunct2, THEN conjunct1]
    and a7 = h [THEN conjunct2, THEN conjunct2, THEN conjunct2, THEN conjunct2, THEN conjunct2, THEN conjunct2,
                THEN conjunct1]
    and a8 = h [THEN conjunct2, THEN conjunct2, THEN conjunct2, THEN conjunct2, THEN conjunct2, THEN conjunct2,
                THEN conjunct2]
  have clone4: "stat (fsys u4) (tempDir e @ x) = stat (fsys w1) (tempDir e @ x)" for x
    using keepsD [OF createProjectDirectory_frame a2, of ?m "name a"]
      keepsD [OF copyCoreDiretories_frame a3, of ?m "name a"]
      keepsD [OF copyRequiredFiles_frame a4, of ?m "name a"] footprint_far [OF far n(1) m, of x] a1 2
    by (simp add: same_outside_def)
  have clone6: "stat (fsys u6) (tempDir e @ x) = stat (fsys w1) (tempDir e @ x)" for x
    using keepsD [OF copyLLMFile_frame a5] keepsD [OF configurePRPTemplate_frame a6, of ?m "name a"]
      footprint_far [OF far n(1) m, of x] far_apart [OF far, of "[?m @ ''.md'']" x] clone4 [of x]
    by (simp add: same_outside_def jq)
  have later: "stat (fsys w') ?q \<noteq> None \<longleftrightarrow> stat (fsys w3) ?q \<noteq> None"
  proof -
    have "\<not> prefix (path_join ?proj [''.context'', ''templates'']) ?q"
      by (simp add: path_join_def)
    with cleanupTemplateFiles_frame [OF n3 t] have "stat (fsys w4) ?q = stat (fsys w3) ?q"
      by (simp add: same_outside_def)
    moreover have "fsys w5 = fsys w4"
      using keepsD [OF report_success_quiet(1) r] by simp
    moreover have "\<not> prefix (tempDir e) ?q"
      using near_below [of "tempDir e" ?proj "[?m @ ''.md'']"] far
      by (auto simp: near_def)
    ultimately show ?thesis
      unfolding f [THEN conjunct2] by (simp add: stat_remove_tree)
  qed
  show ?thesis
  proof (cases "stat (fsys w1) ?s1 \<noteq> None")
    case True
    with clone4 [of "[?m @ ''.md'']"] have "stat (fsys u4) (path_join (tempDir e) [?m @ ''.md'']) \<noteq> None"
      by (simp add: j1)
    from copyLLMFile_copies [OF a5 this] have "stat (fsys u5) ?q \<noteq> None"
      by (simp add: jq)
    with keepsD [OF lasts_configurePRPTemplate a6, of ?q] have "stat (fsys u6) ?q \<noteq> None"
      by (simp add: inv_rel_def)
    with keepsD [OF lasts_applyLanguageRules a7, of ?q] have "stat (fsys u7) ?q \<noteq> None"
      by (simp add: inv_rel_def)
    with keepsD [OF lasts_initializeProjectStructure a8, of ?q] have "stat (fsys w3) ?q \<noteq> None"
      by (simp add: inv_rel_def)
    with later True show ?thesis by simp
  next
    case no1: False
    show ?thesis
    proof (cases "stat (fsys w1) ?s2 \<noteq> None")
      case True
      with clone6 [of "[''Rules'', lang a @ ''.md'']"]
      have "stat (fsys u6) (path_join (tempDir e) [''Rules'', lang a @ ''.md'']) \<noteq> None"
        by (simp add: j2)
      from applyLanguageRules_writes [OF a7 this] have "stat (fsys u7) ?q \<noteq> None"
        by (simp add: jq)
      with keepsD [OF lasts_initializeProjectStructure a8, of ?q] have "stat (fsys w3) ?q \<noteq> None"
        by (simp add: inv_rel_def)
      with later True show ?thesis by simp
    next
      case no2: False
      from m obtain other where o: "other \<in> set SUPPORTED_LLMS" "other \<noteq> ?m"
        using other_llm by blast
      have out: "\<not> destination_footprint ?proj other (name a) ?q"
        using footprint_other [OF n(1) o(1) m _ n(2), of "cwd e"] o(2) by simp
      have free: "stat (fsys w1) ?proj = None"
      proof (rule ccontr)
        assume "stat (fsys w1) ?proj \<noteq> None"
        from validate_throws [OF this] v show False by auto
      qed
      with keepsD [OF setup_phase_grows s] have "stat fs ?proj = None"
        by (auto simp: grows_only_def init_world_def)
      from absent_below [OF par this] have "stat fs ?q = None" .
      moreover have "\<not> near (tempDir e) ?q"
        using near_below [of "tempDir e" ?proj "[?m @ ''.md'']"] far by (auto simp: near_def)
      ultimately have q1: "stat (fsys w1) ?q = None"
        using keepsD [OF setup_phase_frame s] by (simp add: same_outside_def init_world_def)
      have q4: "stat (fsys u4) ?q = None"
        using keepsD [OF createProjectDirectory_frame a2, of other "name a"]
          keepsD [OF copyCoreDiretories_frame a3, of other "name a"]
          keepsD [OF copyRequiredFiles_frame a4, of other "name a"] out a1 2 q1
        by (simp add: same_outside_def)
      from no1 clone4 [of "[?m @ ''.md'']"] have "stat (fsys u4) (path_join (tempDir e) [?m @ ''.md'']) = None"
        by (simp add: j1)
      from copyLLMFile_skips [OF this, of ?proj] a5 have "u5 = u4" by simp
      with q4 keepsD [OF configurePRPTemplate_frame a6, of other "name a"] out
      have q6: "stat (fsys u6) ?q = None"
        by (simp add: same_outside_def)
      from no2 clone6 [of "[''Rules'', lang a @ ''.md'']"]
      have "stat (fsys u6) (path_join (tempDir e) [''Rules'', lang a @ ''.md'']) = None"
        by (simp add: j2)
      from applyLanguageRules_skips [OF this a7] q6 have "stat (fsys u7) ?q = None" by simp
      with keepsD [OF initializeProjectStructure_frame a8, of other] out
      have "stat (fsys w3) ?q = None"
        by (simp add: same_outside_def)
      with later no1 no2 show ?thesis by simp
    qed
  qed
qed

section \<open>The claims\<close>

text \<open>
  C4. When the per-language template variant is there, step 4 (in the refactored
  \<open>configurePRPTemplate\<close> and in the same lines of the original script) returns normally
  and writes \<^verbatim>\<open>prp_template.md\<close>. The step reads the variant as UTF-8 text; the
  placeholder occurs in that text as often as in the bytes of the file, N times. The
  text is N+1 pieces glued by the placeholder, and the file written is the same pieces
  glued by the selected LLM name; the placeholder does not occur in it any more. The text
  is the content of the file itself whenever that is well-formed UTF-8 (decoding leaves
  it as it is), as it is for a content of ASCII characters; in an ill-formed content
  each ill-formed part is replaced by U+FFFD, in the text and so in the file written.
\<close>

theorem placeholder_substitution:
  assumes "m \<in> set SUPPORTED_LLMS"
    and "stat (fsys w) (path_join projectDir [''.context'', ''templates'', ''prp_template_'' @ language @ ''.md''])
           = Some (File content)"
    and "stat (fsys w) (path_join projectDir [''.context'', ''templates'']) = Some Dir"
    and "stat (fsys w) (path_join projectDir [''.context'', ''templates'', ''prp_template.md'']) \<noteq> Some Dir"
  shows "\<exists>gs. toString_utf8 content = join PLACEHOLDER gs
           \<and> length gs = Suc (count_occ PLACEHOLDER content)
           \<and> count_occ PLACEHOLDER (join m gs) = 0
           \<and> (\<exists>w'. configurePRPTemplate projectDir language m w = (Return (), w')
                 \<and> stat (fsys w') (path_join projectDir [''.context'', ''templates'', ''prp_template.md''])
                     = Some (File (join m gs)))
           \<and> (\<exists>w'. original_prp projectDir language m w = (Return (), w')
                 \<and> stat (fsys w') (path_join projectDir [''.context'', ''templates'', ''prp_template.md''])
                     = Some (File (join m gs)))
           \<and> (toString_utf8 content = content \<longrightarrow> content = join PLACEHOLDER gs)
           \<and> ((\<forall>c \<in> set content. of_char c < (0x80 :: nat)) \<longrightarrow> content = join PLACEHOLDER gs)"
proof -
  let ?text = "toString_utf8 content"
  let ?gs = "split_on PLACEHOLDER ?text"
  let ?prp = "path_join projectDir [''.context'', ''templates'', ''prp_template.md'']"
  have out: "replace_global PLACEHOLDER m ?text = join m ?gs"
    by (rule replace_global_join)
  have parent: "butlast ?prp = path_join projectDir [''.context'', ''templates'']"
    by (simp add: path_join_def butlast_append)
  have ne: "?prp \<noteq> []"
    by (simp add: path_join_def)
  have 1: "?text = join PLACEHOLDER ?gs"
    by (simp add: join_split_on)
  have "length ?gs = Suc (count_occ PLACEHOLDER ?text)"
    by (rule length_split_on_placeholder)
  then have 2: "length ?gs = Suc (count_occ PLACEHOLDER content)"
    by (simp add: count_occ_toString_utf8)
  have 3: "count_occ PLACEHOLDER (join m ?gs) = 0"
    using count_occ_replace_global [OF assms(1), of ?text] by (simp add: out)
  have 4: "\<exists>w'. configurePRPTemplate projectDir language m w = (Return (), w')
             \<and> stat (fsys w') ?prp = Some (File (join m ?gs))"
    using assms(2,3,4) parent ne
    by (simp add: configurePRPTemplate_def Let_def andThen_def existsSync_def readFileSync_def
          writeFileSync_def console_log_def out stat_def)
  have 5: "\<exists>w'. original_prp projectDir language m w = (Return (), w')
             \<and> stat (fsys w') ?prp = Some (File (join m ?gs))"
    using assms(2,3,4) parent ne
    by (simp add: original_prp_def Let_def andThen_def existsSync_def readFileSync_def
          writeFileSync_def out stat_def)
  from 1 have 6: "?text = content \<longrightarrow> content = join PLACEHOLDER ?gs"
    by metis
  from 6 toString_utf8_ascii [of content]
  have 7: "(\<forall>c \<in> set content. of_char c < (0x80 :: nat)) \<longrightarrow> content = join PLACEHOLDER ?gs"
    by blast
  from 1 2 3 4 5 6 7 show ?thesis by blast
qed

theorem placeholder_substitution_witness:
  "''CLAUDE'' \<in> set SUPPORTED_LLMS
   \<and> stat (fsys demo_staged)
       (path_join [''home'', ''app''] [''.context'', ''templates'', ''prp_template_'' @ ''py'' @ ''.md''])
       = Some (File ''ask {{LLM_AGENT}}, then {{LLM_AGENT}}.'')
   \<and> stat (fsys demo_staged) (path_join [''home'', ''app''] [''.context'', ''templates'']) = Some Dir
   \<and> stat (fsys demo_staged) (path_join [''home'', ''app''] [''.context'', ''templates'', ''prp_template.md''])
       \<noteq> Some Dir
   \<and> toString_utf8 ''ask {{LLM_AGENT}}, then {{LLM_AGENT}}.'' = ''ask {{LLM_AGENT}}, then {{LLM_AGENT}}.''
   \<and> (\<exists>gs. ''ask {{LLM_AGENT}}, then {{LLM_AGENT}}.'' = join PLACEHOLDER gs
         \<and> length gs = Suc (count_occ PLACEHOLDER ''ask {{LLM_AGENT}}, then {{LLM_AGENT}}.'')
         \<and> count_occ PLACEHOLDER (join ''CLAUDE'' gs) = 0
         \<and> (\<exists>w'. configurePRPTemplate [''home'', ''app''] ''py'' ''CLAUDE'' demo_staged = (Return (), w')
               \<and> stat (fsys w') (path_join [''home'', ''app''] [''.context'', ''templates'', ''prp_template.md''])
                   = Some (File (join ''CLAUDE'' gs)))
         \<and> (\<exists>w'. original_prp [''home'', ''app''] ''py'' ''CLAUDE'' demo_staged = (Return (), w')
               \<and> stat (fsys w') (path_join [''home'', ''app''] [''.context'', ''templates'', ''prp_template.md''])
                   = Some (File (join ''CLAUDE'' gs))))"
proof -
  have h1: "''CLAUDE'' \<in> set SUPPORTED_LLMS"
    by (simp add: SUPPORTED_LLMS_def)
  have h2: "stat (fsys demo_staged)
       (path_join [''home'', ''app''] [''.context'', ''templates'', ''prp_template_'' @ ''py'' @ ''.md''])
       = Some (File ''ask {{LLM_AGENT}}, then {{LLM_AGENT}}.'')"
    by code_simp
  have h3: "stat (fsys demo_staged) (path_join [''home'', ''app''] [''.context'', ''templates'']) = Some Dir"
    by code_simp
  have h4: "stat (fsys demo_staged) (path_join [''home'', ''app''] [''.context'', ''templates'', ''prp_template.md''])
       \<noteq> Some Dir"
    by code_simp
  have h5: "toString_utf8 ''ask {{LLM_AGENT}}, then {{LLM_AGENT}}.'' = ''ask {{LLM_AGENT}}, then {{LLM_AGENT}}.''"
    by code_simp
  from placeholder_substitution [OF h1 h2 h3 h4] h5
  have "\<exists>gs. ''ask {{LLM_AGENT}}, then {{LLM_AGENT}}.'' = join PLACEHOLDER gs
         \<and> length gs = Suc (count_occ PLACEHOLDER ''ask {{LLM_AGENT}}, then {{LLM_AGENT}}.'')
         \<and> count_occ PLACEHOLDER (join ''CLAUDE'' gs) = 0
         \<and> (\<exists>w'. configurePRPTemplate [''home'', ''app''] ''py'' ''CLAUDE'' demo_staged = (Return (), w')
               \<and> stat (fsys w') (path_join [''home'', ''app''] [''.context'', ''templates'', ''prp_template.md''])
                   = Some (File (join ''CLAUDE'' gs)))
         \<and> (\<exists>w'. original_prp [''home'', ''app''] ''py'' ''CLAUDE'' demo_staged = (Return (), w')
               \<and> stat (fsys w') (path_join [''home'', ''app''] [''.context'', ''templates'', ''prp_template.md''])
                   = Some (File (join ''CLAUDE'' gs)))"
    by metis
  with h1 h2 h3 h4 h5 show ?thesis by blast
qed

text \<open>
  An ill-formed variant, the bytes \<^verbatim>\<open>61 FF\<close> followed by the placeholder: the text read is
  \<^verbatim>\<open>a\<close>, U+FFFD and the placeholder, and what step 4 writes for Claude is \<^verbatim>\<open>a\<close>, U+FFFD,
  \<^verbatim>\<open>CLAUDE\<close>.
\<close>

lemma ill_formed_variant_example:
  "toString_utf8 ([CHR 0x61, CHR 0xFF] @ PLACEHOLDER) = [CHR 0x61, CHR 0xEF, CHR 0xBF, CHR 0xBD] @ PLACEHOLDER
   \<and> replace_global PLACEHOLDER ''CLAUDE'' (toString_utf8 ([CHR 0x61, CHR 0xFF] @ PLACEHOLDER))
       = [CHR 0x61, CHR 0xEF, CHR 0xBF, CHR 0xBD] @ ''CLAUDE''"
  by code_simp

text \<open>
  C1. In the original cloning script the two arguments of the write in step 5 are
  swapped. Run on the staged sample world, the step returns normally, the rules document
  in the clone then holds the path of the destination's branding file, and the
  destination's \<^verbatim>\<open>CLAUDE.md\<close> still holds the branding text. The whole script, run on the
  sample machine, succeeds with the branding text (not the Python rules) in
  \<^verbatim>\<open>/home/app/CLAUDE.md\<close>.
\<close>

theorem original_rules_writes_path:
  "(\<exists>w'. original_rules [''tmp'', ''cef-1a2b3c''] [''home'', ''app''] ''py'' ''CLAUDE'' demo_staged = (Return (), w')
       \<and> stat (fsys w') [''tmp'', ''cef-1a2b3c'', ''Rules'', ''py.md''] = Some (File ''/home/app/CLAUDE.md'')
       \<and> stat (fsys w') [''home'', ''app'', ''CLAUDE.md''] = Some (File ''claude branding''))
   \<and> fst (run (original_script demo_env) (init_world demo_fs)) = 0
   \<and> stat (fsys (snd (run (original_script demo_env) (init_world demo_fs)))) [''home'', ''app'', ''CLAUDE.md'']
       = Some (File ''claude branding'')"
proof -
  have a: "fst (original_rules [''tmp'', ''cef-1a2b3c''] [''home'', ''app''] ''py'' ''CLAUDE'' demo_staged) = Return ()"
    by code_simp
  have b: "stat (fsys (snd (original_rules [''tmp'', ''cef-1a2b3c''] [''home'', ''app''] ''py'' ''CLAUDE'' demo_staged)))
             [''tmp'', ''cef-1a2b3c'', ''Rules'', ''py.md''] = Some (File ''/home/app/CLAUDE.md'')"
    by code_simp
  have c: "stat (fsys (snd (original_rules [''tmp'', ''cef-1a2b3c''] [''home'', ''app''] ''py'' ''CLAUDE'' demo_staged)))
             [''home'', ''app'', ''CLAUDE.md''] = Some (File ''claude branding'')"
    by code_simp
  have d: "fst (run (original_script demo_env) (init_world demo_fs)) = 0"
    by code_simp
  have e: "stat (fsys (snd (run (original_script demo_env) (init_world demo_fs)))) [''home'', ''app'', ''CLAUDE.md'']
       = Some (File ''claude branding'')"
    by code_simp
  from a b c have "\<exists>w'. original_rules [''tmp'', ''cef-1a2b3c''] [''home'', ''app''] ''py'' ''CLAUDE'' demo_staged = (Return (), w')
       \<and> stat (fsys w') [''tmp'', ''cef-1a2b3c'', ''Rules'', ''py.md''] = Some (File ''/home/app/CLAUDE.md'')
       \<and> stat (fsys w') [''home'', ''app'', ''CLAUDE.md''] = Some (File ''claude branding'')"
    by (metis prod.collapse)
  with d e show ?thesis by blast
qed

text \<open>
  C2. In the refactored script the \<^verbatim>\<open>catch\<close> block ends the process with
  \<^verbatim>\<open>process.exit(1)\<close>, so the \<^verbatim>\<open>finally\<close> block that removes the clone is not reached. Run
  on the sample machine with the destination already there, the script exits with
  status 1 and the temporary clone directory, absent before the run, exists after it.
  The original script, which removes the clone only as its last step, leaves it behind
  in the same way.
\<close>

theorem clone_left_behind_on_failure:
  "stat demo_fs_taken (tempDir demo_env) = None
   \<and> fst (run (main demo_env) (init_world demo_fs_taken)) = 1
   \<and> stat (fsys (snd (run (main demo_env) (init_world demo_fs_taken)))) (tempDir demo_env) = Some Dir
   \<and> fst (run (original_script demo_env) (init_world demo_fs_taken)) = 1
   \<and> stat (fsys (snd (run (original_script demo_env) (init_world demo_fs_taken)))) (tempDir demo_env) = Some Dir"
proof -
  have a: "stat demo_fs_taken (tempDir demo_env) = None"
    by code_simp
  have b: "fst (run (main demo_env) (init_world demo_fs_taken)) = 1"
    by code_simp
  have c: "stat (fsys (snd (run (main demo_env) (init_world demo_fs_taken)))) (tempDir demo_env) = Some Dir"
    by code_simp
  have d: "fst (run (original_script demo_env) (init_world demo_fs_taken)) = 1"
    by code_simp
  have e: "stat (fsys (snd (run (original_script demo_env) (init_world demo_fs_taken)))) (tempDir demo_env) = Some Dir"
    by code_simp
  from a b c d e show ?thesis by blast
qed

text \<open>
  C3. When the destination \<^verbatim>\<open><cwd>/<name>\<close> already exists and the command line asks for
  neither help nor the version, both cloning scripts exit with status 1, and whatever
  existed before the run, the destination included, is left exactly as it was. But the
  run is not without a write: if the clone succeeds, the file system after the run is
  the one right after the clone, with the temporary clone directory in it. The refactored
  script ends in its \<^verbatim>\<open>catch\<close> block with \<^verbatim>\<open>process.exit(1)\<close>, which skips the \<^verbatim>\<open>finally\<close>
  block that would remove the clone; the original script removes the clone only as its
  last step.
\<close>

theorem existing_destination_leaves_clone:
  assumes "raw_name (argv e) = Some n" and "stat fs (path_resolve (cwd e) n) \<noteq> None"
    and "\<not> asks_usage (argv e)"
  shows "rejected (main e) (tempDir e) fs \<and> rejected (original_script e) (tempDir e) fs
         \<and> (\<forall>fs1. cloned e fs = Some fs1 \<longrightarrow>
               stat fs1 (tempDir e) = Some Dir
               \<and> fsys (snd (run (main e) (init_world fs))) = fs1
               \<and> fsys (snd (run (original_script e) (init_world fs))) = fs1)"
proof (intro conjI allI impI)
  have taken: "stat (fsys w1) (path_resolve (cwd e) (name a)) \<noteq> None"
    if "grows_only (fsys (init_world fs)) (fsys w1)" "raw_name (argv e) = Some (name a)" for a w1
    using that assms(1,2) by (auto simp: grows_only_def init_world_def)
  show "rejected (main e) (tempDir e) fs"
  proof (rule rejected_main [OF _ assms(3)])
    fix a w1
    assume s: "setup_phase e (init_world fs) = (Return a, w1)"
    from taken [OF setup_phase_returns(1,2) [OF s]]
    show "stat (fsys w1) (path_resolve (cwd e) (name a)) \<noteq> None" .
  qed
  show "rejected (original_script e) (tempDir e) fs"
  proof (rule rejected_original [OF _ assms(3)])
    fix a w1
    assume s: "original_setup e (init_world fs) = (Return a, w1)"
    from taken [OF original_setup_returns(1,2) [OF s]]
    show "stat (fsys w1) (path_resolve (cwd e) (name a)) \<noteq> None" .
  qed
  fix fs1
  assume c: "cloned e fs = Some fs1"
  then show "stat fs1 (tempDir e) = Some Dir" by (rule cloned_dir)
  obtain r w1 where s: "setup_phase e (init_world fs) = (r, w1)"
    by (cases "setup_phase e (init_world fs)")
  have "fsys (snd (run (main e) (init_world fs))) = fsys w1"
    using s by (rule main_fails_with_clone) (use s taken setup_phase_returns(1,2) in blast)
  with setup_phase_after_clone [OF c s]
  show "fsys (snd (run (main e) (init_world fs))) = fs1" by simp
  obtain r' w1' where s': "original_setup e (init_world fs) = (r', w1')"
    by (cases "original_setup e (init_world fs)")
  have "fsys (snd (run (original_script e) (init_world fs))) = fsys w1'"
    using s' by (rule original_fails_with_clone) (use s' taken original_setup_returns(1,2) in blast)
  with original_setup_after_clone [OF c s']
  show "fsys (snd (run (original_script e) (init_world fs))) = fs1" by simp
qed

theorem existing_destination_leaves_clone_witness:
  "raw_name (argv demo_env) = Some ''app''
   \<and> stat demo_fs_taken (path_resolve (cwd demo_env) ''app'') \<noteq> None
   \<and> \<not> asks_usage (argv demo_env)
   \<and> cloned demo_env demo_fs_taken = Some (the (cloned demo_env demo_fs_taken))
   \<and> stat demo_fs_taken (tempDir demo_env) = None
   \<and> rejected (main demo_env) (tempDir demo_env) demo_fs_taken
   \<and> rejected (original_script demo_env) (tempDir demo_env) demo_fs_taken
   \<and> stat (fsys (snd (run (main demo_env) (init_world demo_fs_taken)))) (tempDir demo_env) = Some Dir
   \<and> stat (fsys (snd (run (original_script demo_env) (init_world demo_fs_taken)))) (tempDir demo_env) = Some Dir"
proof -
  have h1: "raw_name (argv demo_env) = Some ''app''"
    by code_simp
  have h2: "stat demo_fs_taken (path_resolve (cwd demo_env) ''app'') \<noteq> None"
    by code_simp
  have h3: "\<not> asks_usage (argv demo_env)"
    by code_simp
  have "cloned demo_env demo_fs_taken \<noteq> None"
    by code_simp
  then have c: "cloned demo_env demo_fs_taken = Some (the (cloned demo_env demo_fs_taken))"
    by simp
  have b: "stat demo_fs_taken (tempDir demo_env) = None"
    by code_simp
  note t = existing_destination_leaves_clone [OF h1 h2 h3]
  from t c have "stat (fsys (snd (run (main demo_env) (init_world demo_fs_taken)))) (tempDir demo_env) = Some Dir"
    and "stat (fsys (snd (run (original_script demo_env) (init_world demo_fs_taken)))) (tempDir demo_env) = Some Dir"
    by metis+
  with t h1 h2 h3 c b show ?thesis by blast
qed

text \<open>
  C7 (as amended). When the clone succeeds and its Rules directory exists but lists no
  \<^verbatim>\<open>.md\<close> file, the refactored script exits with status 1, whatever the command line,
  with nothing written outside the temporary clone and with
  \<^verbatim>\<open>Error: No language files found in Rules directory\<close> as the only line on the error
  stream: it checks the list before it parses the command line. The original script has
  no such check. It hands the empty list to the argument parser as the choices of
  \<^verbatim>\<open>lang\<close>: a command line that asks for neither help nor the version is then rejected
  with status 1 and one line of the parser on the error stream, which says nothing of
  the Rules directory; and a command line that asks for help or for the version is
  served with status 0 and an empty error stream.
\<close>

theorem empty_rules_directory_fails:
  assumes "cloned e fs = Some fs1"
    and "stat fs1 (path_join (tempDir e) [''Rules'']) = Some Dir"
    and "filter (\<lambda>file. endsWith file ''.md'') (children fs1 (path_join (tempDir e) [''Rules''])) = []"
  shows "rejected (main e) (tempDir e) fs
         \<and> stderr (snd (run (main e) (init_world fs))) = [''Error: No language files found in Rules directory'']
         \<and> (\<not> asks_usage (argv e) \<longrightarrow>
               rejected (original_script e) (tempDir e) fs
               \<and> (\<exists>msg. stderr (snd (run (original_script e) (init_world fs))) = [msg]
                     \<and> msg \<in> {''Missing required argument'', ''Unknown argument'', ''Invalid values''}))
         \<and> (asks_usage (argv e) \<longrightarrow>
               fst (run (original_script e) (init_world fs)) = 0
               \<and> stderr (snd (run (original_script e) (init_world fs))) = []
               \<and> fsys (snd (run (original_script e) (init_world fs))) = fs1)"
proof (intro conjI impI)
  from cloneRepository_of_cloned(1) [OF assms(1)] obtain w1
    where c: "cloneRepository (remote e) (tempDir e) (init_world fs) = (Return (), w1)"
      and f: "fsys w1 = fs1" and q: "stderr w1 = []" by blast
  from assms(2,3) f
  have g: "getAvailableLanguages (tempDir e) w1 = (Throw ''No language files found in Rules directory'', w1)"
    by (simp add: getAvailableLanguages_def Let_def andThen_def existsSync_def readdirSync_def throw_def)
  from c g have s: "setup_phase e (init_world fs) = (Throw ''No language files found in Rules directory'', w1)"
    by (simp add: setup_phase_def andThen_goes andThen_stops)
  then show "rejected (main e) (tempDir e) fs"
    by (intro rejected_main_when) simp_all
  from s have "main_try e (init_world fs) = (Throw ''No language files found in Rules directory'', w1)"
    by (simp add: main_try_def andThen_stops)
  from main_of_thrown [OF this] q
  show "stderr (snd (run (main e) (init_world fs))) = [''Error: No language files found in Rules directory'']"
    by simp
next
  assume u: "\<not> asks_usage (argv e)"
  from cloneRepository_of_cloned(2) [OF assms(1)] obtain w1
    where c: "git_clone (remote e) (tempDir e) (init_world fs) = (Return (), w1)"
      and f: "fsys w1 = fs1" and q: "stderr w1 = []" by blast
  from assms(2,3) f c have d: "original_discover e (init_world fs) = (Return [], w1)"
    by (simp add: original_discover_def andThen_def readdirSync_def ret_def)
  from yargs_parse_no_choice [OF u, of False "[''GEMINI'', ''CLAUDE'']" w1] obtain w2 msg
    where p: "yargs_parse False [] [''GEMINI'', ''CLAUDE''] (argv e) w1 = (Exit 1, w2)"
      and e: "stderr w2 = stderr w1 @ [msg]"
      and m: "msg \<in> {''Missing required argument'', ''Unknown argument'', ''Invalid values''}"
    by blast
  from d p have s: "original_setup e (init_world fs) = (Exit 1, w2)"
    by (simp add: original_setup_def andThen_goes)
  then show "rejected (original_script e) (tempDir e) fs"
    by (intro rejected_original_when) simp_all
  from s have "original_script e (init_world fs) = (Exit 1, w2)"
    by (simp add: original_script_def andThen_stops)
  with e q m show "\<exists>msg. stderr (snd (run (original_script e) (init_world fs))) = [msg]
                     \<and> msg \<in> {''Missing required argument'', ''Unknown argument'', ''Invalid values''}"
    by (simp add: run_def)
next
  assume u: "asks_usage (argv e)"
  from cloneRepository_of_cloned(2) [OF assms(1)] obtain w1
    where c: "git_clone (remote e) (tempDir e) (init_world fs) = (Return (), w1)"
      and f: "fsys w1 = fs1" and q: "stderr w1 = []" by blast
  from assms(2,3) f c have d: "original_discover e (init_world fs) = (Return [], w1)"
    by (simp add: original_discover_def andThen_def readdirSync_def ret_def)
  from yargs_parse_usage [OF u, of False "[]" "[''GEMINI'', ''CLAUDE'']" w1] obtain w2
    where p: "yargs_parse False [] [''GEMINI'', ''CLAUDE''] (argv e) w1 = (Exit 0, w2)"
      and k: "fsys w2 = fsys w1" "stderr w2 = stderr w1"
    by blast
  from d p have "original_setup e (init_world fs) = (Exit 0, w2)"
    by (simp add: original_setup_def andThen_goes)
  then have r: "run (original_script e) (init_world fs) = (0, w2)"
    by (simp add: original_script_def andThen_stops run_def)
  from r show "fst (run (original_script e) (init_world fs)) = 0" by simp
  from r k q show "stderr (snd (run (original_script e) (init_world fs))) = []" by simp
  from r k f show "fsys (snd (run (original_script e) (init_world fs))) = fs1" by simp
qed

theorem empty_rules_directory_fails_witness:
  "cloned demo_env_no_rules demo_fs = Some (the (cloned demo_env_no_rules demo_fs))
   \<and> stat (the (cloned demo_env_no_rules demo_fs)) (path_join (tempDir demo_env_no_rules) [''Rules'']) = Some Dir
   \<and> filter (\<lambda>file. endsWith file ''.md'')
        (children (the (cloned demo_env_no_rules demo_fs)) (path_join (tempDir demo_env_no_rules) [''Rules''])) = []
   \<and> \<not> asks_usage (argv demo_env_no_rules)
   \<and> rejected (main demo_env_no_rules) (tempDir demo_env_no_rules) demo_fs
   \<and> stderr (snd (run (main demo_env_no_rules) (init_world demo_fs)))
       = [''Error: No language files found in Rules directory'']
   \<and> rejected (original_script demo_env_no_rules) (tempDir demo_env_no_rules) demo_fs
   \<and> stderr (snd (run (original_script demo_env_no_rules) (init_world demo_fs))) = [''Invalid values'']
   \<and> cloned demo_env_no_rules_help demo_fs = Some (the (cloned demo_env_no_rules demo_fs))
   \<and> tempDir demo_env_no_rules_help = tempDir demo_env_no_rules
   \<and> asks_usage (argv demo_env_no_rules_help)
   \<and> rejected (main demo_env_no_rules_help) (tempDir demo_env_no_rules_help) demo_fs
   \<and> fst (run (original_script demo_env_no_rules_help) (init_world demo_fs)) = 0"
proof -
  have "cloned demo_env_no_rules demo_fs \<noteq> None"
    by code_simp
  then have h1: "cloned demo_env_no_rules demo_fs = Some (the (cloned demo_env_no_rules demo_fs))"
    by simp
  have h2: "stat (the (cloned demo_env_no_rules demo_fs)) (path_join (tempDir demo_env_no_rules) [''Rules''])
              = Some Dir"
    by code_simp
  have h3: "filter (\<lambda>file. endsWith file ''.md'')
              (children (the (cloned demo_env_no_rules demo_fs)) (path_join (tempDir demo_env_no_rules) [''Rules'']))
              = []"
    by code_simp
  have h4: "\<not> asks_usage (argv demo_env_no_rules)"
    by code_simp
  have v: "stderr (snd (run (original_script demo_env_no_rules) (init_world demo_fs))) = [''Invalid values'']"
    by code_simp
  have t: "tempDir demo_env_no_rules_help = tempDir demo_env_no_rules"
    by (simp add: demo_env_no_rules_help_def)
  have "cloned demo_env_no_rules_help demo_fs = cloned demo_env_no_rules demo_fs"
    by (simp add: cloned_def demo_env_no_rules_help_def)
  with h1 have k1: "cloned demo_env_no_rules_help demo_fs = Some (the (cloned demo_env_no_rules demo_fs))"
    by simp
  have k4: "asks_usage (argv demo_env_no_rules_help)"
    by code_simp
  note a = empty_rules_directory_fails [OF h1 h2 h3]
  note b = empty_rules_directory_fails [OF k1 h2 [folded t] h3 [folded t]]
  from b k4 have b': "rejected (main demo_env_no_rules_help) (tempDir demo_env_no_rules_help) demo_fs
                      \<and> fst (run (original_script demo_env_no_rules_help) (init_world demo_fs)) = 0"
    by blast
  from a h1 h2 h3 h4 v k1 t k4 b' show ?thesis by blast
qed

text \<open>
  The claim as stated fails for the original script: on a template whose Rules directory
  holds no \<^verbatim>\<open>.md\<close> file, a command line that also asks for help is served. The run exits
  with status 0 and nothing on the error stream, where the refactored script, given the
  same, exits with status 1.
\<close>

theorem empty_rules_directory_counterexample:
  "cloned demo_env_no_rules_help demo_fs \<noteq> None
   \<and> stat (the (cloned demo_env_no_rules_help demo_fs)) (path_join (tempDir demo_env_no_rules_help) [''Rules''])
       = Some Dir
   \<and> filter (\<lambda>file. endsWith file ''.md'')
        (children (the (cloned demo_env_no_rules_help demo_fs)) (path_join (tempDir demo_env_no_rules_help) [''Rules'']))
       = []
   \<and> raw_help (argv demo_env_no_rules_help)
   \<and> fst (run (original_script demo_env_no_rules_help) (init_world demo_fs)) = 0
   \<and> stderr (snd (run (original_script demo_env_no_rules_help) (init_world demo_fs))) = []
   \<and> fst (run (main demo_env_no_rules_help) (init_world demo_fs)) = 1"
proof -
  have a: "cloned demo_env_no_rules_help demo_fs \<noteq> None"
    by code_simp
  have b: "stat (the (cloned demo_env_no_rules_help demo_fs)) (path_join (tempDir demo_env_no_rules_help) [''Rules''])
       = Some Dir"
    by code_simp
  have c: "filter (\<lambda>file. endsWith file ''.md'')
        (children (the (cloned demo_env_no_rules_help demo_fs)) (path_join (tempDir demo_env_no_rules_help) [''Rules'']))
       = []"
    by code_simp
  have d: "raw_help (argv demo_env_no_rules_help)"
    by code_simp
  have e: "fst (run (original_script demo_env_no_rules_help) (init_world demo_fs)) = 0"
    by code_simp
  have f: "stderr (snd (run (original_script demo_env_no_rules_help) (init_world demo_fs))) = []"
    by code_simp
  have g: "fst (run (main demo_env_no_rules_help) (init_world demo_fs)) = 1"
    by code_simp
  from a b c d e f g show ?thesis by blast
qed

text \<open>
  C8. A command line that asks for neither help nor the version, and whose \<^verbatim>\<open>lang\<close> is not
  among the discovered languages or whose \<^verbatim>\<open>llm\<close> in upper case is neither \<^verbatim>\<open>GEMINI\<close> nor
  \<^verbatim>\<open>CLAUDE\<close>, makes both cloning scripts exit with status 1, and whatever existed is left
  as it was. But the rejection is not without a side effect: if the clone succeeds, the
  file system after the run is the one right after the clone, with the temporary clone
  directory in it, because the argument parser ends the process itself and the removal
  of the clone is never reached. Every accepted command line passes on the \<^verbatim>\<open>llm\<close> value in
  upper case, and that value is one of the two names. Upper case is that of JavaScript's
  \<^verbatim>\<open>toUpperCase\<close>, under which the dotless i (U+0131) becomes \<^verbatim>\<open>I\<close> as well.
\<close>

theorem invalid_arguments_leave_clone:
  assumes "\<not> asks_usage (argv e)"
  shows "(raw_lang (argv e) = Some l \<and> (\<forall>langs. discovered e fs = Some langs \<longrightarrow> l \<notin> set langs)
            \<or> raw_llm (argv e) = Some m \<and> toUpperCase m \<notin> set SUPPORTED_LLMS
          \<longrightarrow> rejected (main e) (tempDir e) fs
              \<and> (\<forall>fs1. cloned e fs = Some fs1 \<longrightarrow>
                    stat fs1 (tempDir e) = Some Dir \<and> fsys (snd (run (main e) (init_world fs))) = fs1))
         \<and> (raw_lang (argv e) = Some l
              \<and> (\<forall>langs w. original_discover e (init_world fs) = (Return langs, w) \<longrightarrow> l \<notin> set langs)
            \<or> raw_llm (argv e) = Some m \<and> toUpperCase m \<notin> set SUPPORTED_LLMS
          \<longrightarrow> rejected (original_script e) (tempDir e) fs
              \<and> (\<forall>fs1. cloned e fs = Some fs1 \<longrightarrow>
                    stat fs1 (tempDir e) = Some Dir
                    \<and> fsys (snd (run (original_script e) (init_world fs))) = fs1))
         \<and> (\<forall>a w w'. setup_phase e w = (Return a, w') \<or> original_setup e w = (Return a, w')
              \<longrightarrow> (\<exists>m. raw_llm (argv e) = Some m \<and> llm a = toUpperCase m) \<and> llm a \<in> set SUPPORTED_LLMS)"
proof (intro conjI impI allI)
  assume bad: "raw_lang (argv e) = Some l \<and> (\<forall>langs. discovered e fs = Some langs \<longrightarrow> l \<notin> set langs)
                 \<or> raw_llm (argv e) = Some m \<and> toUpperCase m \<notin> set SUPPORTED_LLMS"
  have never: False if s: "setup_phase e (init_world fs) = (Return a, w1)" for a w1
    using bad discovered_of_setup [OF s] setup_phase_returns(3,4,5) [OF s] by auto
  show "rejected (main e) (tempDir e) fs"
    using assms by (intro rejected_main) (use never in blast)
  fix fs1
  assume c: "cloned e fs = Some fs1"
  then show "stat fs1 (tempDir e) = Some Dir" by (rule cloned_dir)
  obtain r w1 where s: "setup_phase e (init_world fs) = (r, w1)"
    by (cases "setup_phase e (init_world fs)")
  have "fsys (snd (run (main e) (init_world fs))) = fsys w1"
    using s by (rule main_fails_with_clone) (use s never in blast)
  with setup_phase_after_clone [OF c s]
  show "fsys (snd (run (main e) (init_world fs))) = fs1" by simp
next
  assume bad: "raw_lang (argv e) = Some l
                 \<and> (\<forall>langs w. original_discover e (init_world fs) = (Return langs, w) \<longrightarrow> l \<notin> set langs)
               \<or> raw_llm (argv e) = Some m \<and> toUpperCase m \<notin> set SUPPORTED_LLMS"
  have never: False if s: "original_setup e (init_world fs) = (Return a, w1)" for a w1
    using bad discovered_of_original_setup [OF s] original_setup_returns(3,4,5) [OF s] by auto
  show "rejected (original_script e) (tempDir e) fs"
    using assms by (intro rejected_original) (use never in blast)
  fix fs1
  assume c: "cloned e fs = Some fs1"
  then show "stat fs1 (tempDir e) = Some Dir" by (rule cloned_dir)
  obtain r w1 where s: "original_setup e (init_world fs) = (r, w1)"
    by (cases "original_setup e (init_world fs)")
  have "fsys (snd (run (original_script e) (init_world fs))) = fsys w1"
    using s by (rule original_fails_with_clone) (use s never in blast)
  with original_setup_after_clone [OF c s]
  show "fsys (snd (run (original_script e) (init_world fs))) = fs1" by simp
next
  fix a w w'
  assume "setup_phase e w = (Return a, w') \<or> original_setup e w = (Return a, w')"
  then show "\<exists>m. raw_llm (argv e) = Some m \<and> llm a = toUpperCase m"
    using setup_phase_returns(4) original_setup_returns(4) by blast
next
  fix a w w'
  assume "setup_phase e w = (Return a, w') \<or> original_setup e w = (Return a, w')"
  then show "llm a \<in> set SUPPORTED_LLMS"
    using setup_phase_returns(5) original_setup_returns(5) by blast
qed

theorem invalid_arguments_leave_clone_witness:
  "\<not> asks_usage (argv demo_env_rust)
   \<and> raw_lang (argv demo_env_rust) = Some ''rust''
   \<and> discovered demo_env_rust demo_fs = Some [''py'']
   \<and> fst (original_discover demo_env_rust (init_world demo_fs)) = Return [''py'']
   \<and> ''rust'' \<notin> set [''py'']
   \<and> raw_llm (argv demo_env_rust) = Some ''gpt''
   \<and> toUpperCase ''gpt'' \<notin> set SUPPORTED_LLMS
   \<and> cloned demo_env_rust demo_fs = Some (the (cloned demo_env_rust demo_fs))
   \<and> stat demo_fs (tempDir demo_env_rust) = None
   \<and> rejected (main demo_env_rust) (tempDir demo_env_rust) demo_fs
   \<and> stat (fsys (snd (run (main demo_env_rust) (init_world demo_fs)))) (tempDir demo_env_rust) = Some Dir
   \<and> rejected (original_script demo_env_rust) (tempDir demo_env_rust) demo_fs
   \<and> stat (fsys (snd (run (original_script demo_env_rust) (init_world demo_fs)))) (tempDir demo_env_rust) = Some Dir
   \<and> \<not> asks_usage (argv demo_env_dotless)
   \<and> fst (setup_phase demo_env_dotless (init_world demo_fs)) = Return \<lparr>name = ''app'', lang = ''py'', llm = ''GEMINI''\<rparr>
   \<and> raw_llm (argv demo_env_dotless) = Some (''gem'' @ [CHR 0xC4, CHR 0xB1] @ ''ni'')
   \<and> ''GEMINI'' = toUpperCase (''gem'' @ [CHR 0xC4, CHR 0xB1] @ ''ni'')"
proof -
  have h0: "\<not> asks_usage (argv demo_env_rust)"
    by code_simp
  have h1: "raw_lang (argv demo_env_rust) = Some ''rust''"
    by code_simp
  have d: "discovered demo_env_rust demo_fs = Some [''py'']"
    by code_simp
  then have h2: "\<forall>langs. discovered demo_env_rust demo_fs = Some langs \<longrightarrow> ''rust'' \<notin> set langs"
    by simp
  have d': "fst (original_discover demo_env_rust (init_world demo_fs)) = Return [''py'']"
    by code_simp
  then have h3: "\<forall>langs w. original_discover demo_env_rust (init_world demo_fs) = (Return langs, w)
                   \<longrightarrow> ''rust'' \<notin> set langs"
    by auto
  have h4: "raw_llm (argv demo_env_rust) = Some ''gpt''"
    by code_simp
  have h5: "toUpperCase ''gpt'' \<notin> set SUPPORTED_LLMS"
    by code_simp
  have "cloned demo_env_rust demo_fs \<noteq> None"
    by code_simp
  then have c: "cloned demo_env_rust demo_fs = Some (the (cloned demo_env_rust demo_fs))"
    by simp
  have b: "stat demo_fs (tempDir demo_env_rust) = None"
    by code_simp
  have k0: "\<not> asks_usage (argv demo_env_dotless)"
    by code_simp
  have h6: "fst (setup_phase demo_env_dotless (init_world demo_fs))
              = Return \<lparr>name = ''app'', lang = ''py'', llm = ''GEMINI''\<rparr>"
    by code_simp
  then have h6': "setup_phase demo_env_dotless (init_world demo_fs)
                    = (Return \<lparr>name = ''app'', lang = ''py'', llm = ''GEMINI''\<rparr>,
                       snd (setup_phase demo_env_dotless (init_world demo_fs)))"
    by (metis prod.collapse)
  have h7: "raw_llm (argv demo_env_dotless) = Some (''gem'' @ [CHR 0xC4, CHR 0xB1] @ ''ni'')"
    by code_simp
  note t = invalid_arguments_leave_clone [OF h0, of "''rust''" demo_fs "''gpt''"]
  from t h1 h2 have r1: "rejected (main demo_env_rust) (tempDir demo_env_rust) demo_fs"
    by blast
  from t h1 h2 c
  have r2: "stat (fsys (snd (run (main demo_env_rust) (init_world demo_fs)))) (tempDir demo_env_rust) = Some Dir"
    by metis
  from t h1 h3 have r3: "rejected (original_script demo_env_rust) (tempDir demo_env_rust) demo_fs"
    by blast
  from t h1 h3 c
  have r4: "stat (fsys (snd (run (original_script demo_env_rust) (init_world demo_fs)))) (tempDir demo_env_rust)
              = Some Dir"
    by metis
  from invalid_arguments_leave_clone [OF k0, of "''py''" demo_fs "''claude''"] h6' h7
  have u: "''GEMINI'' = toUpperCase (''gem'' @ [CHR 0xC4, CHR 0xB1] @ ''ni'')"
    by fastforce
  from h0 h1 d d' h4 h5 c b r1 r2 r3 r4 k0 h6 h7 u show ?thesis by simp
qed

text \<open>
  C10. When the refactored script, on a command line that asks for neither help nor the
  version, exits with status 0, the destination's
  \<^verbatim>\<open>.context/templates\<close> directory, if there is one, has no entry other than
  \<^verbatim>\<open>prp_template.md\<close>; and it was already so in the world in which the run reported its
  success. The per-language variants copied in step 2 are among the entries removed.
  (A help or version request also ends with status 0, printed by the argument parser
  before anything is created or cleaned up; it is not a run that reports success.)
  File names are assumed to be file names: no component of a path of the machine, of the
  remote tree, of the working directory or of the temporary directory is empty, a dot
  name, or contains a slash.
\<close>

theorem leftover_templates_removed:
  assumes "run (main e) (init_world fs) = (0, w')" and "raw_name (argv e) = Some n"
    and "names_ok fs" and "path_ok (cwd e)" and "path_ok (tempDir e)"
    and "case remote e of None \<Rightarrow> True | Some tree \<Rightarrow> names_ok tree"
    and "\<not> asks_usage (argv e)"
  shows "only_prp_template (fsys w') (path_join (path_resolve (cwd e) n) [''.context'', ''templates''])
         \<and> (\<exists>a w4 w5. main_try e (init_world fs) = (Return (), w5)
               \<and> report_success a (path_resolve (cwd e) n) w4 = (Return (), w5)
               \<and> only_prp_template (fsys w4) (path_join (path_resolve (cwd e) n) [''.context'', ''templates'']))"
proof -
  let ?td = "path_join (path_resolve (cwd e) n) [''.context'', ''templates'']"
  from main_success [OF assms(1,7)] obtain w5 where t: "main_try e (init_world fs) = (Return (), w5)"
    and w': "w' = w5\<lparr>fsys := remove_tree (fsys w5) (tempDir e),
                      stdout := stdout w5 @ [''Cleaned up temporary files'']\<rparr>"
    by blast
  from main_try_Return [OF t] obtain a w1 w2 w3 w4
    where s: "setup_phase e (init_world fs) = (Return a, w1)"
      and v: "validateProjectDirectory (path_resolve (cwd e) (name a)) w1 = (Return (), w2)"
      and c: "create_and_configure e a (path_resolve (cwd e) (name a)) w2 = (Return (), w3)"
      and k: "cleanupTemplateFiles (path_resolve (cwd e) (name a)) w3 = (Return (), w4)"
      and r: "report_success a (path_resolve (cwd e) (name a)) w4 = (Return (), w5)"
    by blast
  from setup_phase_returns(2) [OF s] assms(2) have n: "name a = n" by simp
  have p: "path_ok (path_resolve (cwd e) n)"
    using assms(4) by (rule path_resolve_ok)
  from keepsD [OF setup_phase_names [OF assms(5,6)] s] assms(3) have "names_ok (fsys w1)"
    by (simp add: inv_rel_def init_world_def)
  with keepsD [OF validate_names v] have "names_ok (fsys w2)"
    by (simp add: inv_rel_def)
  with keepsD [OF create_and_configure_names [OF assms(5) p] c [unfolded n]] have "names_ok (fsys w3)"
    by (simp add: inv_rel_def)
  from cleanupTemplateFiles_leaves [OF this k [unfolded n]] have t4: "only_prp_template (fsys w4) ?td" .
  from keepsD [OF report_success_quiet(1) r] have "fsys w5 = fsys w4" by simp
  with t4 have "only_prp_template (fsys w5) ?td" by simp
  moreover have "?td \<noteq> []" by (simp add: path_join_def)
  ultimately have "only_prp_template (fsys w') ?td"
    using w' by (simp add: only_prp_template_remove_tree)
  with t r t4 show ?thesis unfolding n by blast
qed

theorem leftover_templates_removed_witness:
  "run (main demo_env) (init_world demo_fs) = (0, snd (run (main demo_env) (init_world demo_fs)))
   \<and> raw_name (argv demo_env) = Some ''app''
   \<and> names_ok demo_fs \<and> path_ok (cwd demo_env) \<and> path_ok (tempDir demo_env)
   \<and> names_ok demo_remote \<and> \<not> asks_usage (argv demo_env)
   \<and> stat demo_remote [''.context'', ''templates'', ''prp_template_js.md''] = Some (File ''js {{LLM_AGENT}}'')
   \<and> only_prp_template (fsys (snd (run (main demo_env) (init_world demo_fs))))
        (path_join (path_resolve (cwd demo_env) ''app'') [''.context'', ''templates''])
   \<and> children (fsys (snd (run (main demo_env) (init_world demo_fs))))
        (path_join (path_resolve (cwd demo_env) ''app'') [''.context'', ''templates'']) = [''prp_template.md'']"
proof -
  have "fst (run (main demo_env) (init_world demo_fs)) = 0"
    by code_simp
  then have h1: "run (main demo_env) (init_world demo_fs) = (0, snd (run (main demo_env) (init_world demo_fs)))"
    by (metis prod.collapse)
  have h2: "raw_name (argv demo_env) = Some ''app''"
    by code_simp
  have h3: "names_ok demo_fs"
    by code_simp
  have h4: "path_ok (cwd demo_env)"
    by code_simp
  have h5: "path_ok (tempDir demo_env)"
    by code_simp
  have r: "names_ok demo_remote"
    by code_simp
  have "remote demo_env = Some demo_remote"
    by (simp add: demo_env_def)
  with r have h6: "case remote demo_env of None \<Rightarrow> True | Some tree \<Rightarrow> names_ok tree"
    by simp
  have h7: "\<not> asks_usage (argv demo_env)"
    by code_simp
  have v: "stat demo_remote [''.context'', ''templates'', ''prp_template_js.md''] = Some (File ''js {{LLM_AGENT}}'')"
    by code_simp
  have l: "children (fsys (snd (run (main demo_env) (init_world demo_fs))))
        (path_join (path_resolve (cwd demo_env) ''app'') [''.context'', ''templates'']) = [''prp_template.md'']"
    by code_simp
  from leftover_templates_removed [OF h1 h2 h3 h4 h5 h6 h7] h1 h2 h3 h4 h5 h7 r v l show ?thesis by blast
qed


text \<open>
  C6 (as amended). The runs meant are those of a command line that asks for neither help
  nor the version. In both cloning scripts every such run that exits with status 0 runs
  \<^verbatim>\<open>git init\<close> in \<^verbatim>\<open>path.join(<destination>, <name>)\<close> and nowhere else (in the refactored
  script, provided git works); for a name that is a single path component this is the
  directory \<^verbatim>\<open><name>\<close> inside the destination, and after the run the repository is there:
  \<^verbatim>\<open><destination>/<name>/.git\<close> exists (for the refactored script: if git works, path
  components are file names, and the temporary directory is not above that path). The
  local-template script runs \<^verbatim>\<open>git init\<close> in the destination root, and after the run
  \<^verbatim>\<open><destination>/.git\<close> exists. In the original and the local-template script a failing
  \<^verbatim>\<open>git init\<close> is fatal: no run exits with status 0 unless git works. In the refactored
  script it is not: \<open>initializeProjectStructure\<close> returns normally whenever the inner
  directory could be created, whether git works or not.
\<close>

theorem git_init_directory:
  assumes "raw_name (argv e) = Some n" and "\<not> asks_usage (argv e)"
  shows "(\<forall>w'. run (main e) (init_world fs) = (0, w') \<longrightarrow>
            set (cmds w') \<subseteq> {(''git clone'', tempDir e), (''git init'', path_join (path_resolve (cwd e) n) [n])}
            \<and> (git_ok e \<longrightarrow> (''git init'', path_join (path_resolve (cwd e) n) [n]) \<in> set (cmds w'))
            \<and> (git_ok e \<and> simple_name n \<and> names_ok fs \<and> path_ok (cwd e) \<and> path_ok (tempDir e)
                 \<and> (case remote e of None \<Rightarrow> True | Some tree \<Rightarrow> names_ok tree)
                 \<and> \<not> prefix (tempDir e) (cwd e @ [n, n, ''.git''])
               \<longrightarrow> stat (fsys w') (cwd e @ [n, n, ''.git'']) \<noteq> None))
         \<and> (\<forall>w'. run (original_script e) (init_world fs) = (0, w') \<longrightarrow>
               git_ok e \<and> (''git init'', path_join (path_resolve (cwd e) n) [n]) \<in> set (cmds w')
               \<and> set (cmds w') \<subseteq> {(''git clone'', tempDir e), (''git init'', path_join (path_resolve (cwd e) n) [n])}
               \<and> (\<not> prefix (tempDir e) (path_join (path_resolve (cwd e) n) [n] @ [''.git''])
                    \<longrightarrow> stat (fsys w') (path_join (path_resolve (cwd e) n) [n] @ [''.git'']) \<noteq> None))
         \<and> (\<forall>t w'. run (local_script t e) (init_world fs) = (0, w') \<longrightarrow>
               git_ok e \<and> set (cmds w') = {(''git init'', path_resolve (cwd e) n)}
               \<and> stat (fsys w') (path_resolve (cwd e) n @ [''.git'']) \<noteq> None)
         \<and> (simple_name n \<longrightarrow> path_join (path_resolve (cwd e) n) [n] = path_resolve (cwd e) n @ [n])
         \<and> (\<forall>ok projectDir w w1. mkdirSync_recursive (path_join projectDir [n]) w = (Return (), w1)
               \<longrightarrow> fst (initializeProjectStructure ok projectDir n w) = Return ())"
proof (intro conjI allI impI)
  fix w'
  assume r: "run (main e) (init_world fs) = (0, w')"
  from main_cmds(1) [OF r assms]
  show "set (cmds w') \<subseteq> {(''git clone'', tempDir e), (''git init'', path_join (path_resolve (cwd e) n) [n])}" .
  {
    assume "git_ok e"
    from main_cmds(2) [OF r assms this]
    show "(''git init'', path_join (path_resolve (cwd e) n) [n]) \<in> set (cmds w')" .
  }
  assume h: "git_ok e \<and> simple_name n \<and> names_ok fs \<and> path_ok (cwd e) \<and> path_ok (tempDir e)
               \<and> (case remote e of None \<Rightarrow> True | Some tree \<Rightarrow> names_ok tree)
               \<and> \<not> prefix (tempDir e) (cwd e @ [n, n, ''.git''])"
  then have "names_ok fs" "path_ok (cwd e)" "path_ok (tempDir e)"
    "case remote e of None \<Rightarrow> True | Some tree \<Rightarrow> names_ok tree" "simple_name n" "git_ok e"
    "\<not> prefix (tempDir e) (cwd e @ [n, n, ''.git''])"
    by blast+
  from main_repo [OF r assms(2) this(1,2,3,4) assms(1) this(5,6,7)]
  show "stat (fsys w') (cwd e @ [n, n, ''.git'']) \<noteq> None" .
next
  fix w'
  assume r: "run (original_script e) (init_world fs) = (0, w')"
  from original_script_cmds [OF r assms]
  show "git_ok e" and "(''git init'', path_join (path_resolve (cwd e) n) [n]) \<in> set (cmds w')"
    and "set (cmds w') \<subseteq> {(''git clone'', tempDir e), (''git init'', path_join (path_resolve (cwd e) n) [n])}"
    by blast+
  assume "\<not> prefix (tempDir e) (path_join (path_resolve (cwd e) n) [n] @ [''.git''])"
  from original_script_repo [OF r assms this]
  show "stat (fsys w') (path_join (path_resolve (cwd e) n) [n] @ [''.git'']) \<noteq> None" .
next
  fix t w'
  assume r: "run (local_script t e) (init_world fs) = (0, w')"
  from local_script_cmds [OF r assms]
  show "git_ok e" and "set (cmds w') = {(''git init'', path_resolve (cwd e) n)}" by blast+
  from local_script_repo [OF r assms]
  show "stat (fsys w') (path_resolve (cwd e) n @ [''.git'']) \<noteq> None" .
next
  assume "simple_name n"
  then show "path_join (path_resolve (cwd e) n) [n] = path_resolve (cwd e) n @ [n]"
    by (rule path_join_simple)
next
  fix ok projectDir w w1
  assume "mkdirSync_recursive (path_join projectDir [n]) w = (Return (), w1)"
  from initializeProjectStructure_returns [OF this, of ok]
  show "fst (initializeProjectStructure ok projectDir n w) = Return ()" by auto
qed


theorem git_init_directory_witness:
  "raw_name (argv demo_env) = Some ''app'' \<and> \<not> asks_usage (argv demo_env)
   \<and> simple_name ''app''
   \<and> git_ok demo_env
   \<and> names_ok demo_fs \<and> path_ok (cwd demo_env) \<and> path_ok (tempDir demo_env) \<and> names_ok demo_remote
   \<and> \<not> prefix (tempDir demo_env) (cwd demo_env @ [''app'', ''app'', ''.git''])
   \<and> \<not> prefix (tempDir demo_env) (path_join (path_resolve (cwd demo_env) ''app'') [''app''] @ [''.git''])
   \<and> run (main demo_env) (init_world demo_fs) = (0, snd (run (main demo_env) (init_world demo_fs)))
   \<and> (''git init'', path_join (path_resolve (cwd demo_env) ''app'') [''app''])
        \<in> set (cmds (snd (run (main demo_env) (init_world demo_fs))))
   \<and> stat (fsys (snd (run (main demo_env) (init_world demo_fs)))) (cwd demo_env @ [''app'', ''app'', ''.git''])
        \<noteq> None
   \<and> run (original_script demo_env) (init_world demo_fs)
        = (0, snd (run (original_script demo_env) (init_world demo_fs)))
   \<and> (''git init'', path_join (path_resolve (cwd demo_env) ''app'') [''app''])
        \<in> set (cmds (snd (run (original_script demo_env) (init_world demo_fs))))
   \<and> stat (fsys (snd (run (original_script demo_env) (init_world demo_fs))))
        (path_join (path_resolve (cwd demo_env) ''app'') [''app''] @ [''.git'']) \<noteq> None
   \<and> run (local_script [''opt'', ''cef''] demo_env) (init_world demo_local_fs)
        = (0, snd (run (local_script [''opt'', ''cef''] demo_env) (init_world demo_local_fs)))
   \<and> set (cmds (snd (run (local_script [''opt'', ''cef''] demo_env) (init_world demo_local_fs))))
        = {(''git init'', path_resolve (cwd demo_env) ''app'')}
   \<and> stat (fsys (snd (run (local_script [''opt'', ''cef''] demo_env) (init_world demo_local_fs))))
        (path_resolve (cwd demo_env) ''app'' @ [''.git'']) \<noteq> None
   \<and> path_join (path_resolve (cwd demo_env) ''app'') [''app''] = path_resolve (cwd demo_env) ''app'' @ [''app'']
   \<and> mkdirSync_recursive (path_join [''home'', ''app''] [''app'']) demo_staged
        = (Return (), snd (mkdirSync_recursive (path_join [''home'', ''app''] [''app'']) demo_staged))
   \<and> fst (initializeProjectStructure False [''home'', ''app''] ''app'' demo_staged) = Return ()"
proof -
  have h: "raw_name (argv demo_env) = Some ''app''"
    by code_simp
  have u: "\<not> asks_usage (argv demo_env)"
    by code_simp
  have s: "simple_name ''app''"
    by code_simp
  have g: "git_ok demo_env"
    by code_simp
  have k1: "names_ok demo_fs"
    by code_simp
  have k2: "path_ok (cwd demo_env)"
    by code_simp
  have k3: "path_ok (tempDir demo_env)"
    by code_simp
  have k4: "names_ok demo_remote"
    by code_simp
  have "remote demo_env = Some demo_remote"
    by (simp add: demo_env_def)
  with k4 have k4': "case remote demo_env of None \<Rightarrow> True | Some tree \<Rightarrow> names_ok tree"
    by simp
  have k5: "\<not> prefix (tempDir demo_env) (cwd demo_env @ [''app'', ''app'', ''.git''])"
    by code_simp
  have k6: "\<not> prefix (tempDir demo_env) (path_join (path_resolve (cwd demo_env) ''app'') [''app''] @ [''.git''])"
    by code_simp
  have "fst (run (main demo_env) (init_world demo_fs)) = 0"
    by code_simp
  then have r1: "run (main demo_env) (init_world demo_fs) = (0, snd (run (main demo_env) (init_world demo_fs)))"
    by (metis prod.collapse)
  have "fst (run (original_script demo_env) (init_world demo_fs)) = 0"
    by code_simp
  then have r2: "run (original_script demo_env) (init_world demo_fs)
                   = (0, snd (run (original_script demo_env) (init_world demo_fs)))"
    by (metis prod.collapse)
  have "fst (run (local_script [''opt'', ''cef''] demo_env) (init_world demo_local_fs)) = 0"
    by code_simp
  then have r3: "run (local_script [''opt'', ''cef''] demo_env) (init_world demo_local_fs)
                   = (0, snd (run (local_script [''opt'', ''cef''] demo_env) (init_world demo_local_fs)))"
    by (metis prod.collapse)
  have "fst (mkdirSync_recursive (path_join [''home'', ''app''] [''app'']) demo_staged) = Return ()"
    by code_simp
  then have r4: "mkdirSync_recursive (path_join [''home'', ''app''] [''app'']) demo_staged
        = (Return (), snd (mkdirSync_recursive (path_join [''home'', ''app''] [''app'']) demo_staged))"
    by (metis prod.collapse)
  note t1 = git_init_directory [OF h u, of demo_fs]
  note t2 = git_init_directory [OF h u, of demo_local_fs]
  from t1 r1 g have c1: "(''git init'', path_join (path_resolve (cwd demo_env) ''app'') [''app''])
        \<in> set (cmds (snd (run (main demo_env) (init_world demo_fs))))"
    by blast
  from t1 r1 g s k1 k2 k3 k4' k5
  have d1: "stat (fsys (snd (run (main demo_env) (init_world demo_fs)))) (cwd demo_env @ [''app'', ''app'', ''.git''])
              \<noteq> None"
    by blast
  from t1 r2 have c2: "(''git init'', path_join (path_resolve (cwd demo_env) ''app'') [''app''])
        \<in> set (cmds (snd (run (original_script demo_env) (init_world demo_fs))))"
    by blast
  from t1 r2 k6 have d2: "stat (fsys (snd (run (original_script demo_env) (init_world demo_fs))))
        (path_join (path_resolve (cwd demo_env) ''app'') [''app''] @ [''.git'']) \<noteq> None"
    by blast
  from t2 r3 have c3: "set (cmds (snd (run (local_script [''opt'', ''cef''] demo_env) (init_world demo_local_fs))))
        = {(''git init'', path_resolve (cwd demo_env) ''app'')}"
    by blast
  from t2 r3 have d3: "stat (fsys (snd (run (local_script [''opt'', ''cef''] demo_env) (init_world demo_local_fs))))
        (path_resolve (cwd demo_env) ''app'' @ [''.git'']) \<noteq> None"
    by blast
  from t1 s have c4: "path_join (path_resolve (cwd demo_env) ''app'') [''app'']
                        = path_resolve (cwd demo_env) ''app'' @ [''app'']"
    by blast
  from t1 r4 have c5: "fst (initializeProjectStructure False [''home'', ''app''] ''app'' demo_staged) = Return ()"
    by blast
  from h u s g k1 k2 k3 k4 k5 k6 r1 c1 d1 r2 c2 d2 r3 c3 d3 c4 r4 c5 show ?thesis by blast
qed

text \<open>
  The claim as stated fails three times. With git failing, the refactored script warns and
  still exits with status 0. The local-template script runs \<^verbatim>\<open>git init\<close> in the
  destination root \<^verbatim>\<open>/home/app\<close>, and it is there that the repository is after the run,
  not in \<^verbatim>\<open>/home/app/app\<close>. And for the project name \<^verbatim>\<open>.context/templates/zz\<close> the
  refactored script, with git working, runs \<^verbatim>\<open>git init\<close> in the inner directory and exits
  with status 0, but the inner directory lies in the destination's templates directory
  and is removed again when the template files are cleaned up.
\<close>

theorem git_init_counterexample:
  "\<not> git_ok demo_env_git_down \<and> \<not> asks_usage (argv demo_env_git_down)
   \<and> fst (run (main demo_env_git_down) (init_world demo_fs)) = 0
   \<and> ''Warning: Failed to initialize git repository: Command failed: git init''
        \<in> set (stderr (snd (run (main demo_env_git_down) (init_world demo_fs))))
   \<and> stat (fsys (snd (run (main demo_env_git_down) (init_world demo_fs)))) [''home'', ''app'', ''app'', ''.git'']
        = None
   \<and> \<not> asks_usage (argv demo_env)
   \<and> fst (run (local_script [''opt'', ''cef''] demo_env) (init_world demo_local_fs)) = 0
   \<and> path_resolve (cwd demo_env) ''app'' = [''home'', ''app'']
   \<and> cmds (snd (run (local_script [''opt'', ''cef''] demo_env) (init_world demo_local_fs)))
        = [(''git init'', [''home'', ''app''])]
   \<and> stat (fsys (snd (run (local_script [''opt'', ''cef''] demo_env) (init_world demo_local_fs))))
        [''home'', ''app'', ''.git''] = Some Dir
   \<and> stat (fsys (snd (run (local_script [''opt'', ''cef''] demo_env) (init_world demo_local_fs))))
        [''home'', ''app'', ''app'', ''.git''] = None
   \<and> git_ok demo_env_nested \<and> \<not> asks_usage (argv demo_env_nested)
   \<and> raw_name (argv demo_env_nested) = Some ''.context/templates/zz''
   \<and> fst (run (main demo_env_nested) (init_world demo_fs)) = 0
   \<and> path_join (path_resolve (cwd demo_env_nested) ''.context/templates/zz'') [''.context/templates/zz'']
        = [''home'', ''.context'', ''templates'', ''zz'', ''.context'', ''templates'', ''zz'']
   \<and> cmds (snd (run (main demo_env_nested) (init_world demo_fs)))
        = [(''git clone'', [''tmp'', ''cef-1a2b3c'']),
           (''git init'', [''home'', ''.context'', ''templates'', ''zz'', ''.context'', ''templates'', ''zz''])]
   \<and> stat (fsys (snd (run (main demo_env_nested) (init_world demo_fs))))
        [''home'', ''.context'', ''templates'', ''zz'', ''.context'', ''templates'', ''zz''] = None"
proof -
  have a: "\<not> git_ok demo_env_git_down \<and> \<not> asks_usage (argv demo_env_git_down)"
    by code_simp
  have b: "fst (run (main demo_env_git_down) (init_world demo_fs)) = 0"
    by code_simp
  have c: "''Warning: Failed to initialize git repository: Command failed: git init''
        \<in> set (stderr (snd (run (main demo_env_git_down) (init_world demo_fs))))"
    by code_simp
  have c': "stat (fsys (snd (run (main demo_env_git_down) (init_world demo_fs))))
              [''home'', ''app'', ''app'', ''.git''] = None"
    by code_simp
  have d0: "\<not> asks_usage (argv demo_env)"
    by code_simp
  have d: "fst (run (local_script [''opt'', ''cef''] demo_env) (init_world demo_local_fs)) = 0"
    by code_simp
  have e: "path_resolve (cwd demo_env) ''app'' = [''home'', ''app'']"
    by code_simp
  have f: "cmds (snd (run (local_script [''opt'', ''cef''] demo_env) (init_world demo_local_fs)))
        = [(''git init'', [''home'', ''app''])]"
    by code_simp
  have f1: "stat (fsys (snd (run (local_script [''opt'', ''cef''] demo_env) (init_world demo_local_fs))))
        [''home'', ''app'', ''.git''] = Some Dir"
    by code_simp
  have f2: "stat (fsys (snd (run (local_script [''opt'', ''cef''] demo_env) (init_world demo_local_fs))))
        [''home'', ''app'', ''app'', ''.git''] = None"
    by code_simp
  have g0: "git_ok demo_env_nested \<and> \<not> asks_usage (argv demo_env_nested)"
    by code_simp
  have g1: "raw_name (argv demo_env_nested) = Some ''.context/templates/zz''"
    by code_simp
  have g2: "fst (run (main demo_env_nested) (init_world demo_fs)) = 0"
    by code_simp
  have g3: "path_join (path_resolve (cwd demo_env_nested) ''.context/templates/zz'') [''.context/templates/zz'']
        = [''home'', ''.context'', ''templates'', ''zz'', ''.context'', ''templates'', ''zz'']"
    by code_simp
  have g4: "cmds (snd (run (main demo_env_nested) (init_world demo_fs)))
        = [(''git clone'', [''tmp'', ''cef-1a2b3c'']),
           (''git init'', [''home'', ''.context'', ''templates'', ''zz'', ''.context'', ''templates'', ''zz''])]"
    by code_simp
  have g5: "stat (fsys (snd (run (main demo_env_nested) (init_world demo_fs))))
        [''home'', ''.context'', ''templates'', ''zz'', ''.context'', ''templates'', ''zz''] = None"
    by code_simp
  from a b c c' d0 d e f f1 f2 g0 g1 g2 g3 g4 g5 show ?thesis by blast
qed

text \<open>
  C9. Step 4 with no per-language variant at its path returns normally and leaves the world
  as it is, in the refactored script and in the original one. And a run of the refactored
  script whose language has no variant in the clone completes with status 0, with the
  destination's generic \<^verbatim>\<open>prp_template.md\<close> exactly as the clone has it (absent if the
  clone has none). The run is one that has passed argument parsing, into a destination
  that does not exist yet, named by a single path component that is none of the names
  copied into the destination root, with the temporary directory and the destination
  not inside one another; the file system is well formed, a rules document or branding
  document of the clone is not a directory, and its templates entry is not a file. The
  refactored script requires no file of the template to be present. The original script
  copies without asking whether the source is there: its run completes with status 0,
  with the same generic template, when the clone provides the two directories, the three
  root documents and the selected branding document, and git works.
\<close>

theorem missing_variant_is_skipped:
  assumes s: "setup_phase e (init_world fs) = (Return a, w1)"
    and wf: "parents_ok (fsys w1)" "names_ok (fsys w1)" "path_ok (cwd e)" "path_ok (tempDir e)"
    and nm: "simple_name (name a)"
            "name a \<notin> set ([''.context'', ''examples''] @ REQUIRED_FILES @ [llm a @ ''.md''])"
    and cw: "stat (fsys w1) (cwd e) = Some Dir"
    and ds: "stat (fsys w1) (path_resolve (cwd e) (name a)) = None"
    and sep: "\<not> near (tempDir e) (path_resolve (cwd e) (name a))"
    and lg: "CHR ''/'' \<notin> set (lang a)"
    and nv: "stat (fsys w1)
               (path_join (tempDir e) [''.context'', ''templates'', ''prp_template_'' @ lang a @ ''.md'']) = None"
    and k1: "stat (fsys w1) (path_join (tempDir e) [''Rules'', lang a @ ''.md'']) \<noteq> Some Dir"
    and k2: "stat (fsys w1) (path_join (tempDir e) [llm a @ ''.md'']) \<noteq> Some Dir"
    and k3: "stat (fsys w1) (path_join (tempDir e) [''.context'', ''templates'']) \<in> {None, Some Dir}"
  shows "fst (run (main e) (init_world fs)) = 0
         \<and> stat (fsys (snd (run (main e) (init_world fs))))
               (path_join (path_resolve (cwd e) (name a)) [''.context'', ''templates'', ''prp_template.md''])
             = stat (fsys w1) (path_join (tempDir e) [''.context'', ''templates'', ''prp_template.md''])
         \<and> (git_ok e
              \<and> list_all (\<lambda>c. stat (fsys w1) (tempDir e @ [c]) \<noteq> None)
                    ([''.context'', ''examples''] @ REQUIRED_FILES @ [llm a @ ''.md''])
             \<longrightarrow> fst (run (original_script e) (init_world fs)) = 0
                 \<and> stat (fsys (snd (run (original_script e) (init_world fs))))
                       (path_join (path_resolve (cwd e) (name a)) [''.context'', ''templates'', ''prp_template.md''])
                     = stat (fsys w1) (path_join (tempDir e) [''.context'', ''templates'', ''prp_template.md'']))
         \<and> (\<forall>w projectDir.
               stat (fsys w) (path_join projectDir
                                [''.context'', ''templates'', ''prp_template_'' @ lang a @ ''.md'']) = None
               \<longrightarrow> configurePRPTemplate projectDir (lang a) (llm a) w = (Return (), w)
                   \<and> original_prp projectDir (lang a) (llm a) w = (Return (), w))"
proof (intro conjI allI impI)
  let ?tmp = "tempDir e" and ?proj = "cwd e @ [name a]"
  let ?td = "?proj @ [''.context'', ''templates'']"
  have pr: "path_resolve (cwd e) (name a) = ?proj" using nm(1) by (rule path_resolve_simple)
  have m: "llm a \<in> set SUPPORTED_LLMS" using setup_phase_returns(5) [OF s] .
  from sep have sep': "\<not> prefix ?tmp ?proj" "\<not> prefix ?proj ?tmp"
    by (simp_all add: near_def pr)
  have j1: "path_join ?tmp [''.context'', ''templates'', ''prp_template_'' @ lang a @ ''.md'']
              = ?tmp @ [''.context'', ''templates'', ''prp_template_'' @ lang a @ ''.md'']"
    using lang_file_simple(2) [OF lg] by (simp add: path_join_simples simple_name_def)
  have j2: "path_join ?tmp [''Rules'', lang a @ ''.md''] = ?tmp @ [''Rules'', lang a @ ''.md'']"
    using lang_file_simple(1) [OF lg] by (simp add: path_join_simples simple_name_def)
  have j3: "path_join ?tmp [llm a @ ''.md''] = ?tmp @ [llm a @ ''.md'']"
    using llm_file_simple [OF m] by (rule path_join_simple)
  have j4: "path_join p [''.context'', ''templates''] = p @ [''.context'', ''templates'']" for p
    by (simp add: path_join_simples simple_name_def)
  have j5: "path_join p [''.context'', ''templates'', ''prp_template.md'']
              = p @ [''.context'', ''templates'', ''prp_template.md'']" for p
    by (simp add: path_join_simples simple_name_def)
  have v: "validateProjectDirectory ?proj w1 = (Return (), w1)"
    using ds by (simp add: validateProjectDirectory_def andThen_def existsSync_def ret_def pr)
  from create_and_configure_succeeds [OF wf(1) nm m cw ds [unfolded pr] sep' lg nv [unfolded j1]
      k1 [unfolded j2] k2 [unfolded j3]]
  obtain w7 where cc: "create_and_configure e a ?proj w1 = (Return (), w7)
           \<and> (\<forall>rel. stat (fsys w7) (?proj @ ''.context'' # rel) = stat (fsys w1) (?tmp @ ''.context'' # rel))" ..
  note c7 = cc [THEN conjunct1] and ctx = cc [THEN conjunct2, rule_format]
  have pp: "path_ok ?proj" using wf(3) nm(1) by simp
  from keepsD [OF create_and_configure_names [OF wf(4) pp] c7] wf(2) have n7: "names_ok (fsys w7)"
    by (simp add: inv_rel_def)
  have td7: "stat (fsys w7) (path_join ?proj [''.context'', ''templates'']) \<noteq> Some (File c)" for c
    using ctx [of "[''templates'']"] k3 by (auto simp: j4)
  from cleanupTemplateFiles_returns [OF n7 td7]
  obtain w8 where ck: "cleanupTemplateFiles ?proj w7 = (Return (), w8)
           \<and> stat (fsys w8) (path_join ?proj [''.context'', ''templates''] @ [''prp_template.md''])
               = stat (fsys w7) (path_join ?proj [''.context'', ''templates''] @ [''prp_template.md''])" ..
  note c8 = ck [THEN conjunct1] and keep8 = ck [THEN conjunct2]
  from report_success_run [of a ?proj w8]
  obtain w9 where rs: "report_success a ?proj w8 = (Return (), w9) \<and> fsys w9 = fsys w8" ..
  note c9 = rs [THEN conjunct1] and f9 = rs [THEN conjunct2]
  have t: "main_try e (init_world fs) = (Return (), w9)"
    unfolding main_try_def Let_def
    apply (rule andThen_step, rule s)
    apply (unfold pr)
    apply (rule andThen_step, rule v)
    apply (rule andThen_step, rule c7)
    apply (rule andThen_step, rule c8)
    apply (rule c9)
    done
  then have r: "run (main e) (init_world fs)
                  = (0, w9\<lparr>fsys := remove_tree (fsys w9) ?tmp,
                           stdout := stdout w9 @ [''Cleaned up temporary files'']\<rparr>)"
    by (simp add: run_def main_def try_finally_def try_catch_def cleanupTempDirectory_run andThen_def ret_def)
  then show "fst (run (main e) (init_world fs)) = 0" by simp
  have np: "\<not> prefix ?tmp (?proj @ [''.context'', ''templates'', ''prp_template.md''])"
  proof
    assume "prefix ?tmp (?proj @ [''.context'', ''templates'', ''prp_template.md''])"
    from prefix_append_cases [OF this] sep' show False by blast
  qed
  have "stat (fsys w9) (?proj @ [''.context'', ''templates'', ''prp_template.md''])
          = stat (fsys w1) (?tmp @ [''.context'', ''templates'', ''prp_template.md''])"
    using keep8 f9 ctx [of "[''templates'', ''prp_template.md'']"] by (simp add: j4)
  with np r
  show "stat (fsys (snd (run (main e) (init_world fs))))
               (path_join (path_resolve (cwd e) (name a)) [''.context'', ''templates'', ''prp_template.md''])
             = stat (fsys w1) (path_join (tempDir e) [''.context'', ''templates'', ''prp_template.md''])"
    by (simp add: pr j5 stat_remove_tree)
  assume h: "git_ok e
              \<and> list_all (\<lambda>c. stat (fsys w1) (tempDir e @ [c]) \<noteq> None)
                    ([''.context'', ''examples''] @ REQUIRED_FILES @ [llm a @ ''.md''])"
  from original_setup_of_setup_phase [OF s] obtain v1
    where o: "original_setup e (init_world fs) = (Return a, v1) \<and> fsys v1 = fsys w1" ..
  note same = o [THEN conjunct2]
  from original_build_succeeds [of v1 a e, unfolded same, OF wf(1) nm m cw ds [unfolded pr] sep' lg
      nv [unfolded j1] k1 [unfolded j2] h [THEN conjunct1] h [THEN conjunct2]]
  obtain v' where b: "original_build e a v1 = (Return (), v')
           \<and> (\<forall>rel. stat (fsys v') (?proj @ ''.context'' # rel) = stat (fsys w1) (?tmp @ ''.context'' # rel))" ..
  have "original_script e (init_world fs) = (Return (), v')"
    unfolding original_script_def
    by (rule andThen_step, rule o [THEN conjunct1], rule b [THEN conjunct1])
  then have r': "run (original_script e) (init_world fs) = (0, v')"
    by (simp add: run_def)
  then show "fst (run (original_script e) (init_world fs)) = 0" by simp
  from r' b [THEN conjunct2, rule_format, of "[''templates'', ''prp_template.md'']"]
  show "stat (fsys (snd (run (original_script e) (init_world fs))))
               (path_join (path_resolve (cwd e) (name a)) [''.context'', ''templates'', ''prp_template.md''])
             = stat (fsys w1) (path_join (tempDir e) [''.context'', ''templates'', ''prp_template.md''])"
    by (simp add: pr j5)
next
  fix w :: world and projectDir
  assume "stat (fsys w) (path_join projectDir
                           [''.context'', ''templates'', ''prp_template_'' @ lang a @ ''.md'']) = None"
  then show "configurePRPTemplate projectDir (lang a) (llm a) w = (Return (), w)"
    and "original_prp projectDir (lang a) (llm a) w = (Return (), w)"
    by (rule configurePRPTemplate_skips)+
qed


theorem missing_variant_is_skipped_witness:
  "setup_phase demo_env_go (init_world demo_fs)
     = (Return \<lparr>name = ''app'', lang = ''go'', llm = ''GEMINI''\<rparr>, snd (setup_phase demo_env_go (init_world demo_fs)))
   \<and> parents_ok (fsys (snd (setup_phase demo_env_go (init_world demo_fs))))
   \<and> names_ok (fsys (snd (setup_phase demo_env_go (init_world demo_fs))))
   \<and> stat (fsys (snd (setup_phase demo_env_go (init_world demo_fs))))
         (path_join (tempDir demo_env_go) [''.context'', ''templates'', ''prp_template_'' @ ''go'' @ ''.md'']) = None
   \<and> stat (fsys (snd (setup_phase demo_env_go (init_world demo_fs))))
         (path_join (tempDir demo_env_go) [''.context'', ''templates'', ''prp_template.md''])
       = Some (File ''generic template'')
   \<and> fst (run (main demo_env_go) (init_world demo_fs)) = 0
   \<and> stat (fsys (snd (run (main demo_env_go) (init_world demo_fs))))
         (path_join (path_resolve (cwd demo_env_go) ''app'') [''.context'', ''templates'', ''prp_template.md''])
       = Some (File ''generic template'')
   \<and> git_ok demo_env_go
   \<and> list_all (\<lambda>c. stat (fsys (snd (setup_phase demo_env_go (init_world demo_fs)))) (tempDir demo_env_go @ [c]) \<noteq> None)
         ([''.context'', ''examples''] @ REQUIRED_FILES @ [''GEMINI'' @ ''.md''])
   \<and> fst (run (original_script demo_env_go) (init_world demo_fs)) = 0
   \<and> stat (fsys (snd (run (original_script demo_env_go) (init_world demo_fs))))
         (path_join (path_resolve (cwd demo_env_go) ''app'') [''.context'', ''templates'', ''prp_template.md''])
       = Some (File ''generic template'')
   \<and> stat (fsys demo_staged) (path_join [''home'', ''app''] [''.context'', ''templates'', ''prp_template_'' @ ''go'' @ ''.md''])
       = None
   \<and> configurePRPTemplate [''home'', ''app''] ''go'' ''GEMINI'' demo_staged = (Return (), demo_staged)
   \<and> original_prp [''home'', ''app''] ''go'' ''GEMINI'' demo_staged = (Return (), demo_staged)"
proof -
  let ?a = "\<lparr>name = ''app'', lang = ''go'', llm = ''GEMINI''\<rparr>"
  let ?w1 = "snd (setup_phase demo_env_go (init_world demo_fs))"
  have "fst (setup_phase demo_env_go (init_world demo_fs)) = Return ?a"
    by code_simp
  then have s: "setup_phase demo_env_go (init_world demo_fs) = (Return ?a, ?w1)"
    by (metis prod.collapse)
  have wf1: "parents_ok (fsys ?w1)"
    by code_simp
  have wf2: "names_ok (fsys ?w1)"
    by code_simp
  have wf3: "path_ok (cwd demo_env_go)"
    by code_simp
  have wf4: "path_ok (tempDir demo_env_go)"
    by code_simp
  have nm1: "simple_name (name ?a)"
    by code_simp
  have nm2: "name ?a \<notin> set ([''.context'', ''examples''] @ REQUIRED_FILES @ [llm ?a @ ''.md''])"
    by code_simp
  have cw: "stat (fsys ?w1) (cwd demo_env_go) = Some Dir"
    by code_simp
  have ds: "stat (fsys ?w1) (path_resolve (cwd demo_env_go) (name ?a)) = None"
    by code_simp
  have sep: "\<not> near (tempDir demo_env_go) (path_resolve (cwd demo_env_go) (name ?a))"
    by code_simp
  have lg: "CHR ''/'' \<notin> set (lang ?a)"
    by code_simp
  have nv: "stat (fsys ?w1)
              (path_join (tempDir demo_env_go) [''.context'', ''templates'', ''prp_template_'' @ lang ?a @ ''.md''])
              = None"
    by code_simp
  have k1: "stat (fsys ?w1) (path_join (tempDir demo_env_go) [''Rules'', lang ?a @ ''.md'']) \<noteq> Some Dir"
    by code_simp
  have k2: "stat (fsys ?w1) (path_join (tempDir demo_env_go) [llm ?a @ ''.md'']) \<noteq> Some Dir"
    by code_simp
  have k3: "stat (fsys ?w1) (path_join (tempDir demo_env_go) [''.context'', ''templates'']) \<in> {None, Some Dir}"
    by code_simp
  have g: "stat (fsys ?w1) (path_join (tempDir demo_env_go) [''.context'', ''templates'', ''prp_template.md''])
             = Some (File ''generic template'')"
    by code_simp
  have d: "stat (fsys demo_staged)
             (path_join [''home'', ''app''] [''.context'', ''templates'', ''prp_template_'' @ ''go'' @ ''.md'']) = None"
    by code_simp
  have gk: "git_ok demo_env_go"
    by code_simp
  have rq: "list_all (\<lambda>c. stat (fsys ?w1) (tempDir demo_env_go @ [c]) \<noteq> None)
              ([''.context'', ''examples''] @ REQUIRED_FILES @ [llm ?a @ ''.md''])"
    by code_simp
  note t = missing_variant_is_skipped [OF s wf1 wf2 wf3 wf4 nm1 nm2 cw ds sep lg nv k1 k2 k3]
  from t gk rq have o1: "fst (run (original_script demo_env_go) (init_world demo_fs)) = 0"
    by blast
  from t gk rq g have o2: "stat (fsys (snd (run (original_script demo_env_go) (init_world demo_fs))))
         (path_join (path_resolve (cwd demo_env_go) ''app'') [''.context'', ''templates'', ''prp_template.md''])
       = Some (File ''generic template'')"
    by simp
  from rq have rq': "list_all (\<lambda>c. stat (fsys ?w1) (tempDir demo_env_go @ [c]) \<noteq> None)
              ([''.context'', ''examples''] @ REQUIRED_FILES @ [''GEMINI'' @ ''.md''])"
    by simp
  from t have r: "fst (run (main demo_env_go) (init_world demo_fs)) = 0" by blast
  from t g have u: "stat (fsys (snd (run (main demo_env_go) (init_world demo_fs))))
         (path_join (path_resolve (cwd demo_env_go) ''app'') [''.context'', ''templates'', ''prp_template.md''])
       = Some (File ''generic template'')"
    by simp
  from t d have c: "configurePRPTemplate [''home'', ''app''] ''go'' ''GEMINI'' demo_staged = (Return (), demo_staged)
                    \<and> original_prp [''home'', ''app''] ''go'' ''GEMINI'' demo_staged = (Return (), demo_staged)"
    by simp
  from nv have nv': "stat (fsys ?w1)
         (path_join (tempDir demo_env_go) [''.context'', ''templates'', ''prp_template_'' @ ''go'' @ ''.md'']) = None"
    by simp
  from s wf1 wf2 nv' g r u gk rq' o1 o2 d c show ?thesis by blast
qed

text \<open>
  C5 (as amended). The runs meant are those of a command line that asks for neither help
  nor the version. In the two cloning scripts such a run that exits with status 0 never
  leaves the branding document of the other LLM in the destination root. In the original
  script the document of the selected LLM is always there, so there is exactly one. In the
  refactored script it is there exactly when the clone provides the selected branding
  file or the rules file \<^verbatim>\<open>Rules/<lang>.md\<close> of the selected language; otherwise the run
  leaves no branding document at all. Step 3 (\<open>copyLLMFile\<close>) writes nowhere but at the
  selected document's path. This holds for file systems whose path components are file
  names and whose entries lie in existing directories, a project name that is a file name
  other than a branding document's, and a temporary directory that is neither inside nor
  above the destination. The local-template script is different: it copies both documents.
\<close>

theorem one_branding_document:
  assumes wf: "names_ok fs" "parents_ok fs" "path_ok (cwd e)" "path_ok (tempDir e)"
      "case remote e of None \<Rightarrow> True | Some tree \<Rightarrow> names_ok tree"
    and args: "raw_name (argv e) = Some n" "raw_llm (argv e) = Some m" "raw_lang (argv e) = Some l"
    and u: "\<not> asks_usage (argv e)"
    and nm: "simple_name n"
    and other: "other \<in> set SUPPORTED_LLMS" "other \<noteq> toUpperCase m" "n \<noteq> other @ ''.md''"
    and far: "\<not> near (tempDir e) (cwd e @ [n])"
  shows "(\<forall>w'. run (original_script e) (init_world fs) = (0, w') \<longrightarrow>
            stat (fsys w') (cwd e @ [n, toUpperCase m @ ''.md'']) \<noteq> None
            \<and> stat (fsys w') (cwd e @ [n, other @ ''.md'']) = None)
         \<and> (\<forall>w'. run (main e) (init_world fs) = (0, w') \<longrightarrow>
               stat (fsys w') (cwd e @ [n, other @ ''.md'']) = None
               \<and> (\<forall>fs1. cloned e fs = Some fs1 \<and> n \<noteq> toUpperCase m @ ''.md'' \<longrightarrow>
                      (stat (fsys w') (cwd e @ [n, toUpperCase m @ ''.md'']) \<noteq> None
                         \<longleftrightarrow> stat fs1 (tempDir e @ [toUpperCase m @ ''.md'']) \<noteq> None
                             \<or> stat fs1 (tempDir e @ [''Rules'', l @ ''.md'']) \<noteq> None)))
         \<and> (\<forall>t p. keeps fsys (same_outside (near (path_join p [toUpperCase m @ ''.md''])))
                     (copyLLMFile t p (toUpperCase m)))"
proof (intro conjI allI impI)
  let ?proj = "cwd e @ [n]"
  let ?o = "?proj @ [other @ ''.md'']"
  have away: "\<not> near (tempDir e) ?o"
    using near_below [of "tempDir e" ?proj "[other @ ''.md'']"] far by (auto simp: near_def)
  have absent: "stat (fsys w') ?o = None"
    if s: "keeps fsys grows_only phase" "phase (init_world fs) = (Return a, w1)"
      and a: "name a = n" "llm a = toUpperCase m" "llm a \<in> set SUPPORTED_LLMS"
      and free: "stat (fsys w1) (path_resolve (cwd e) (name a)) = None"
      and frame: "same_outside (\<lambda>q. near (tempDir e) q
                  \<or> destination_footprint (path_resolve (cwd e) (name a)) (llm a) (name a) q) fs (fsys w')"
    for a w1 w' and phase :: "args io"
  proof -
    have pr: "path_resolve (cwd e) n = ?proj"
      by (rule path_resolve_simple [OF nm])
    from keepsD [OF s] free have "stat fs ?proj = None"
      by (auto simp: grows_only_def init_world_def pr a(1))
    from absent_below [OF wf(2) this] have "stat fs ?o = None" .
    moreover have "\<not> destination_footprint ?proj (llm a) n ?o"
      using footprint_other [OF nm a(3) other(1) _ other(3), of "cwd e"] other(2) a(2) by simp
    ultimately show ?thesis
      using frame away by (simp add: same_outside_def pr a(1))
  qed
  {
    fix w'
    assume run: "run (original_script e) (init_world fs) = (0, w')"
    from run_success [OF original_script_exits [OF u] run]
    have "original_script e (init_world fs) = (Return (), w')" .
    from andThen_Return [OF this [unfolded original_script_def]] obtain a w1
      where s: "original_setup e (init_world fs) = (Return a, w1)"
        and b: "original_build e a w1 = (Return (), w')" by blast
    note r = original_setup_returns [OF s]
    from r(2,4,5) args have a: "name a = n" "llm a = toUpperCase m" "llm a \<in> set SUPPORTED_LLMS"
      by auto
    from original_script_frame [OF run u r(3) original_lang_plain [OF s wf(1,4,5)]] s
    have free: "stat (fsys w1) (path_resolve (cwd e) (name a)) = None"
      and frame: "same_outside (\<lambda>q. near (tempDir e) q
                  \<or> destination_footprint (path_resolve (cwd e) (name a)) (llm a) (name a) q) fs (fsys w')"
      by auto
    from absent [OF original_setup_grows s a free frame]
    show "stat (fsys w') (cwd e @ [n, other @ ''.md'']) = None" by simp
    have j: "path_join (path_resolve (cwd e) (name a)) [llm a @ ''.md''] = ?proj @ [llm a @ ''.md'']"
      using path_resolve_simple [OF nm] a(1) path_join_simple [OF llm_file_simple [OF a(3)]] by simp
    have "\<not> prefix (tempDir e) (?proj @ [llm a @ ''.md''])"
      using near_below [of "tempDir e" ?proj "[llm a @ ''.md'']"] far by (auto simp: near_def)
    with j have "\<not> prefix (tempDir e) (path_join (path_resolve (cwd e) (name a)) [llm a @ ''.md''])"
      by simp
    from ensuresD [OF original_build_branding [OF a(3) this] b, unfolded j]
    show "stat (fsys w') (cwd e @ [n, toUpperCase m @ ''.md'']) \<noteq> None"
      by (simp add: a(2))
  next
    fix w'
    assume run: "run (main e) (init_world fs) = (0, w')"
    from main_frame [OF run u wf(1,3,4,5)] obtain a w1
      where f: "setup_phase e (init_world fs) = (Return a, w1)
           \<and> stat (fsys w1) (path_resolve (cwd e) (name a)) = None
           \<and> same_outside (\<lambda>q. near (tempDir e) q
                  \<or> destination_footprint (path_resolve (cwd e) (name a)) (llm a) (name a) q) fs (fsys w')"
      by blast
    note s = f [THEN conjunct1]
    note r = setup_phase_returns [OF s]
    from r(2,4,5) args have a: "name a = n" "llm a = toUpperCase m" "llm a \<in> set SUPPORTED_LLMS"
      by auto
    from absent [OF setup_phase_grows s a f [THEN conjunct2, THEN conjunct1] f [THEN conjunct2, THEN conjunct2]]
    show "stat (fsys w') (cwd e @ [n, other @ ''.md'']) = None" by simp
    fix fs1
    assume h: "cloned e fs = Some fs1 \<and> n \<noteq> toUpperCase m @ ''.md''"
    from r(3) args(3) have la: "lang a = l" by simp
    from setup_phase_after_clone [OF h [THEN conjunct1] s] have w1: "fsys w1 = fs1" .
    from h a have ne: "name a \<noteq> llm a @ ''.md''" by simp
    from nm a(1) have sn: "simple_name (name a)" by simp
    from far a(1) have fa: "\<not> near (tempDir e) (cwd e @ [name a])" by simp
    from main_branding_iff [OF run u wf(1,3,4,5,2) s sn ne fa]
    show "stat (fsys w') (cwd e @ [n, toUpperCase m @ ''.md'']) \<noteq> None
            \<longleftrightarrow> stat fs1 (tempDir e @ [toUpperCase m @ ''.md'']) \<noteq> None
                \<or> stat fs1 (tempDir e @ [''Rules'', l @ ''.md'']) \<noteq> None"
      by (simp add: a la w1)
  next
    fix t p
    show "keeps fsys (same_outside (near (path_join p [toUpperCase m @ ''.md''])))
            (copyLLMFile t p (toUpperCase m))"
      by (rule copyLLMFile_frame)
  }
qed

theorem one_branding_document_witness:
  "names_ok demo_fs \<and> parents_ok demo_fs \<and> path_ok (cwd demo_env) \<and> path_ok (tempDir demo_env)
   \<and> (case remote demo_env of None \<Rightarrow> True | Some tree \<Rightarrow> names_ok tree)
   \<and> raw_name (argv demo_env) = Some ''app'' \<and> raw_llm (argv demo_env) = Some ''claude''
   \<and> raw_lang (argv demo_env) = Some ''py'' \<and> \<not> asks_usage (argv demo_env)
   \<and> simple_name ''app'' \<and> ''GEMINI'' \<in> set SUPPORTED_LLMS \<and> ''GEMINI'' \<noteq> toUpperCase ''claude''
   \<and> ''app'' \<noteq> ''GEMINI'' @ ''.md'' \<and> ''app'' \<noteq> toUpperCase ''claude'' @ ''.md''
   \<and> \<not> near (tempDir demo_env) (cwd demo_env @ [''app''])
   \<and> run (original_script demo_env) (init_world demo_fs)
        = (0, snd (run (original_script demo_env) (init_world demo_fs)))
   \<and> stat (fsys (snd (run (original_script demo_env) (init_world demo_fs))))
        (cwd demo_env @ [''app'', toUpperCase ''claude'' @ ''.md'']) \<noteq> None
   \<and> stat (fsys (snd (run (original_script demo_env) (init_world demo_fs))))
        (cwd demo_env @ [''app'', ''GEMINI'' @ ''.md'']) = None
   \<and> run (main demo_env) (init_world demo_fs) = (0, snd (run (main demo_env) (init_world demo_fs)))
   \<and> cloned demo_env demo_fs = Some (the (cloned demo_env demo_fs))
   \<and> stat (the (cloned demo_env demo_fs)) (tempDir demo_env @ [toUpperCase ''claude'' @ ''.md'']) \<noteq> None
   \<and> stat (fsys (snd (run (main demo_env) (init_world demo_fs))))
        (cwd demo_env @ [''app'', toUpperCase ''claude'' @ ''.md'']) \<noteq> None
   \<and> stat (fsys (snd (run (main demo_env) (init_world demo_fs))))
        (cwd demo_env @ [''app'', ''GEMINI'' @ ''.md'']) = None"
proof -
  have wf1: "names_ok demo_fs"
    by code_simp
  have wf2: "parents_ok demo_fs"
    by code_simp
  have wf3: "path_ok (cwd demo_env)"
    by code_simp
  have wf4: "path_ok (tempDir demo_env)"
    by code_simp
  have wf5: "case remote demo_env of None \<Rightarrow> True | Some tree \<Rightarrow> names_ok tree"
    by code_simp
  have a1: "raw_name (argv demo_env) = Some ''app''"
    by code_simp
  have a2: "raw_llm (argv demo_env) = Some ''claude''"
    by code_simp
  have a3: "raw_lang (argv demo_env) = Some ''py''"
    by code_simp
  have u: "\<not> asks_usage (argv demo_env)"
    by code_simp
  have nm: "simple_name ''app''"
    by code_simp
  have o1: "''GEMINI'' \<in> set SUPPORTED_LLMS"
    by code_simp
  have o2: "''GEMINI'' \<noteq> toUpperCase ''claude''"
    by code_simp
  have o3: "''app'' \<noteq> ''GEMINI'' @ ''.md''"
    by code_simp
  have o4: "''app'' \<noteq> toUpperCase ''claude'' @ ''.md''"
    by code_simp
  have far: "\<not> near (tempDir demo_env) (cwd demo_env @ [''app''])"
    by code_simp
  have "fst (run (original_script demo_env) (init_world demo_fs)) = 0"
    by code_simp
  then have r1: "run (original_script demo_env) (init_world demo_fs)
                   = (0, snd (run (original_script demo_env) (init_world demo_fs)))"
    by (metis prod.collapse)
  have "fst (run (main demo_env) (init_world demo_fs)) = 0"
    by code_simp
  then have r2: "run (main demo_env) (init_world demo_fs) = (0, snd (run (main demo_env) (init_world demo_fs)))"
    by (metis prod.collapse)
  have "cloned demo_env demo_fs \<noteq> None"
    by code_simp
  then have c: "cloned demo_env demo_fs = Some (the (cloned demo_env demo_fs))"
    by simp
  have src: "stat (the (cloned demo_env demo_fs)) (tempDir demo_env @ [toUpperCase ''claude'' @ ''.md'']) \<noteq> None"
    by code_simp
  note t = one_branding_document [OF wf1 wf2 wf3 wf4 wf5 a1 a2 a3 u nm o1 o2 o3 far]
  from t r1 have c1: "stat (fsys (snd (run (original_script demo_env) (init_world demo_fs))))
        (cwd demo_env @ [''app'', toUpperCase ''claude'' @ ''.md'']) \<noteq> None
   \<and> stat (fsys (snd (run (original_script demo_env) (init_world demo_fs))))
        (cwd demo_env @ [''app'', ''GEMINI'' @ ''.md'']) = None"
    by blast
  from t r2 have c2: "stat (fsys (snd (run (main demo_env) (init_world demo_fs))))
        (cwd demo_env @ [''app'', ''GEMINI'' @ ''.md'']) = None"
    by blast
  from t r2 c o4 src have c3: "stat (fsys (snd (run (main demo_env) (init_world demo_fs))))
        (cwd demo_env @ [''app'', toUpperCase ''claude'' @ ''.md'']) \<noteq> None"
    by blast
  from wf1 wf2 wf3 wf4 wf5 a1 a2 a3 u nm o1 o2 o3 o4 far r1 c1 r2 c src c2 c3 show ?thesis
    by blast
qed

text \<open>
  The claim as stated fails twice. The local-template script run for Claude on a template
  that provides both branding documents exits with status 0 and leaves both \<^verbatim>\<open>CLAUDE.md\<close>
  and \<^verbatim>\<open>GEMINI.md\<close> in the destination root, each with the language rules written into it.
  And the refactored script run for Claude and the language \<^verbatim>\<open>xy.md\<close> on a template that has
  no branding file and only the rules file \<^verbatim>\<open>Rules/x.mdy.md\<close> accepts the language, finds no
  \<^verbatim>\<open>Rules/xy.md.md\<close>, exits with status 0 and leaves no branding document.
\<close>

theorem both_branding_documents_counterexample:
  "\<not> asks_usage (argv demo_env)
   \<and> fst (run (local_script [''opt'', ''cef''] demo_env) (init_world demo_local_fs)) = 0
   \<and> raw_llm (argv demo_env) = Some ''claude''
   \<and> stat (fsys (snd (run (local_script [''opt'', ''cef''] demo_env) (init_world demo_local_fs))))
        [''home'', ''app'', ''CLAUDE.md''] = Some (File ''python rules'')
   \<and> stat (fsys (snd (run (local_script [''opt'', ''cef''] demo_env) (init_world demo_local_fs))))
        [''home'', ''app'', ''GEMINI.md''] = Some (File ''python rules'')
   \<and> \<not> asks_usage (argv demo_env_bare)
   \<and> raw_lang (argv demo_env_bare) = Some ''xy.md'' \<and> raw_llm (argv demo_env_bare) = Some ''claude''
   \<and> discovered demo_env_bare demo_fs = Some [''xy.md'']
   \<and> fst (run (main demo_env_bare) (init_world demo_fs)) = 0
   \<and> stat (fsys (snd (run (main demo_env_bare) (init_world demo_fs)))) [''home'', ''app''] = Some Dir
   \<and> stat (fsys (snd (run (main demo_env_bare) (init_world demo_fs)))) [''home'', ''app'', ''CLAUDE.md''] = None
   \<and> stat (fsys (snd (run (main demo_env_bare) (init_world demo_fs)))) [''home'', ''app'', ''GEMINI.md''] = None"
proof -
  have a: "\<not> asks_usage (argv demo_env) \<and> raw_llm (argv demo_env) = Some ''claude''"
    by code_simp
  have b: "fst (run (local_script [''opt'', ''cef''] demo_env) (init_world demo_local_fs)) = 0"
    by code_simp
  have c: "stat (fsys (snd (run (local_script [''opt'', ''cef''] demo_env) (init_world demo_local_fs))))
        [''home'', ''app'', ''CLAUDE.md''] = Some (File ''python rules'')"
    by code_simp
  have d: "stat (fsys (snd (run (local_script [''opt'', ''cef''] demo_env) (init_world demo_local_fs))))
        [''home'', ''app'', ''GEMINI.md''] = Some (File ''python rules'')"
    by code_simp
  have e: "\<not> asks_usage (argv demo_env_bare)
             \<and> raw_lang (argv demo_env_bare) = Some ''xy.md'' \<and> raw_llm (argv demo_env_bare) = Some ''claude''"
    by code_simp
  have f: "discovered demo_env_bare demo_fs = Some [''xy.md'']"
    by code_simp
  have g: "fst (run (main demo_env_bare) (init_world demo_fs)) = 0"
    by code_simp
  have h: "stat (fsys (snd (run (main demo_env_bare) (init_world demo_fs)))) [''home'', ''app''] = Some Dir"
    by code_simp
  have i: "stat (fsys (snd (run (main demo_env_bare) (init_world demo_fs)))) [''home'', ''app'', ''CLAUDE.md''] = None"
    by code_simp
  have j: "stat (fsys (snd (run (main demo_env_bare) (init_world demo_fs)))) [''home'', ''app'', ''GEMINI.md''] = None"
    by code_simp
  from a b c d e f g h i j show ?thesis by blast
qed

end
